theory Spec2Isabelle
  imports Complex_Main "HOL-Library.AList" "HOL-Library.Log_Nat"
begin

section \<open>Values of the activity-based costing script\<close>

text \<open>
  The script \<^verbatim>\<open>v3.py\<close> reads two spreadsheet tables with pandas and derives four
  tables from them. A spreadsheet cell is a number, a blank (pandas' NaN), a text or a
  timestamp. Numbers are 64-bit floats in the script; here they are real numbers, and
  NaN is kept as a value of its own because the script's behaviour depends on it. The
  pipeline below computes with exact real arithmetic. Where the order of the additions
  matters, the sums of lines 95-97 and 107 are also given with the addition as a
  parameter, and with it the rounded addition of 64-bit floats.
\<close>

datatype timestamp =
  Timestamp (year: int) (month: nat) (day: nat) (hour: nat) (minute: nat) (second: nat)

datatype cell = Num real | NaN | Str string | Time timestamp

text \<open>
  Everything that stops the script is a value of \<open>error\<close>. \<open>MissingColumnsError\<close> is the
  \<^verbatim>\<open>st.error(...); st.stop()\<close> of the validation block; the others are the Python
  exceptions of the same name.
\<close>

datatype error = MissingColumnsError | IndexError | KeyError | TypeError | ZeroDivisionError

type_synonym 'a result = "error + 'a"

text \<open>Applying a function that may raise to every element, in order; the first error wins.\<close>

fun map_result :: "('a \<Rightarrow> 'b result) \<Rightarrow> 'a list \<Rightarrow> 'b list result" where
  "map_result f [] = Inr []"
| "map_result f (x # xs) =
     (case f x of
        Inl e \<Rightarrow> Inl e
      | Inr y \<Rightarrow> (case map_result f xs of Inl e \<Rightarrow> Inl e | Inr ys \<Rightarrow> Inr (y # ys)))"

subsection \<open>Python and pandas primitives\<close>

text \<open>\<^verbatim>\<open>pd.isna\<close> and \<^verbatim>\<open>pd.notna\<close> on a scalar.\<close>

fun isna :: "cell \<Rightarrow> bool" where
  "isna NaN = True"
| "isna _ = False"

definition notna :: "cell \<Rightarrow> bool" where
  "notna c = (\<not> isna c)"

text \<open>
  \<^verbatim>\<open>str.strip()\<close> removes leading and trailing whitespace. A \<open>char\<close> stands for a code
  point below 256; Python's whitespace there is 9-13, 28-32, 133 and 160.
\<close>

definition isspace :: "char \<Rightarrow> bool" where
  "isspace c = ((of_char c :: nat) \<in> {9, 10, 11, 12, 13, 28, 29, 30, 31, 32, 133, 160})"

definition strip :: "string \<Rightarrow> string" where
  "strip s = rev (dropWhile isspace (rev (dropWhile isspace s)))"

text \<open>
  \<^verbatim>\<open>str(x)\<close>: a text is itself and NaN prints as \<^verbatim>\<open>nan\<close>. How Python prints a float
  or a timestamp is left to the parameter \<open>fmt\<close>.
\<close>

fun py_str :: "(cell \<Rightarrow> string) \<Rightarrow> cell \<Rightarrow> string" where
  "py_str fmt (Str s) = s"
| "py_str fmt NaN = ''nan''"
| "py_str fmt c = fmt c"

text \<open>\<^verbatim>\<open>x != 0\<close>, \<^verbatim>\<open>a == b\<close>, \<^verbatim>\<open>a / b\<close> and \<^verbatim>\<open>a * b\<close> on cells.\<close>

fun py_ne_zero :: "cell \<Rightarrow> bool" where
  "py_ne_zero (Num x) = (x \<noteq> 0)"
| "py_ne_zero _ = True"

definition py_eq :: "cell \<Rightarrow> cell \<Rightarrow> bool" where
  "py_eq a b = (a = b \<and> a \<noteq> NaN)"

fun py_truediv :: "cell \<Rightarrow> cell \<Rightarrow> cell result" where
  "py_truediv (Num a) (Num b) = (if b = 0 then Inl ZeroDivisionError else Inr (Num (a / b)))"
| "py_truediv NaN (Num b) = (if b = 0 then Inl ZeroDivisionError else Inr NaN)"
| "py_truediv (Num a) NaN = Inr NaN"
| "py_truediv NaN NaN = Inr NaN"
| "py_truediv _ _ = Inl TypeError"

text \<open>
  A product with a text or a timestamp is reported as \<open>TypeError\<close>, which is what Python
  does for a float factor. (Python repeats a text multiplied by an \<^verbatim>\<open>int\<close>; the rate
  is an \<^verbatim>\<open>int\<close> only when every activity has rate 0, and that corner is not modelled.)
\<close>

fun py_mul :: "cell \<Rightarrow> cell \<Rightarrow> cell result" where
  "py_mul (Num a) (Num b) = Inr (Num (a * b))"
| "py_mul (Num a) NaN = Inr NaN"
| "py_mul NaN (Num b) = Inr NaN"
| "py_mul NaN NaN = Inr NaN"
| "py_mul _ _ = Inl TypeError"

text \<open>
  \<^verbatim>\<open>DataFrame.sum(axis=1)\<close> on one row: pandas skips NaN (\<^verbatim>\<open>skipna=True\<close>), so a row
  of blanks sums to 0.
\<close>

fun nansum :: "cell list \<Rightarrow> real result" where
  "nansum [] = Inr 0"
| "nansum (Num x # cs) = (case nansum cs of Inl e \<Rightarrow> Inl e | Inr s \<Rightarrow> Inr (x + s))"
| "nansum (NaN # cs) = nansum cs"
| "nansum (_ # cs) = Inl TypeError"

text \<open>\<^verbatim>\<open>Series.unique()\<close>: the distinct values in order of first appearance.\<close>

definition unique :: "'a list \<Rightarrow> 'a list" where
  "unique xs = rev (remdups (rev xs))"

subsection \<open>Tables, rows and dictionaries\<close>

text \<open>
  A \<open>table\<close> is a sheet as \<^verbatim>\<open>pd.read_excel\<close> returns it: the header and the rows of
  cells. A \<open>series\<close> is a labelled row, as \<^verbatim>\<open>iterrows\<close> and \<^verbatim>\<open>apply(axis=1)\<close> pass it
  to the script; it is also a Python \<^verbatim>\<open>dict\<close>, whose keys keep their insertion order:
  \<open>AList.update\<close> overwrites a key in place and appends a new one. A derived data frame is
  the list of its rows.
\<close>

record table =
  columns :: "string list"
  rows :: "cell list list"

type_synonym 'l series = "('l \<times> cell) list"

definition iterrows :: "table \<Rightarrow> string series list" where
  "iterrows df = map (zip (columns df)) (rows df)"

text \<open>\<^verbatim>\<open>s[key]\<close> raises \<open>KeyError\<close> on a missing label.\<close>

definition getitem :: "'l series \<Rightarrow> 'l \<Rightarrow> cell result" where
  "getitem s k = (case map_of s k of None \<Rightarrow> Inl KeyError | Some v \<Rightarrow> Inr v)"

text \<open>
  \<^verbatim>\<open>Series.get(key, default)\<close> on an event row. The labels of an event row are texts, so
  only a text key can be one of them.
\<close>

definition series_get :: "string series \<Rightarrow> cell \<Rightarrow> cell \<Rightarrow> cell" where
  "series_get s key d =
     (case key of
        Str k \<Rightarrow> (case map_of s k of None \<Rightarrow> d | Some v \<Rightarrow> v)
      | _ \<Rightarrow> d)"

text \<open>\<^verbatim>\<open>df[k]\<close> as a column, and \<^verbatim>\<open>df[k] = values\<close>.\<close>

definition column :: "'l series list \<Rightarrow> 'l \<Rightarrow> cell list result" where
  "column df k = map_result (\<lambda>r. getitem r k) df"

definition set_column :: "'l series list \<Rightarrow> 'l \<Rightarrow> cell list \<Rightarrow> 'l series list" where
  "set_column df k vs = map (\<lambda>(r, v). AList.update k v r) (zip df vs)"

section \<open>The pipeline\<close>

text \<open>
  Two library functions stay parameters: \<open>fmt\<close>, Python's \<^verbatim>\<open>str\<close> on a number or a
  timestamp, and \<open>parse_datetime\<close>, what \<^verbatim>\<open>pd.to_datetime(..., errors="coerce")\<close> makes
  of a text or a number in a column (\<open>None\<close> is pandas' NaT).
\<close>

record pylib =
  fmt :: "cell \<Rightarrow> string"
  parse_datetime :: "cell list \<Rightarrow> cell \<Rightarrow> timestamp option"

subsection \<open>Validation (lines 45-48)\<close>

definition required_cols :: "string set" where
  "required_cols = {''Activity'', ''Type'', ''Total_Cost'', ''Driver''}"

subsection \<open>Driver units (lines 53-67)\<close>

text \<open>\<^verbatim>\<open>event_df.iloc[-1]\<close>: the last row, \<open>IndexError\<close> on a table without rows.\<close>

definition total_row :: "table \<Rightarrow> string series result" where
  "total_row event_df =
     (if rows event_df = [] then Inl IndexError
      else Inr (zip (columns event_df) (last (rows event_df))))"

text \<open>
  \<^verbatim>\<open>select_dtypes(include="number")\<close>: \<^verbatim>\<open>read_excel\<close> gives a column a numeric dtype
  when each of its cells, the totals row included, is a number or blank.
\<close>

fun is_number :: "cell \<Rightarrow> bool" where
  "is_number (Num x) = True"
| "is_number NaN = True"
| "is_number _ = False"

definition numeric_cols :: "table \<Rightarrow> string list" where
  "numeric_cols event_df =
     filter (\<lambda>c. list_all (\<lambda>r. case map_of r c of Some v \<Rightarrow> is_number v | None \<Rightarrow> False)
                   (iterrows event_df))
            (columns event_df)"

text \<open>\<^verbatim>\<open>total_row[numeric_cols].to_dict().items()\<close>\<close>

definition total_items :: "table \<Rightarrow> string series \<Rightarrow> (string \<times> cell) list" where
  "total_items event_df tr =
     concat (map (\<lambda>k. case map_of tr k of Some v \<Rightarrow> [(k, v)] | None \<Rightarrow> [])
                 (numeric_cols event_df))"

text \<open>
  The dictionary comprehension: a later item overwrites an earlier one with the same
  trimmed name. The items come from numeric columns, where \<^verbatim>\<open>float(v)\<close> changes nothing.
\<close>

definition driver_units :: "(string \<times> cell) list \<Rightarrow> (string \<times> cell) list" where
  "driver_units items =
     foldl (\<lambda>d (k, v). if notna v then AList.update (strip k) v d else d) [] items"

definition get_driver_units :: "pylib \<Rightarrow> (string \<times> cell) list \<Rightarrow> cell \<Rightarrow> cell" where
  "get_driver_units lib du driver =
     (if isna driver then Num 0
      else (case map_of du (strip (py_str (fmt lib) driver)) of
              None \<Rightarrow> Num 0
            | Some v \<Rightarrow> v))"

subsection \<open>Rate per driver unit (lines 68-71)\<close>

definition rate_lambda :: "string series \<Rightarrow> cell result" where
  "rate_lambda r =
     (case getitem r ''Driver_Units'' of
        Inl e \<Rightarrow> Inl e
      | Inr u \<Rightarrow>
          if py_ne_zero u
          then (case getitem r ''Total_Cost'' of Inl e \<Rightarrow> Inl e | Inr c \<Rightarrow> py_truediv c u)
          else Inr (Num 0))"

text \<open>Lines 45-71: the cost-pool table with its two derived columns.\<close>

definition rated_cost_pool :: "pylib \<Rightarrow> table \<Rightarrow> table \<Rightarrow> string series list result" where
  "rated_cost_pool lib cost_df event_df =
     (if \<not> required_cols \<subseteq> set (columns cost_df) then Inl MissingColumnsError
      else
        case total_row event_df of
          Inl e \<Rightarrow> Inl e
        | Inr tr \<Rightarrow>
            (let du = driver_units (total_items event_df tr) in
             (case column (iterrows cost_df) ''Driver'' of
                Inl e \<Rightarrow> Inl e
              | Inr drivers \<Rightarrow>
                  (let cost1 = set_column (iterrows cost_df) ''Driver_Units''
                                 (map (get_driver_units lib du) drivers) in
                   (case map_result rate_lambda cost1 of
                      Inl e \<Rightarrow> Inl e
                    | Inr rates \<Rightarrow> Inr (set_column cost1 ''RatePerDriverUnit'' rates))))))"

subsection \<open>Cost allocation (lines 76-97)\<close>

definition events_clean :: "table \<Rightarrow> string series list" where
  "events_clean event_df = butlast (iterrows event_df)"

text \<open>\<^verbatim>\<open>flight_row.get(act["Driver"], 0) * act["RatePerDriverUnit"]\<close>\<close>

definition alloc_cell :: "string series \<Rightarrow> string series \<Rightarrow> cell result" where
  "alloc_cell flight_row act =
     (case getitem act ''Driver'' of
        Inl e \<Rightarrow> Inl e
      | Inr d \<Rightarrow>
          (case getitem act ''RatePerDriverUnit'' of
             Inl e \<Rightarrow> Inl e
           | Inr rate \<Rightarrow> py_mul (series_get flight_row d (Num 0)) rate))"

text \<open>The inner loop over the activities, filling the dictionary \<^verbatim>\<open>row_cost\<close>.\<close>

fun alloc_loop :: "string series \<Rightarrow> string series list \<Rightarrow> cell series \<Rightarrow> cell series result" where
  "alloc_loop flight_row [] row_cost = Inr row_cost"
| "alloc_loop flight_row (act # acts) row_cost =
     (case alloc_cell flight_row act of
        Inl e \<Rightarrow> Inl e
      | Inr v \<Rightarrow>
          (case getitem act ''Activity'' of
             Inl e \<Rightarrow> Inl e
           | Inr a \<Rightarrow> alloc_loop flight_row acts (AList.update a v row_cost)))"

text \<open>One pass of the outer loop; \<^verbatim>\<open>flight_row.iloc[0]\<close> raises on a row without cells.\<close>

definition flight_costs :: "pylib \<Rightarrow> string series list \<Rightarrow> string series \<Rightarrow> cell series result" where
  "flight_costs lib cost_df flight_row =
     (case flight_row of
        [] \<Rightarrow> Inl IndexError
      | (c, flight_name) # rest \<Rightarrow>
          alloc_loop flight_row cost_df [(Str ''Flight'', Str (py_str (fmt lib) flight_name))])"

text \<open>\<^verbatim>\<open>costs_df.drop(columns=["Flight"]).sum(axis=1)\<close> on one row.\<close>

definition row_total :: "cell series \<Rightarrow> cell result" where
  "row_total r =
     (case nansum (map snd (AList.delete (Str ''Flight'') r)) of
        Inl e \<Rightarrow> Inl e
      | Inr s \<Rightarrow> Inr (Num s))"

text \<open>
  Lines 81-97 on the flight rows. Without a flight row \<^verbatim>\<open>pd.DataFrame([])\<close> has no
  column named Flight and \<^verbatim>\<open>drop\<close> raises \<open>KeyError\<close>.
\<close>

definition allocate :: "pylib \<Rightarrow> string series list \<Rightarrow> string series list \<Rightarrow> cell series list result" where
  "allocate lib cost_df flights =
     (case map_result (flight_costs lib cost_df) flights of
        Inl e \<Rightarrow> Inl e
      | Inr costs_data \<Rightarrow>
          if costs_data = [] then Inl KeyError
          else
            (case map_result row_total costs_data of
               Inl e \<Rightarrow> Inl e
             | Inr totals \<Rightarrow> Inr (set_column costs_data (Str ''Total_Cost_Per_Flight'') totals)))"

text \<open>Lines 76-97.\<close>

definition allocation_matrix :: "pylib \<Rightarrow> string series list \<Rightarrow> table \<Rightarrow> cell series list result" where
  "allocation_matrix lib cost_df event_df = allocate lib cost_df (events_clean event_df)"

subsection \<open>Summary by type (lines 102-109)\<close>

text \<open>\<^verbatim>\<open>cost_df.loc[cost_df["Type"] == t, "Activity"]\<close>\<close>

definition acts_of_type :: "cell list \<Rightarrow> cell list \<Rightarrow> cell \<Rightarrow> cell list" where
  "acts_of_type types activities t =
     map snd (filter (\<lambda>(ty, a). py_eq ty t) (zip types activities))"

text \<open>\<^verbatim>\<open>costs_df[acts].sum(axis=1)\<close> on one row.\<close>

definition sum_of_columns :: "cell list \<Rightarrow> cell series \<Rightarrow> cell result" where
  "sum_of_columns acts r =
     (case map_result (getitem r) acts of
        Inl e \<Rightarrow> Inl e
      | Inr vs \<Rightarrow> (case nansum vs of Inl e \<Rightarrow> Inl e | Inr s \<Rightarrow> Inr (Num s)))"

definition type_label :: "pylib \<Rightarrow> cell \<Rightarrow> string" where
  "type_label lib t = py_str (fmt lib) t @ ''_Cost''"

fun summary_loop ::
  "pylib \<Rightarrow> cell list \<Rightarrow> cell list \<Rightarrow> cell series list \<Rightarrow> cell list \<Rightarrow> string series list
     \<Rightarrow> string series list result" where
  "summary_loop lib types activities costs_df [] summary = Inr summary"
| "summary_loop lib types activities costs_df (t # ts) summary =
     (case map_result (sum_of_columns (acts_of_type types activities t)) costs_df of
        Inl e \<Rightarrow> Inl e
      | Inr col \<Rightarrow>
          summary_loop lib types activities costs_df ts
            (set_column summary (type_label lib t) col))"

definition summary_table :: "pylib \<Rightarrow> string series list \<Rightarrow> cell series list \<Rightarrow> string series list result" where
  "summary_table lib cost_df costs_df =
     (case column costs_df (Str ''Flight'') of
        Inl e \<Rightarrow> Inl e
      | Inr flights \<Rightarrow>
          (case column cost_df ''Type'' of
             Inl e \<Rightarrow> Inl e
           | Inr types \<Rightarrow>
               (case column cost_df ''Activity'' of
                  Inl e \<Rightarrow> Inl e
                | Inr activities \<Rightarrow>
                    (case summary_loop lib types activities costs_df (unique types)
                            (map (\<lambda>f. [(''Flight'', f)]) flights) of
                       Inl e \<Rightarrow> Inl e
                     | Inr summary \<Rightarrow>
                         (case column costs_df (Str ''Total_Cost_Per_Flight'') of
                            Inl e \<Rightarrow> Inl e
                          | Inr totals \<Rightarrow>
                              Inr (set_column summary ''Total_Cost_Per_Flight'' totals))))))"

subsection \<open>Time period (lines 114-138)\<close>

text \<open>
  \<^verbatim>\<open>pd.to_datetime(column, errors="coerce")\<close>: a blank becomes NaT, a timestamp stays,
  and what cannot be parsed becomes NaT.
\<close>

definition coerce :: "pylib \<Rightarrow> cell list \<Rightarrow> cell \<Rightarrow> timestamp option" where
  "coerce lib col c =
     (case c of NaN \<Rightarrow> None | Time t \<Rightarrow> Some t | _ \<Rightarrow> parse_datetime lib col c)"

definition to_datetime :: "pylib \<Rightarrow> cell list \<Rightarrow> timestamp option list" where
  "to_datetime lib col = map (coerce lib col) col"

fun get_time_period :: "timestamp option \<Rightarrow> string" where
  "get_time_period None = ''Unknown''"
| "get_time_period (Some t) =
     (if 5 \<le> hour t \<and> hour t < 12 then ''Morning''
      else if 12 \<le> hour t \<and> hour t < 17 then ''Afternoon''
      else if 17 \<le> hour t \<and> hour t < 21 then ''Evening''
      else ''Night'')"

text \<open>\<^verbatim>\<open>viz_df.iloc[:, 0].astype(str)\<close>, which needs a first column.\<close>

definition first_column_str :: "pylib \<Rightarrow> string series list \<Rightarrow> cell list result" where
  "first_column_str lib df =
     map_result (\<lambda>r. case r of
                       [] \<Rightarrow> Inl IndexError
                     | (c, v) # rest \<Rightarrow> Inr (Str (py_str (fmt lib) v))) df"

text \<open>Lines 120-138 on the rows of \<^verbatim>\<open>viz_df\<close>.\<close>

definition classify :: "pylib \<Rightarrow> string series list \<Rightarrow> string list result" where
  "classify lib viz_df =
     (case column viz_df ''Departure Time'' of
        Inl e \<Rightarrow> Inl e
      | Inr departure \<Rightarrow> Inr (map get_time_period (to_datetime lib departure)))"

text \<open>Lines 114-138.\<close>

definition time_periods :: "pylib \<Rightarrow> table \<Rightarrow> string list result" where
  "time_periods lib event_df =
     (case first_column_str lib (events_clean event_df) of
        Inl e \<Rightarrow> Inl e
      | Inr names \<Rightarrow> classify lib (set_column (events_clean event_df) ''Flight'' names))"

subsection \<open>The whole run\<close>

record outputs =
  RatedCostPool :: "string series list"
  AllocationMatrix :: "cell series list"
  Summary :: "string series list"
  TimePeriod :: "string list"

definition pipeline :: "pylib \<Rightarrow> table \<Rightarrow> table \<Rightarrow> outputs result" where
  "pipeline lib cost_df event_df =
     (case rated_cost_pool lib cost_df event_df of
        Inl e \<Rightarrow> Inl e
      | Inr cost \<Rightarrow>
          (case allocation_matrix lib cost event_df of
             Inl e \<Rightarrow> Inl e
           | Inr costs \<Rightarrow>
               (case summary_table lib cost costs of
                  Inl e \<Rightarrow> Inl e
                | Inr summ \<Rightarrow>
                    (case time_periods lib event_df of
                       Inl e \<Rightarrow> Inl e
                     | Inr periods \<Rightarrow>
                         Inr \<lparr>RatedCostPool = cost, AllocationMatrix = costs,
                              Summary = summ, TimePeriod = periods\<rparr>))))"

section \<open>The script as a program on objects\<close>

text \<open>
  The functions above read the script as a computation on values. pandas data frames are
  objects: \<^verbatim>\<open>df.copy()\<close> and \<^verbatim>\<open>df.iloc[:-1].copy()\<close> make a new object, and
  \<^verbatim>\<open>df[k] = values\<close> changes the object \<^verbatim>\<open>df\<close> in place, for everyone who holds it.
  Here the heap is the list of the table objects and an address is a position in it; the
  two sheets of the workbook are objects of the heap the script starts in. The frames
  \<^verbatim>\<open>costs_df\<close> and \<^verbatim>\<open>summary\<close> are built from new Python lists, no sheet can be reached
  from them, and they stay values.
\<close>

type_synonym addr = nat

type_synonym heap = "table list"

definition new_object :: "heap \<Rightarrow> table \<Rightarrow> heap \<times> addr" where
  "new_object h df = (h @ [df], length h)"

text \<open>
  \<^verbatim>\<open>df[k] = values\<close> on a table: a column called \<open>k\<close> keeps its place and gets the new
  values, another name becomes a new last column.
\<close>

definition table_set_column :: "table \<Rightarrow> string \<Rightarrow> cell list \<Rightarrow> table" where
  "table_set_column df k vs =
     \<lparr>columns = (if k \<in> set (columns df) then columns df else columns df @ [k]),
      rows = map (map snd) (set_column (iterrows df) k vs)\<rparr>"

definition setitem :: "heap \<Rightarrow> addr \<Rightarrow> string \<Rightarrow> cell list \<Rightarrow> heap" where
  "setitem h a k vs = h[a := table_set_column (h ! a) k vs]"

text \<open>\<^verbatim>\<open>df.iloc[:-1]\<close>\<close>

definition iloc_butlast :: "table \<Rightarrow> table" where
  "iloc_butlast df = \<lparr>columns = columns df, rows = butlast (rows df)\<rparr>"

text \<open>What \<^verbatim>\<open>pd.to_datetime\<close> puts into the column: a timestamp, or NaT.\<close>

definition datetime_cell :: "timestamp option \<Rightarrow> cell" where
  "datetime_cell p = (case p of None \<Rightarrow> NaN | Some t \<Rightarrow> Time t)"

text \<open>Lines 39-71: the two copies, the validation, and the two new columns of \<^verbatim>\<open>cost_df\<close>.\<close>

definition script_rates :: "pylib \<Rightarrow> heap \<Rightarrow> addr \<Rightarrow> addr \<Rightarrow> (addr \<times> addr) result \<times> heap" where
  "script_rates lib h cost_sheet event_sheet =
     (let (h1, cost_df) = new_object h (h ! cost_sheet);
          (h2, event_df) = new_object h1 (h1 ! event_sheet)
      in if \<not> required_cols \<subseteq> set (columns (h2 ! cost_df)) then (Inl MissingColumnsError, h2)
         else
           (case total_row (h2 ! event_df) of
              Inl e \<Rightarrow> (Inl e, h2)
            | Inr tr \<Rightarrow>
                (let du = driver_units (total_items (h2 ! event_df) tr) in
                 (case column (iterrows (h2 ! cost_df)) ''Driver'' of
                    Inl e \<Rightarrow> (Inl e, h2)
                  | Inr drivers \<Rightarrow>
                      (let h3 = setitem h2 cost_df ''Driver_Units''
                                  (map (get_driver_units lib du) drivers) in
                       (case map_result rate_lambda (iterrows (h3 ! cost_df)) of
                          Inl e \<Rightarrow> (Inl e, h3)
                        | Inr rates \<Rightarrow>
                            (Inr (cost_df, event_df),
                             setitem h3 cost_df ''RatePerDriverUnit'' rates)))))))"

text \<open>Lines 76-109: the copy without the totals row, the matrix and the summary.\<close>

definition script_allocate ::
  "pylib \<Rightarrow> heap \<Rightarrow> addr \<Rightarrow> addr \<Rightarrow> (addr \<times> cell series list \<times> string series list) result \<times> heap" where
  "script_allocate lib h cost_df event_df =
     (let (h1, clean_df) = new_object h (iloc_butlast (h ! event_df)) in
      (case allocate lib (iterrows (h1 ! cost_df)) (iterrows (h1 ! clean_df)) of
         Inl e \<Rightarrow> (Inl e, h1)
       | Inr costs_df \<Rightarrow>
           (case summary_table lib (iterrows (h1 ! cost_df)) costs_df of
              Inl e \<Rightarrow> (Inl e, h1)
            | Inr summary \<Rightarrow> (Inr (clean_df, costs_df, summary), h1))))"

text \<open>Lines 114-138: the copy \<^verbatim>\<open>viz_df\<close> and its three column assignments.\<close>

definition script_periods :: "pylib \<Rightarrow> heap \<Rightarrow> addr \<Rightarrow> string list result \<times> heap" where
  "script_periods lib h clean_df =
     (let (h1, viz_df) = new_object h (h ! clean_df) in
      (case first_column_str lib (iterrows (h1 ! viz_df)) of
         Inl e \<Rightarrow> (Inl e, h1)
       | Inr names \<Rightarrow>
           (let h2 = setitem h1 viz_df ''Flight'' names in
            (case column (iterrows (h2 ! viz_df)) ''Departure Time'' of
               Inl e \<Rightarrow> (Inl e, h2)
             | Inr departure \<Rightarrow>
                 (let parsed = to_datetime lib departure;
                      h3 = setitem h2 viz_df ''Departure Time'' (map datetime_cell parsed);
                      periods = map get_time_period parsed
                  in (Inr periods, setitem h3 viz_df ''Time Period'' (map Str periods)))))))"

text \<open>The run; the rated cost pool is read from the object \<^verbatim>\<open>cost_df\<close> at the end.\<close>

definition script :: "pylib \<Rightarrow> heap \<Rightarrow> addr \<Rightarrow> addr \<Rightarrow> outputs result \<times> heap" where
  "script lib h cost_sheet event_sheet =
     (case script_rates lib h cost_sheet event_sheet of
        (Inl e, h1) \<Rightarrow> (Inl e, h1)
      | (Inr (cost_df, event_df), h1) \<Rightarrow>
          (case script_allocate lib h1 cost_df event_df of
             (Inl e, h2) \<Rightarrow> (Inl e, h2)
           | (Inr (clean_df, costs_df, summary), h2) \<Rightarrow>
               (case script_periods lib h2 clean_df of
                  (Inl e, h3) \<Rightarrow> (Inl e, h3)
                | (Inr periods, h3) \<Rightarrow>
                    (Inr \<lparr>RatedCostPool = iterrows (h3 ! cost_df), AllocationMatrix = costs_df,
                          Summary = summary, TimePeriod = periods\<rparr>, h3))))"

text \<open>A table as pandas holds it: every row has a cell for every column.\<close>

definition rectangular :: "table \<Rightarrow> bool" where
  "rectangular df = (\<forall>r \<in> set (rows df). length r = length (columns df))"

section \<open>Sums of 64-bit floats\<close>

text \<open>
  \<^verbatim>\<open>costs_df.drop(columns=["Flight"]).sum(axis=1)\<close> adds all activity cells of a flight,
  and \<^verbatim>\<open>costs_df[acts].sum(axis=1)\<close> adds the cells of one Type. Both add 64-bit floats,
  and the sum of two floats is rounded to a float, so that the result depends on how the
  additions are grouped. This section gives the two sums, and the tables made with them,
  for an arbitrary addition \<open>add\<close>; with \<open>(+)\<close> they are the functions of the pipeline
  above, with \<open>fadd64\<close> they round as the script does.
\<close>

subsection \<open>The rounded addition\<close>

text \<open>Rounding to the nearest integer; a tie goes to the even one.\<close>

definition rne :: "real \<Rightarrow> int" where
  "rne x =
     (let n = \<lfloor>x\<rfloor>; f = x - of_int n
      in if f < 1 / 2 then n
         else if 1 / 2 < f then n + 1
         else if even n then n else n + 1)"

definition pow2 :: "int \<Rightarrow> real" where
  "pow2 e = (if 0 \<le> e then 2 ^ nat e else 1 / 2 ^ nat (- e))"

text \<open>
  The binary exponent of a nonzero number \<open>x\<close>: the \<open>e\<close> with
  \<open>pow2 e \<le> \<bar>x\<bar> < pow2 (e + 1)\<close>, found from the bit length of an integer.
\<close>

definition exponent :: "real \<Rightarrow> int" where
  "exponent x =
     (if 1 \<le> \<bar>x\<bar> then bitlen \<lfloor>\<bar>x\<bar>\<rfloor> - 1 else - bitlen (\<lceil>1 / \<bar>x\<bar>\<rceil> - 1))"

text \<open>
  The nearest number with a significand of 53 bits, as IEEE 754 binary64 rounds
  (round to nearest, ties to even). The range of the exponent is not bounded: a sum
  beyond the largest float is not turned into an infinity. (A sum of two floats in the
  subnormal range is a float itself, and rounding leaves it as it is.)
\<close>

definition round64 :: "real \<Rightarrow> real" where
  "round64 x =
     (if x = 0 then 0
      else of_int (rne (x / pow2 (exponent x - 52))) * pow2 (exponent x - 52))"

text \<open>\<^verbatim>\<open>a + b\<close> on two floats.\<close>

definition fadd64 :: "real \<Rightarrow> real \<Rightarrow> real" where
  "fadd64 a b = round64 (a + b)"

subsection \<open>The sums with a given addition\<close>

text \<open>
  pandas replaces the blanks of a row by 0 and numpy adds the cells one after another in
  the order of the columns, starting from 0. (numpy adds in this order along an axis
  that is not contiguous in memory, and along a contiguous one when it has fewer than
  eight cells.)
\<close>

fun nansum_from :: "(real \<Rightarrow> real \<Rightarrow> real) \<Rightarrow> real \<Rightarrow> cell list \<Rightarrow> real result" where
  "nansum_from add s [] = Inr s"
| "nansum_from add s (Num x # cs) = nansum_from add (add s x) cs"
| "nansum_from add s (NaN # cs) = nansum_from add (add s 0) cs"
| "nansum_from add s (_ # cs) = Inl TypeError"

definition nansum_with :: "(real \<Rightarrow> real \<Rightarrow> real) \<Rightarrow> cell list \<Rightarrow> real result" where
  "nansum_with add cs = nansum_from add 0 cs"

text \<open>Lines 95-97 on one row, and lines 81-97.\<close>

definition row_total_with :: "(real \<Rightarrow> real \<Rightarrow> real) \<Rightarrow> cell series \<Rightarrow> cell result" where
  "row_total_with add r =
     (case nansum_with add (map snd (AList.delete (Str ''Flight'') r)) of
        Inl e \<Rightarrow> Inl e
      | Inr s \<Rightarrow> Inr (Num s))"

definition allocate_with ::
  "(real \<Rightarrow> real \<Rightarrow> real) \<Rightarrow> pylib \<Rightarrow> string series list \<Rightarrow> string series list
     \<Rightarrow> cell series list result" where
  "allocate_with add lib cost_df flights =
     (case map_result (flight_costs lib cost_df) flights of
        Inl e \<Rightarrow> Inl e
      | Inr costs_data \<Rightarrow>
          if costs_data = [] then Inl KeyError
          else
            (case map_result (row_total_with add) costs_data of
               Inl e \<Rightarrow> Inl e
             | Inr totals \<Rightarrow> Inr (set_column costs_data (Str ''Total_Cost_Per_Flight'') totals)))"

definition allocation_matrix_with ::
  "(real \<Rightarrow> real \<Rightarrow> real) \<Rightarrow> pylib \<Rightarrow> string series list \<Rightarrow> table \<Rightarrow> cell series list result" where
  "allocation_matrix_with add lib cost_df event_df =
     allocate_with add lib cost_df (events_clean event_df)"

text \<open>Line 107 on one row, and lines 102-109.\<close>

definition sum_of_columns_with ::
  "(real \<Rightarrow> real \<Rightarrow> real) \<Rightarrow> cell list \<Rightarrow> cell series \<Rightarrow> cell result" where
  "sum_of_columns_with add acts r =
     (case map_result (getitem r) acts of
        Inl e \<Rightarrow> Inl e
      | Inr vs \<Rightarrow> (case nansum_with add vs of Inl e \<Rightarrow> Inl e | Inr s \<Rightarrow> Inr (Num s)))"

fun summary_loop_with ::
  "(real \<Rightarrow> real \<Rightarrow> real) \<Rightarrow> pylib \<Rightarrow> cell list \<Rightarrow> cell list \<Rightarrow> cell series list \<Rightarrow> cell list
     \<Rightarrow> string series list \<Rightarrow> string series list result" where
  "summary_loop_with add lib types activities costs_df [] summary = Inr summary"
| "summary_loop_with add lib types activities costs_df (t # ts) summary =
     (case map_result (sum_of_columns_with add (acts_of_type types activities t)) costs_df of
        Inl e \<Rightarrow> Inl e
      | Inr col \<Rightarrow>
          summary_loop_with add lib types activities costs_df ts
            (set_column summary (type_label lib t) col))"

definition summary_table_with ::
  "(real \<Rightarrow> real \<Rightarrow> real) \<Rightarrow> pylib \<Rightarrow> string series list \<Rightarrow> cell series list
     \<Rightarrow> string series list result" where
  "summary_table_with add lib cost_df costs_df =
     (case column costs_df (Str ''Flight'') of
        Inl e \<Rightarrow> Inl e
      | Inr flights \<Rightarrow>
          (case column cost_df ''Type'' of
             Inl e \<Rightarrow> Inl e
           | Inr types \<Rightarrow>
               (case column cost_df ''Activity'' of
                  Inl e \<Rightarrow> Inl e
                | Inr activities \<Rightarrow>
                    (case summary_loop_with add lib types activities costs_df (unique types)
                            (map (\<lambda>f. [(''Flight'', f)]) flights) of
                       Inl e \<Rightarrow> Inl e
                     | Inr summary \<Rightarrow>
                         (case column costs_df (Str ''Total_Cost_Per_Flight'') of
                            Inl e \<Rightarrow> Inl e
                          | Inr totals \<Rightarrow>
                              Inr (set_column summary ''Total_Cost_Per_Flight'' totals))))))"

text \<open>The run with these sums; rates, cells and time periods are those of \<open>pipeline\<close>.\<close>

definition pipeline_with :: "(real \<Rightarrow> real \<Rightarrow> real) \<Rightarrow> pylib \<Rightarrow> table \<Rightarrow> table \<Rightarrow> outputs result" where
  "pipeline_with add lib cost_df event_df =
     (case rated_cost_pool lib cost_df event_df of
        Inl e \<Rightarrow> Inl e
      | Inr cost \<Rightarrow>
          (case allocation_matrix_with add lib cost event_df of
             Inl e \<Rightarrow> Inl e
           | Inr costs \<Rightarrow>
               (case summary_table_with add lib cost costs of
                  Inl e \<Rightarrow> Inl e
                | Inr summ \<Rightarrow>
                    (case time_periods lib event_df of
                       Inl e \<Rightarrow> Inl e
                     | Inr periods \<Rightarrow>
                         Inr \<lparr>RatedCostPool = cost, AllocationMatrix = costs,
                              Summary = summ, TimePeriod = periods\<rparr>))))"

section \<open>Vocabulary of the statements\<close>

text \<open>What a cell contributes to a sum that skips blanks.\<close>

fun cell_value :: "cell \<Rightarrow> real" where
  "cell_value (Num x) = x"
| "cell_value _ = 0"

text \<open>Adding numbers one after another from 0 with a given addition.\<close>

definition sum_with :: "(real \<Rightarrow> real \<Rightarrow> real) \<Rightarrow> real list \<Rightarrow> real" where
  "sum_with add xs = foldl add 0 xs"

fun is_text :: "cell \<Rightarrow> bool" where
  "is_text (Str s) = True"
| "is_text _ = False"

text \<open>
  The allocation matrix has the columns Flight, one per activity, and
  Total_Cost_Per_Flight. They are different columns when the activity names are unique
  and none of them is one of the two fixed labels.
\<close>

definition matrix_labels :: "cell list \<Rightarrow> cell list" where
  "matrix_labels activities = Str ''Flight'' # activities @ [Str ''Total_Cost_Per_Flight'']"

text \<open>
  Two cost-pool tables that differ only outside the four required columns: row by row
  they hold the same cells under Activity, Type, Total_Cost and Driver.
\<close>

definition agree_on :: "string set \<Rightarrow> string series \<Rightarrow> string series \<Rightarrow> bool" where
  "agree_on K r r' = (\<forall>k \<in> K. map_of r k = map_of r' k)"

definition rated_cols :: "string set" where
  "rated_cols = insert ''RatePerDriverUnit'' (insert ''Driver_Units'' required_cols)"

definition same_on_required :: "table \<Rightarrow> table \<Rightarrow> bool" where
  "same_on_required cost_df cost_df' =
     list_all2 (agree_on required_cols) (iterrows cost_df) (iterrows cost_df')"

text \<open>The tables the run derives besides the cost pool itself.\<close>

definition derived_tables :: "outputs \<Rightarrow> cell series list \<times> string series list \<times> string list" where
  "derived_tables out = (AllocationMatrix out, Summary out, TimePeriod out)"

section \<open>A worked example\<close>

text \<open>
  Four activities and two flights above the totals row. The driver of Catering is
  written with a leading space, no column is called Seats, and the second flight has no
  distance and no departure time.
\<close>

definition example_lib :: pylib where
  "example_lib = \<lparr>fmt = (\<lambda>c. ''?''), parse_datetime = (\<lambda>col c. None)\<rparr>"

definition example_cost :: table where
  "example_cost =
     \<lparr>columns = [''Activity'', ''Type'', ''Total_Cost'', ''Driver''],
      rows = [[Str ''Fuel'', Str ''Direct'', Num 1000, Str ''Distance''],
              [Str ''Catering'', Str ''Direct'', Num 300, Str '' Meals''],
              [Str ''Lounge'', Str ''Indirect'', Num 50, Str ''Seats''],
              [Str ''Crew'', Str ''Indirect'', Num 600, Str ''Hours'']]\<rparr>"

definition example_cost_noted :: table where
  "example_cost_noted =
     \<lparr>columns = [''Note'', ''Activity'', ''Type'', ''Total_Cost'', ''Driver''],
      rows = [[Str ''jet fuel'', Str ''Fuel'', Str ''Direct'', Num 1000, Str ''Distance''],
              [NaN, Str ''Catering'', Str ''Direct'', Num 300, Str '' Meals''],
              [NaN, Str ''Lounge'', Str ''Indirect'', Num 50, Str ''Seats''],
              [Num 7, Str ''Crew'', Str ''Indirect'', Num 600, Str ''Hours'']]\<rparr>"

definition example_events :: table where
  "example_events =
     \<lparr>columns = [''Flight'', ''Distance'', ''Meals'', ''Hours'', ''Departure Time''],
      rows = [[Str ''TG101'', Num 100, Num 10, Num 2, Time (Timestamp 2024 1 1 6 30 0)],
              [Str ''TG202'', NaN, Num 30, Num 4, NaN],
              [Str ''Total'', Num 500, Num 40, Num 6, NaN]]\<rparr>"

definition example_total_row :: "string series" where
  "example_total_row =
     [(''Flight'', Str ''Total''), (''Distance'', Num 500), (''Meals'', Num 40),
      (''Hours'', Num 6), (''Departure Time'', NaN)]"

definition example_rated :: "string series list" where
  "example_rated =
     [[(''Activity'', Str ''Fuel''), (''Type'', Str ''Direct''), (''Total_Cost'', Num 1000),
       (''Driver'', Str ''Distance''), (''Driver_Units'', Num 500),
       (''RatePerDriverUnit'', Num 2)],
      [(''Activity'', Str ''Catering''), (''Type'', Str ''Direct''), (''Total_Cost'', Num 300),
       (''Driver'', Str '' Meals''), (''Driver_Units'', Num 40),
       (''RatePerDriverUnit'', Num (15 / 2))],
      [(''Activity'', Str ''Lounge''), (''Type'', Str ''Indirect''), (''Total_Cost'', Num 50),
       (''Driver'', Str ''Seats''), (''Driver_Units'', Num 0),
       (''RatePerDriverUnit'', Num 0)],
      [(''Activity'', Str ''Crew''), (''Type'', Str ''Indirect''), (''Total_Cost'', Num 600),
       (''Driver'', Str ''Hours''), (''Driver_Units'', Num 6),
       (''RatePerDriverUnit'', Num 100)]]"

definition example_activities :: "cell list" where
  "example_activities = [Str ''Fuel'', Str ''Catering'', Str ''Lounge'', Str ''Crew'']"

definition example_types :: "cell list" where
  "example_types = [Str ''Direct'', Str ''Direct'', Str ''Indirect'', Str ''Indirect'']"

definition example_matrix :: "cell series list" where
  "example_matrix =
     [[(Str ''Flight'', Str ''TG101''), (Str ''Fuel'', Num 200), (Str ''Catering'', Num 0),
       (Str ''Lounge'', Num 0), (Str ''Crew'', Num 200),
       (Str ''Total_Cost_Per_Flight'', Num 400)],
      [(Str ''Flight'', Str ''TG202''), (Str ''Fuel'', NaN), (Str ''Catering'', Num 0),
       (Str ''Lounge'', Num 0), (Str ''Crew'', Num 400),
       (Str ''Total_Cost_Per_Flight'', Num 400)]]"

definition example_summary :: "string series list" where
  "example_summary =
     [[(''Flight'', Str ''TG101''), (''Direct_Cost'', Num 200), (''Indirect_Cost'', Num 200),
       (''Total_Cost_Per_Flight'', Num 400)],
      [(''Flight'', Str ''TG202''), (''Direct_Cost'', Num 0), (''Indirect_Cost'', Num 400),
       (''Total_Cost_Per_Flight'', Num 400)]]"

definition example_outputs :: outputs where
  "example_outputs =
     \<lparr>RatedCostPool = example_rated, AllocationMatrix = example_matrix,
      Summary = example_summary, TimePeriod = [''Morning'', ''Unknown'']\<rparr>"

section \<open>An example with rounding\<close>

text \<open>
  The 64-bit floats that Python writes \<^verbatim>\<open>0.1\<close>, \<^verbatim>\<open>0.2\<close> and \<^verbatim>\<open>0.3\<close>, and the
  floats \<^verbatim>\<open>0.30000000000000004\<close>, \<^verbatim>\<open>0.6000000000000001\<close> and \<^verbatim>\<open>0.6\<close>.
\<close>

definition float_0_1 :: real where
  "float_0_1 = 3602879701896397 / 2 ^ 55"

definition float_0_2 :: real where
  "float_0_2 = 3602879701896397 / 2 ^ 54"

definition float_0_3 :: real where
  "float_0_3 = 5404319552844595 / 2 ^ 54"

definition float_0_3_up :: real where
  "float_0_3_up = 5404319552844596 / 2 ^ 54"

definition float_0_6_up :: real where
  "float_0_6_up = 5404319552844596 / 2 ^ 53"

definition float_0_6 :: real where
  "float_0_6 = 5404319552844595 / 2 ^ 53"

text \<open>
  Three activities of two Types with these costs and one driver, whose total is 1, and one
  flight that consumes the whole of it: each rate and each cell is the cost itself, so
  that no quotient and no product rounds.
\<close>

definition rounding_cost :: table where
  "rounding_cost =
     \<lparr>columns = [''Activity'', ''Type'', ''Total_Cost'', ''Driver''],
      rows = [[Str ''Fuel'', Str ''Direct'', Num float_0_1, Str ''Units''],
              [Str ''Lounge'', Str ''Indirect'', Num float_0_2, Str ''Units''],
              [Str ''Crew'', Str ''Indirect'', Num float_0_3, Str ''Units'']]\<rparr>"

definition rounding_events :: table where
  "rounding_events =
     \<lparr>columns = [''Flight'', ''Units'', ''Departure Time''],
      rows = [[Str ''TG101'', Num 1, Time (Timestamp 2024 1 1 6 30 0)],
              [Str ''Total'', Num 1, NaN]]\<rparr>"

definition rounding_rated :: "string series list" where
  "rounding_rated =
     [[(''Activity'', Str ''Fuel''), (''Type'', Str ''Direct''), (''Total_Cost'', Num float_0_1),
       (''Driver'', Str ''Units''), (''Driver_Units'', Num 1),
       (''RatePerDriverUnit'', Num float_0_1)],
      [(''Activity'', Str ''Lounge''), (''Type'', Str ''Indirect''), (''Total_Cost'', Num float_0_2),
       (''Driver'', Str ''Units''), (''Driver_Units'', Num 1),
       (''RatePerDriverUnit'', Num float_0_2)],
      [(''Activity'', Str ''Crew''), (''Type'', Str ''Indirect''), (''Total_Cost'', Num float_0_3),
       (''Driver'', Str ''Units''), (''Driver_Units'', Num 1),
       (''RatePerDriverUnit'', Num float_0_3)]]"

definition rounding_activities :: "cell list" where
  "rounding_activities = [Str ''Fuel'', Str ''Lounge'', Str ''Crew'']"

definition rounding_types :: "cell list" where
  "rounding_types = [Str ''Direct'', Str ''Indirect'', Str ''Indirect'']"

definition rounding_matrix :: "cell series list" where
  "rounding_matrix =
     [[(Str ''Flight'', Str ''TG101''), (Str ''Fuel'', Num float_0_1),
       (Str ''Lounge'', Num float_0_2), (Str ''Crew'', Num float_0_3),
       (Str ''Total_Cost_Per_Flight'', Num float_0_6_up)]]"

definition rounding_summary :: "string series list" where
  "rounding_summary =
     [[(''Flight'', Str ''TG101''), (''Direct_Cost'', Num float_0_1),
       (''Indirect_Cost'', Num (1 / 2)), (''Total_Cost_Per_Flight'', Num float_0_6_up)]]"

definition rounding_outputs :: outputs where
  "rounding_outputs =
     \<lparr>RatedCostPool = rounding_rated, AllocationMatrix = rounding_matrix,
      Summary = rounding_summary, TimePeriod = [''Morning'']\<rparr>"

section \<open>Auxiliary facts\<close>

lemma map_result_Inr_iff:
  "map_result f xs = Inr ys \<longleftrightarrow> list_all2 (\<lambda>x y. f x = Inr y) xs ys"
proof (induction xs arbitrary: ys)
  case Nil
  then show ?case by auto
next
  case (Cons x xs)
  show ?case
    by (auto simp: list_all2_Cons1 Cons.IH[symmetric] split: sum.splits)
qed

lemma map_result_Inl:
  "map_result f xs = Inl e \<Longrightarrow> \<exists>x \<in> set xs. f x = Inl e"
  by (induction xs) (auto split: sum.splits)

lemma map_result_length:
  "map_result f xs = Inr ys \<Longrightarrow> length ys = length xs"
  by (simp add: map_result_Inr_iff list_all2_lengthD)

lemma map_result_nth:
  "map_result f xs = Inr ys \<Longrightarrow> i < length xs \<Longrightarrow> f (xs ! i) = Inr (ys ! i)"
  by (auto simp: map_result_Inr_iff dest: list_all2_nthD)

lemma getitem_Inl: "getitem s k = Inl e \<Longrightarrow> e = KeyError"
  by (auto simp: getitem_def split: option.splits)

lemma py_truediv_Inl:
  "py_truediv a b = Inl e \<Longrightarrow> e = TypeError \<or> (e = ZeroDivisionError \<and> b = Num 0)"
  by (cases "(a, b)" rule: py_truediv.cases) (auto split: if_splits)

lemma py_mul_Inl: "py_mul a b = Inl e \<Longrightarrow> e = TypeError"
  by (cases "(a, b)" rule: py_mul.cases) auto

lemma nansum_Inl: "nansum cs = Inl e \<Longrightarrow> e = TypeError"
  by (induction cs rule: nansum.induct) (auto split: sum.splits)

lemma column_Inl: "column df k = Inl e \<Longrightarrow> e = KeyError"
  by (auto simp: column_def dest!: map_result_Inl getitem_Inl)

lemma rate_lambda_Inl: "rate_lambda r = Inl e \<Longrightarrow> e = KeyError \<or> e = TypeError"
  unfolding rate_lambda_def
  by (auto split: sum.splits if_splits dest: getitem_Inl py_truediv_Inl)

lemma rated_cost_pool_Inl:
  assumes "rated_cost_pool lib cost_df event_df = Inl e"
  shows "(e = MissingColumnsError \<and> \<not> required_cols \<subseteq> set (columns cost_df)) \<or>
         (required_cols \<subseteq> set (columns cost_df) \<and> (e = IndexError \<or> e = KeyError \<or> e = TypeError))"
  using assms unfolding rated_cost_pool_def total_row_def Let_def
  by (auto split: if_splits sum.splits dest: column_Inl dest!: map_result_Inl rate_lambda_Inl)

lemma alloc_cell_Inl: "alloc_cell fr act = Inl e \<Longrightarrow> e = KeyError \<or> e = TypeError"
  unfolding alloc_cell_def
  by (auto split: sum.splits dest: getitem_Inl py_mul_Inl)

lemma alloc_loop_Inl: "alloc_loop fr acts rc = Inl e \<Longrightarrow> e = KeyError \<or> e = TypeError"
  by (induction acts arbitrary: rc) (auto split: sum.splits dest: getitem_Inl alloc_cell_Inl)

lemma flight_costs_Inl:
  "flight_costs lib cost fr = Inl e \<Longrightarrow> e = IndexError \<or> e = KeyError \<or> e = TypeError"
  unfolding flight_costs_def
  by (auto split: list.splits dest: alloc_loop_Inl)

lemma row_total_Inl: "row_total r = Inl e \<Longrightarrow> e = TypeError"
  unfolding row_total_def by (auto split: sum.splits dest: nansum_Inl)

lemma allocation_matrix_Inl:
  "allocation_matrix lib cost event_df = Inl e \<Longrightarrow> e = IndexError \<or> e = KeyError \<or> e = TypeError"
  unfolding allocation_matrix_def allocate_def
  by (auto split: sum.splits if_splits dest!: map_result_Inl dest: flight_costs_Inl row_total_Inl)

lemma sum_of_columns_Inl: "sum_of_columns acts r = Inl e \<Longrightarrow> e = KeyError \<or> e = TypeError"
  unfolding sum_of_columns_def
  by (auto split: sum.splits dest!: map_result_Inl dest: getitem_Inl nansum_Inl)

lemma summary_loop_Inl:
  "summary_loop lib tys as costs ts summ = Inl e \<Longrightarrow> e = KeyError \<or> e = TypeError"
  by (induction ts arbitrary: summ)
     (auto split: sum.splits dest!: map_result_Inl dest: sum_of_columns_Inl)

lemma summary_table_Inl:
  "summary_table lib cost costs = Inl e \<Longrightarrow> e = KeyError \<or> e = TypeError"
  unfolding summary_table_def
  by (auto split: sum.splits dest: column_Inl summary_loop_Inl)

lemma time_periods_Inl:
  "time_periods lib event_df = Inl e \<Longrightarrow> e = IndexError \<or> e = KeyError"
  unfolding time_periods_def classify_def first_column_str_def
  by (auto split: sum.splits list.splits dest: column_Inl dest!: map_result_Inl)

lemma pipeline_Inl:
  assumes "pipeline lib cost_df event_df = Inl e"
  shows "(e = MissingColumnsError \<and> \<not> required_cols \<subseteq> set (columns cost_df)) \<or>
         (required_cols \<subseteq> set (columns cost_df) \<and> (e = IndexError \<or> e = KeyError \<or> e = TypeError))"
proof (cases "rated_cost_pool lib cost_df event_df")
  case (Inl x)
  with assms have "x = e" by (simp add: pipeline_def)
  with Inl show ?thesis using rated_cost_pool_Inl by blast
next
  case (Inr cost)
  then have req: "required_cols \<subseteq> set (columns cost_df)"
    by (auto simp: rated_cost_pool_def split: if_splits)
  from assms Inr have "e = IndexError \<or> e = KeyError \<or> e = TypeError"
    unfolding pipeline_def
    by (auto split: sum.splits dest: allocation_matrix_Inl summary_table_Inl time_periods_Inl)
  with req show ?thesis by blast
qed

lemma set_column_nth:
  "length vs = length df \<Longrightarrow> i < length df \<Longrightarrow> set_column df k vs ! i = AList.update k (vs ! i) (df ! i)"
  by (simp add: set_column_def)

lemma set_column_length:
  "length vs = length df \<Longrightarrow> length (set_column df k vs) = length df"
  by (simp add: set_column_def)

lemma getitem_update:
  "getitem (AList.update k v r) k' = (if k' = k then Inr v else getitem r k')"
  by (simp add: getitem_def update_conv')

lemma column_length: "column df k = Inr vs \<Longrightarrow> length vs = length df"
  by (simp add: column_def map_result_length)

lemma column_nth: "column df k = Inr vs \<Longrightarrow> i < length df \<Longrightarrow> getitem (df ! i) k = Inr (vs ! i)"
  unfolding column_def by (drule map_result_nth) auto

text \<open>driver units dictionary\<close>

lemma driver_units_fold:
  "map_of (foldl (\<lambda>d (k, v). if notna v then AList.update (strip k) v d else d) d0 items) =
   map_of (rev (map (\<lambda>(k, v). (strip k, v)) (filter (\<lambda>(k, v). notna v) items)) @ d0)"
proof (induction items arbitrary: d0)
  case Nil
  show ?case by simp
next
  case (Cons x items)
  obtain k v where x: "x = (k, v)" by (cases x)
  show ?case
    by (simp add: x Cons.IH update_conv' map_add_def fun_eq_iff split: option.splits)
qed

lemma map_of_driver_units:
  "map_of (driver_units items) =
   map_of (rev (map (\<lambda>(k, v). (strip k, v)) (filter (\<lambda>(k, v). notna v) items)))"
  unfolding driver_units_def by (simp add: driver_units_fold)

lemma driver_units_SomeD:
  assumes "map_of (driver_units items) k = Some v"
  shows "\<exists>c. (c, v) \<in> set items \<and> notna v \<and> strip c = k"
proof -
  from assms have "(k, v) \<in> set (rev (map (\<lambda>(k, v). (strip k, v)) (filter (\<lambda>(k, v). notna v) items)))"
    unfolding map_of_driver_units by (rule map_of_SomeD)
  then show ?thesis by auto
qed

lemma driver_units_None:
  assumes "\<forall>(c, v) \<in> set items. strip c = k \<longrightarrow> isna v"
  shows "map_of (driver_units items) k = None"
proof (cases "map_of (driver_units items) k")
  case None
  then show ?thesis .
next
  case (Some v)
  from driver_units_SomeD[OF this] assms show ?thesis by (auto simp: notna_def)
qed

lemma map_fst_rev_distinct: "distinct (map fst (rev xs)) = distinct (map fst xs)"
  by (simp add: rev_map[symmetric])

lemma driver_units_Some:
  assumes "distinct (map (strip \<circ> fst) items)" and "(c, v) \<in> set items" and "notna v"
  shows "map_of (driver_units items) (strip c) = Some v"
proof -
  let ?g = "map (\<lambda>(k, v). (strip k, v)) (filter (\<lambda>(k, v). notna v) items)"
  have "map fst ?g = map (strip \<circ> fst) (filter (\<lambda>(k, v). notna v) items)"
    by (auto simp: case_prod_beta)
  moreover from assms(1) have "distinct (map (strip \<circ> fst) (filter (\<lambda>(k, v). notna v) items))"
    by (rule distinct_map_filter)
  ultimately have "distinct (map fst (rev ?g))"
    by (simp only: map_fst_rev_distinct)
  moreover from assms(2,3) have "(strip c, v) \<in> set (rev ?g)" by force
  ultimately have "map_of (rev ?g) (strip c) = Some v" by (rule map_of_is_SomeI)
  then show ?thesis by (simp add: map_of_driver_units)
qed

lemma total_items_set:
  "(k, v) \<in> set (total_items event_df tr) \<longleftrightarrow> k \<in> set (numeric_cols event_df) \<and> map_of tr k = Some v"
  unfolding total_items_def by (auto split: option.splits)

lemma items_keys:
  "map fst (concat (map (\<lambda>k. case m k of Some v \<Rightarrow> [(k, v)] | None \<Rightarrow> []) ks)) =
   filter (\<lambda>k. m k \<noteq> None) ks"
  by (induction ks) (auto split: option.splits)

lemma total_items_keys:
  "map fst (total_items event_df tr) = filter (\<lambda>k. map_of tr k \<noteq> None) (numeric_cols event_df)"
  unfolding total_items_def by (rule items_keys)

lemma total_row_in_iterrows:
  "total_row event_df = Inr tr \<Longrightarrow> tr \<in> set (iterrows event_df)"
  unfolding total_row_def iterrows_def
  by (auto split: if_splits)

lemma numeric_total:
  assumes "total_row event_df = Inr tr" and "k \<in> set (numeric_cols event_df)"
  shows "\<exists>v. map_of tr k = Some v \<and> is_number v"
proof -
  from assms(2) have "list_all (\<lambda>r. case map_of r k of Some v \<Rightarrow> is_number v | None \<Rightarrow> False) (iterrows event_df)"
    by (simp add: numeric_cols_def)
  with total_row_in_iterrows[OF assms(1)] show ?thesis
    by (auto simp: list_all_iff split: option.splits)
qed

lemma number_notna: "is_number v \<Longrightarrow> notna v \<Longrightarrow> \<exists>x. v = Num x"
  by (cases v) (auto simp: notna_def)

lemma driver_units_values:
  assumes "total_row event_df = Inr tr"
    and "map_of (driver_units (total_items event_df tr)) k = Some v"
  shows "\<exists>x. v = Num x"
proof -
  from driver_units_SomeD[OF assms(2)] obtain c where
    c: "(c, v) \<in> set (total_items event_df tr)" and nn: "notna v" by blast
  from c have "c \<in> set (numeric_cols event_df)" "map_of tr c = Some v"
    by (simp_all add: total_items_set)
  with numeric_total[OF assms(1)] have "is_number v" by fastforce
  from this nn show ?thesis by (rule number_notna)
qed

lemma get_driver_units_Num:
  assumes "total_row event_df = Inr tr"
  shows "\<exists>x. get_driver_units lib (driver_units (total_items event_df tr)) d = Num x"
  unfolding get_driver_units_def
  using driver_units_values[OF assms]
  by (auto split: option.splits)

lemmas example_defs =
  example_lib_def example_cost_def example_events_def example_rated_def example_matrix_def
  example_summary_def example_outputs_def example_activities_def

lemmas stage_defs =
  required_cols_def total_row_def total_items_def numeric_cols_def iterrows_def
  driver_units_def notna_def strip_def isspace_def column_def getitem_def set_column_def
  get_driver_units_def rate_lambda_def events_clean_def flight_costs_def alloc_cell_def
  series_get_def row_total_def unique_def acts_of_type_def py_eq_def sum_of_columns_def
  type_label_def to_datetime_def coerce_def allocate_def first_column_str_def classify_def

lemma example_rated_cost_pool:
  "rated_cost_pool example_lib example_cost example_events = Inr example_rated"
  by (simp add: rated_cost_pool_def example_defs stage_defs)

lemma example_allocation_matrix:
  "allocation_matrix example_lib example_rated example_events = Inr example_matrix"
  by (simp add: allocation_matrix_def example_defs stage_defs)

lemma example_summary_table:
  "summary_table example_lib example_rated example_matrix = Inr example_summary"
  by (simp add: summary_table_def example_defs stage_defs)

lemma example_time_periods:
  "time_periods example_lib example_events = Inr [''Morning'', ''Unknown'']"
  by (simp add: time_periods_def example_defs stage_defs)

lemma example_pipeline:
  "pipeline example_lib example_cost example_events = Inr example_outputs"
  by (simp add: pipeline_def example_rated_cost_pool example_allocation_matrix
      example_summary_table example_time_periods example_outputs_def)

lemma rated_cost_pool_row:
  assumes "rated_cost_pool lib cost_df event_df = Inr rated"
  shows "length rated = length (iterrows cost_df)"
    and "i < length rated \<Longrightarrow>
      \<exists>tr d rate. total_row event_df = Inr tr \<and>
        getitem (iterrows cost_df ! i) ''Driver'' = Inr d \<and>
        rate_lambda (AList.update ''Driver_Units''
            (get_driver_units lib (driver_units (total_items event_df tr)) d)
            (iterrows cost_df ! i)) = Inr rate \<and>
        rated ! i = AList.update ''RatePerDriverUnit'' rate
          (AList.update ''Driver_Units''
            (get_driver_units lib (driver_units (total_items event_df tr)) d)
            (iterrows cost_df ! i))"
proof -
  from assms obtain tr drivers rates where
    tr: "total_row event_df = Inr tr" and
    drivers: "column (iterrows cost_df) ''Driver'' = Inr drivers" and
    rates: "map_result rate_lambda (set_column (iterrows cost_df) ''Driver_Units''
              (map (get_driver_units lib (driver_units (total_items event_df tr))) drivers)) = Inr rates" and
    rated: "rated = set_column (set_column (iterrows cost_df) ''Driver_Units''
              (map (get_driver_units lib (driver_units (total_items event_df tr))) drivers))
              ''RatePerDriverUnit'' rates"
    unfolding rated_cost_pool_def Let_def
    by (auto split: if_splits sum.splits)
  let ?du = "driver_units (total_items event_df tr)"
  let ?cost1 = "set_column (iterrows cost_df) ''Driver_Units'' (map (get_driver_units lib ?du) drivers)"
  have ld: "length drivers = length (iterrows cost_df)"
    using drivers by (rule column_length)
  have l1: "length ?cost1 = length (iterrows cost_df)"
    by (simp add: set_column_length ld)
  have lr: "length rates = length ?cost1"
    using rates by (rule map_result_length)
  show len: "length rated = length (iterrows cost_df)"
    by (simp add: rated set_column_length lr l1)
  assume i: "i < length rated"
  then have i0: "i < length (iterrows cost_df)" by (simp add: len)
  have d: "getitem (iterrows cost_df ! i) ''Driver'' = Inr (drivers ! i)"
    using drivers i0 by (rule column_nth)
  have c1: "?cost1 ! i = AList.update ''Driver_Units'' (get_driver_units lib ?du (drivers ! i)) (iterrows cost_df ! i)"
    using i0 ld by (simp add: set_column_nth)
  have r: "rate_lambda (?cost1 ! i) = Inr (rates ! i)"
    using rates i0 l1 by (auto dest: map_result_nth)
  have "rated ! i = AList.update ''RatePerDriverUnit'' (rates ! i) (?cost1 ! i)"
    unfolding rated using i0 l1 lr by (simp add: set_column_nth)
  with tr d c1 r show "\<exists>tr d rate. total_row event_df = Inr tr \<and>
        getitem (iterrows cost_df ! i) ''Driver'' = Inr d \<and>
        rate_lambda (AList.update ''Driver_Units''
            (get_driver_units lib (driver_units (total_items event_df tr)) d)
            (iterrows cost_df ! i)) = Inr rate \<and>
        rated ! i = AList.update ''RatePerDriverUnit'' rate
          (AList.update ''Driver_Units''
            (get_driver_units lib (driver_units (total_items event_df tr)) d)
            (iterrows cost_df ! i))"
    by auto
qed

lemma rate_lambda_update:
  "rate_lambda (AList.update ''Driver_Units'' (Num u) r) = Inr rate \<Longrightarrow>
     (u = 0 \<longrightarrow> rate = Num 0) \<and>
     (u \<noteq> 0 \<longrightarrow> (\<exists>c. getitem r ''Total_Cost'' = Inr c \<and> py_truediv c (Num u) = Inr rate))"
  unfolding rate_lambda_def
  by (auto simp: getitem_update split: sum.splits if_splits)

lemma py_truediv_Num: "py_truediv (Num x) (Num u) = Inr rate \<Longrightarrow> u \<noteq> 0 \<Longrightarrow> rate = Num (x / u)"
  by simp

section \<open>Rate per driver unit\<close>

text \<open>
  Claim C1. Lines 45-71 never stop with a division error. When they produce the rated
  cost pool, every row has a number \<open>u\<close> as Driver_Units; its RatePerDriverUnit is 0 when
  \<open>u\<close> is 0, and otherwise it is the quotient of the row's Total_Cost by \<open>u\<close>, which for
  a numeric Total_Cost \<open>x\<close> is the number \<open>x / u\<close>.
\<close>

theorem rate_per_driver_unit:
  "rated_cost_pool lib cost_df event_df \<noteq> Inl ZeroDivisionError \<and>
   (\<forall>rated r. rated_cost_pool lib cost_df event_df = Inr rated \<and> r \<in> set rated \<longrightarrow>
      (\<exists>u rate. getitem r ''Driver_Units'' = Inr (Num u) \<and>
                getitem r ''RatePerDriverUnit'' = Inr rate \<and>
                (u = 0 \<longrightarrow> rate = Num 0) \<and>
                (u \<noteq> 0 \<longrightarrow>
                   (\<exists>c. getitem r ''Total_Cost'' = Inr c \<and> py_truediv c (Num u) = Inr rate \<and>
                        (\<forall>x. c = Num x \<longrightarrow> rate = Num (x / u))))))"
proof (intro conjI allI impI)
  show "rated_cost_pool lib cost_df event_df \<noteq> Inl ZeroDivisionError"
    using rated_cost_pool_Inl[of lib cost_df event_df ZeroDivisionError] by auto
next
  fix rated r
  assume a: "rated_cost_pool lib cost_df event_df = Inr rated \<and> r \<in> set rated"
  then obtain i where i: "i < length rated" and r: "r = rated ! i"
    by (auto simp: in_set_conv_nth)
  from rated_cost_pool_row(2)[OF conjunct1[OF a] i] obtain tr d rate where
    tr: "total_row event_df = Inr tr" and
    rl: "rate_lambda (AList.update ''Driver_Units''
            (get_driver_units lib (driver_units (total_items event_df tr)) d)
            (iterrows cost_df ! i)) = Inr rate" and
    ri: "rated ! i = AList.update ''RatePerDriverUnit'' rate
          (AList.update ''Driver_Units''
            (get_driver_units lib (driver_units (total_items event_df tr)) d)
            (iterrows cost_df ! i))"
    by blast
  from get_driver_units_Num[OF tr] obtain u where
    u: "get_driver_units lib (driver_units (total_items event_df tr)) d = Num u" by blast
  from rate_lambda_update[OF rl[unfolded u]]
  have z: "u = 0 \<longrightarrow> rate = Num 0"
    and nz: "u \<noteq> 0 \<longrightarrow> (\<exists>c. getitem (iterrows cost_df ! i) ''Total_Cost'' = Inr c \<and> py_truediv c (Num u) = Inr rate)"
    by blast+
  have g1: "getitem r ''Driver_Units'' = Inr (Num u)"
    by (simp add: r ri u getitem_update)
  have g2: "getitem r ''RatePerDriverUnit'' = Inr rate"
    by (simp add: r ri getitem_update)
  have g3: "getitem r ''Total_Cost'' = getitem (iterrows cost_df ! i) ''Total_Cost''"
    by (simp add: r ri getitem_update)
  show "\<exists>u rate. getitem r ''Driver_Units'' = Inr (Num u) \<and>
                getitem r ''RatePerDriverUnit'' = Inr rate \<and>
                (u = 0 \<longrightarrow> rate = Num 0) \<and>
                (u \<noteq> 0 \<longrightarrow>
                   (\<exists>c. getitem r ''Total_Cost'' = Inr c \<and> py_truediv c (Num u) = Inr rate \<and>
                        (\<forall>x. c = Num x \<longrightarrow> rate = Num (x / u))))"
    using g1 g2 g3 z nz by (intro exI[of _ u] exI[of _ rate]) auto
qed

theorem rate_per_driver_unit_witness:
  "rated_cost_pool example_lib example_cost example_events = Inr example_rated \<and>
   example_rated ! 0 \<in> set example_rated \<and>
   getitem (example_rated ! 0) ''Driver_Units'' = Inr (Num 500) \<and>
   getitem (example_rated ! 0) ''Total_Cost'' = Inr (Num 1000) \<and>
   getitem (example_rated ! 0) ''RatePerDriverUnit'' = Inr (Num (1000 / 500)) \<and>
   (\<exists>u rate. getitem (example_rated ! 0) ''Driver_Units'' = Inr (Num u) \<and>
                getitem (example_rated ! 0) ''RatePerDriverUnit'' = Inr rate \<and>
                (u = 0 \<longrightarrow> rate = Num 0) \<and>
                (u \<noteq> 0 \<longrightarrow>
                   (\<exists>c. getitem (example_rated ! 0) ''Total_Cost'' = Inr c \<and>
                        py_truediv c (Num u) = Inr rate \<and>
                        (\<forall>x. c = Num x \<longrightarrow> rate = Num (x / u)))))"
proof -
  have run: "rated_cost_pool example_lib example_cost example_events = Inr example_rated"
    by (rule example_rated_cost_pool)
  have m0: "example_rated ! 0 \<in> set example_rated"
    by (simp add: example_rated_def)
  have ev: "getitem (example_rated ! 0) ''Driver_Units'' = Inr (Num 500)"
    "getitem (example_rated ! 0) ''Total_Cost'' = Inr (Num 1000)"
    "getitem (example_rated ! 0) ''RatePerDriverUnit'' = Inr (Num (1000 / 500))"
    by (simp_all add: example_rated_def getitem_def)
  note inst = rate_per_driver_unit[of example_lib example_cost example_events,
      THEN conjunct2, rule_format, of example_rated "example_rated ! 0"]
  have "\<exists>u rate. getitem (example_rated ! 0) ''Driver_Units'' = Inr (Num u) \<and>
                getitem (example_rated ! 0) ''RatePerDriverUnit'' = Inr rate \<and>
                (u = 0 \<longrightarrow> rate = Num 0) \<and>
                (u \<noteq> 0 \<longrightarrow>
                   (\<exists>c. getitem (example_rated ! 0) ''Total_Cost'' = Inr c \<and>
                        py_truediv c (Num u) = Inr rate \<and>
                        (\<forall>x. c = Num x \<longrightarrow> rate = Num (x / u))))"
    by (rule inst) (rule conjI[OF run m0])
  with run m0 ev show ?thesis by (intro conjI)
qed

section \<open>The driver-units index\<close>

lemma total_items_distinct:
  assumes "distinct (map strip (numeric_cols event_df))"
  shows "distinct (map (strip \<circ> fst) (total_items event_df tr))"
proof -
  have "map (strip \<circ> fst) (total_items event_df tr) =
        map strip (filter (\<lambda>k. map_of tr k \<noteq> None) (numeric_cols event_df))"
    by (simp only: map_map[symmetric] total_items_keys)
  with assms show ?thesis by (simp add: distinct_map_filter)
qed

lemma driver_units_of_column:
  assumes tr: "total_row event_df = Inr tr"
    and dist: "distinct (map strip (numeric_cols event_df))"
    and c: "c \<in> set (numeric_cols event_df)"
  shows "\<exists>v. map_of tr c = Some v \<and>
           map_of (driver_units (total_items event_df tr)) (strip c) = (if isna v then None else Some v)"
proof -
  from numeric_total[OF tr c] obtain v where v: "map_of tr c = Some v" by blast
  have mem: "(c, v) \<in> set (total_items event_df tr)"
    using c v by (simp add: total_items_set)
  show ?thesis
  proof (cases "isna v")
    case False
    then have "notna v" by (simp add: notna_def)
    from driver_units_Some[OF total_items_distinct[OF dist] mem this] v False
    show ?thesis by simp
  next
    case True
    have "\<forall>(c', v') \<in> set (total_items event_df tr). strip c' = strip c \<longrightarrow> isna v'"
    proof (clarify)
      fix c' v'
      assume m: "(c', v') \<in> set (total_items event_df tr)" and s: "strip c' = strip c"
      from m have c': "c' \<in> set (numeric_cols event_df)" and v': "map_of tr c' = Some v'"
        by (simp_all add: total_items_set)
      from dist c c' s have "c' = c"
        by (simp add: distinct_map inj_on_def)
      with v v' True show "isna v'" by simp
    qed
    from driver_units_None[OF this] v True show ?thesis by simp
  qed
qed

lemma driver_units_no_column:
  assumes "k \<notin> strip ` set (numeric_cols event_df)"
  shows "map_of (driver_units (total_items event_df tr)) k = None"
proof (rule driver_units_None, clarify)
  fix c v
  assume "(c, v) \<in> set (total_items event_df tr)" and "k = strip c"
  with assms show "isna v" by (auto simp: total_items_set)
qed

text \<open>
  Claim C5. Let the event table have a last row and let the trimmed names of its numeric
  columns be different from each other. Then the index maps the trimmed name of each
  numeric column to the column's value in the last row, has no entry where that value is
  missing, and has no other entry. The lookup is a total function with a number as its
  result: 0 for a missing driver name, 0 for a name that after \<^verbatim>\<open>str\<close> and trimming is
  not in the index, and the entry otherwise.
\<close>

theorem driver_units_index:
  assumes "total_row event_df = Inr tr"
    and "distinct (map strip (numeric_cols event_df))"
  shows "(\<forall>c \<in> set (numeric_cols event_df). \<exists>v. map_of tr c = Some v \<and>
            map_of (driver_units (total_items event_df tr)) (strip c) =
              (if isna v then None else Some v)) \<and>
         (\<forall>k. k \<notin> strip ` set (numeric_cols event_df) \<longrightarrow>
            map_of (driver_units (total_items event_df tr)) k = None) \<and>
         get_driver_units lib (driver_units (total_items event_df tr)) NaN = Num 0 \<and>
         (\<forall>d. map_of (driver_units (total_items event_df tr)) (strip (py_str (fmt lib) d)) = None \<longrightarrow>
            get_driver_units lib (driver_units (total_items event_df tr)) d = Num 0) \<and>
         (\<forall>d v. \<not> isna d \<and>
            map_of (driver_units (total_items event_df tr)) (strip (py_str (fmt lib) d)) = Some v \<longrightarrow>
            get_driver_units lib (driver_units (total_items event_df tr)) d = v) \<and>
         (\<forall>d. \<exists>x. get_driver_units lib (driver_units (total_items event_df tr)) d = Num x)"
proof (intro conjI ballI allI impI)
  fix c assume "c \<in> set (numeric_cols event_df)"
  with assms show "\<exists>v. map_of tr c = Some v \<and>
            map_of (driver_units (total_items event_df tr)) (strip c) =
              (if isna v then None else Some v)"
    by (rule driver_units_of_column)
next
  fix k assume "k \<notin> strip ` set (numeric_cols event_df)"
  then show "map_of (driver_units (total_items event_df tr)) k = None"
    by (rule driver_units_no_column)
next
  show "get_driver_units lib (driver_units (total_items event_df tr)) NaN = Num 0"
    by (simp add: get_driver_units_def)
next
  fix d assume "map_of (driver_units (total_items event_df tr)) (strip (py_str (fmt lib) d)) = None"
  then show "get_driver_units lib (driver_units (total_items event_df tr)) d = Num 0"
    by (simp add: get_driver_units_def)
next
  fix d v assume "\<not> isna d \<and>
     map_of (driver_units (total_items event_df tr)) (strip (py_str (fmt lib) d)) = Some v"
  then show "get_driver_units lib (driver_units (total_items event_df tr)) d = v"
    by (simp add: get_driver_units_def)
next
  fix d show "\<exists>x. get_driver_units lib (driver_units (total_items event_df tr)) d = Num x"
    using assms(1) by (rule get_driver_units_Num)
qed

lemma example_total_row_eval: "total_row example_events = Inr example_total_row"
  by (simp add: total_row_def example_events_def example_total_row_def)

lemma example_numeric_cols: "numeric_cols example_events = [''Distance'', ''Meals'', ''Hours'']"
  by (simp add: numeric_cols_def iterrows_def example_events_def)

lemma example_strip: "strip ''Distance'' = ''Distance''" "strip ''Meals'' = ''Meals''"
  "strip ''Hours'' = ''Hours''"
  "strip '' Meals'' = ''Meals''" "strip ''Seats'' = ''Seats''"
  by (simp_all add: strip_def isspace_def)

theorem driver_units_index_witness:
  "total_row example_events = Inr example_total_row \<and>
   distinct (map strip (numeric_cols example_events)) \<and>
   ''Meals'' \<in> set (numeric_cols example_events) \<and>
   ''Seats'' \<notin> strip ` set (numeric_cols example_events) \<and>
   map_of (driver_units (total_items example_events example_total_row)) (strip ''Meals'') =
     Some (Num 40) \<and>
   get_driver_units example_lib (driver_units (total_items example_events example_total_row))
     (Str '' Meals'') = Num 40 \<and>
   get_driver_units example_lib (driver_units (total_items example_events example_total_row))
     (Str ''Seats'') = Num 0 \<and>
   get_driver_units example_lib (driver_units (total_items example_events example_total_row))
     NaN = Num 0"
proof -
  let ?tr = "example_total_row"
  let ?du = "driver_units (total_items example_events ?tr)"
  have tr: "total_row example_events = Inr ?tr" by (rule example_total_row_eval)
  have dist: "distinct (map strip (numeric_cols example_events))"
    by (simp add: example_numeric_cols example_strip)
  have meals: "''Meals'' \<in> set (numeric_cols example_events)"
    by (simp add: example_numeric_cols)
  have seats: "''Seats'' \<notin> strip ` set (numeric_cols example_events)"
    by (simp add: example_numeric_cols example_strip)
  note idx = driver_units_index[OF tr dist, of example_lib]
  from idx meals have "\<exists>v. map_of ?tr ''Meals'' = Some v \<and>
      map_of ?du (strip ''Meals'') = (if isna v then None else Some v)"
    by blast
  then have e1: "map_of ?du (strip ''Meals'') = Some (Num 40)"
    by (simp add: example_total_row_def)
  then have "map_of ?du (strip (py_str (fmt example_lib) (Str '' Meals''))) = Some (Num 40)"
    by (simp add: example_strip)
  with idx have e2: "get_driver_units example_lib ?du (Str '' Meals'') = Num 40"
    by (metis isna.simps(3))
  from idx seats have "map_of ?du ''Seats'' = None" by blast
  then have "map_of ?du (strip (py_str (fmt example_lib) (Str ''Seats''))) = None"
    by (simp add: example_strip)
  with idx have e3: "get_driver_units example_lib ?du (Str ''Seats'') = Num 0"
    by blast
  from idx have e4: "get_driver_units example_lib ?du NaN = Num 0" by blast
  from tr dist meals seats e1 e2 e3 e4 show ?thesis by (intro conjI)
qed

section \<open>Time period\<close>

lemma column_set_column:
  assumes "k' \<noteq> k" and "length vs = length df"
  shows "column (set_column df k vs) k' = column df k'"
  using assms(2)
proof (induction df arbitrary: vs)
  case Nil
  then show ?case by (simp add: column_def set_column_def)
next
  case (Cons r df)
  then obtain v vs' where vs: "vs = v # vs'" and l: "length vs' = length df"
    by (cases vs) auto
  from Cons.IH[OF l] assms(1) show ?case
    by (simp add: vs column_def set_column_def getitem_update split: sum.splits)
qed

lemma time_periods_nth:
  assumes "time_periods lib event_df = Inr periods"
  shows "\<exists>departure. column (events_clean event_df) ''Departure Time'' = Inr departure \<and>
           length departure = length (events_clean event_df) \<and>
           periods = map (\<lambda>c. get_time_period (coerce lib departure c)) departure"
proof -
  from assms obtain names departure where
    n: "first_column_str lib (events_clean event_df) = Inr names" and
    d: "column (set_column (events_clean event_df) ''Flight'' names) ''Departure Time'' = Inr departure" and
    p: "periods = map get_time_period (to_datetime lib departure)"
    by (auto simp: time_periods_def classify_def split: sum.splits)
  have "length names = length (events_clean event_df)"
    using n unfolding first_column_str_def by (rule map_result_length)
  from column_set_column[OF _ this, of "''Departure Time''" "''Flight''"] d
  have "column (events_clean event_df) ''Departure Time'' = Inr departure" by simp
  with p column_length[OF this] show ?thesis
    by (simp add: to_datetime_def)
qed

text \<open>
  Claim C6. When the time periods are computed there is one for each flight row, got
  from the row's Departure Time cell after \<^verbatim>\<open>pd.to_datetime\<close> with coercion: Unknown
  when the cell is blank, Unknown when it is not parsed, and for a parsed timestamp
  Morning for the hours 5 to 11, Afternoon for 12 to 16, Evening for 17 to 20 and Night
  for every other hour.
\<close>

theorem time_period_classification:
  assumes "time_periods lib event_df = Inr periods" and "i < length periods"
  shows "\<exists>departure. column (events_clean event_df) ''Departure Time'' = Inr departure \<and>
           length periods = length (events_clean event_df) \<and>
           getitem (events_clean event_df ! i) ''Departure Time'' = Inr (departure ! i) \<and>
           (departure ! i = NaN \<longrightarrow> periods ! i = ''Unknown'') \<and>
           (coerce lib departure (departure ! i) = None \<longrightarrow> periods ! i = ''Unknown'') \<and>
           (\<forall>t. coerce lib departure (departure ! i) = Some t \<longrightarrow>
              (5 \<le> hour t \<and> hour t < 12 \<longrightarrow> periods ! i = ''Morning'') \<and>
              (12 \<le> hour t \<and> hour t < 17 \<longrightarrow> periods ! i = ''Afternoon'') \<and>
              (17 \<le> hour t \<and> hour t < 21 \<longrightarrow> periods ! i = ''Evening'') \<and>
              (hour t < 5 \<or> 21 \<le> hour t \<longrightarrow> periods ! i = ''Night''))"
proof -
  from time_periods_nth[OF assms(1)] obtain departure where
    col: "column (events_clean event_df) ''Departure Time'' = Inr departure" and
    len: "length departure = length (events_clean event_df)" and
    per: "periods = map (\<lambda>c. get_time_period (coerce lib departure c)) departure"
    by blast
  from per assms(2) have i: "i < length departure" by simp
  with per have p: "periods ! i = get_time_period (coerce lib departure (departure ! i))"
    by simp
  have g: "getitem (events_clean event_df ! i) ''Departure Time'' = Inr (departure ! i)"
    using col i len by (simp add: column_nth)
  have n: "departure ! i = NaN \<longrightarrow> periods ! i = ''Unknown''"
    by (simp add: p coerce_def)
  have u: "coerce lib departure (departure ! i) = None \<longrightarrow> periods ! i = ''Unknown''"
    by (simp add: p)
  have c: "\<forall>t. coerce lib departure (departure ! i) = Some t \<longrightarrow>
              (5 \<le> hour t \<and> hour t < 12 \<longrightarrow> periods ! i = ''Morning'') \<and>
              (12 \<le> hour t \<and> hour t < 17 \<longrightarrow> periods ! i = ''Afternoon'') \<and>
              (17 \<le> hour t \<and> hour t < 21 \<longrightarrow> periods ! i = ''Evening'') \<and>
              (hour t < 5 \<or> 21 \<le> hour t \<longrightarrow> periods ! i = ''Night'')"
    by (simp add: p)
  from col len per g n u c show ?thesis by (intro exI[of _ departure] conjI) simp_all
qed

theorem time_period_classification_witness:
  "time_periods example_lib example_events = Inr [''Morning'', ''Unknown''] \<and>
   (0::nat) < length [''Morning'', ''Unknown''] \<and>
   (\<exists>departure. column (events_clean example_events) ''Departure Time'' = Inr departure \<and>
      coerce example_lib departure (departure ! 0) = Some (Timestamp 2024 1 1 6 30 0) \<and>
      5 \<le> hour (Timestamp 2024 1 1 6 30 0) \<and> hour (Timestamp 2024 1 1 6 30 0) < 12 \<and>
      [''Morning'', ''Unknown''] ! 0 = ''Morning'')"
proof -
  have run: "time_periods example_lib example_events = Inr [''Morning'', ''Unknown'']"
    by (rule example_time_periods)
  have i: "(0::nat) < length [''Morning'', ''Unknown'']" by simp
  from time_period_classification[OF run i] obtain departure where
    col: "column (events_clean example_events) ''Departure Time'' = Inr departure" and
    get: "getitem (events_clean example_events ! 0) ''Departure Time'' = Inr (departure ! 0)" and
    cls: "\<forall>t. coerce example_lib departure (departure ! 0) = Some t \<longrightarrow>
              (5 \<le> hour t \<and> hour t < 12 \<longrightarrow> [''Morning'', ''Unknown''] ! 0 = ''Morning'')"
    by blast
  have "getitem (events_clean example_events ! 0) ''Departure Time'' =
          Inr (Time (Timestamp 2024 1 1 6 30 0))"
    by (simp add: events_clean_def iterrows_def example_events_def getitem_def)
  with get have d0: "departure ! 0 = Time (Timestamp 2024 1 1 6 30 0)" by simp
  then have co: "coerce example_lib departure (departure ! 0) = Some (Timestamp 2024 1 1 6 30 0)"
    by (simp add: coerce_def)
  have h: "5 \<le> hour (Timestamp 2024 1 1 6 30 0) \<and> hour (Timestamp 2024 1 1 6 30 0) < 12"
    by simp
  from cls co h have "[''Morning'', ''Unknown''] ! 0 = ''Morning''" by blast
  with run i col co h show ?thesis by blast
qed

section \<open>Structure of the allocation matrix\<close>

lemma update_fresh: "k \<notin> fst ` set al \<Longrightarrow> AList.update k v al = al @ [(k, v)]"
  by (induction al) auto

lemma delete_fresh: "k \<notin> fst ` set al \<Longrightarrow> AList.delete k al = al"
  by (induction al) auto

lemma alloc_loop_distinct:
  assumes "alloc_loop fr cost rc = Inr rc'"
    and "column cost ''Activity'' = Inr as"
    and "distinct as" and "set as \<inter> fst ` set rc = {}"
  shows "\<exists>vs. map_result (alloc_cell fr) cost = Inr vs \<and> rc' = rc @ zip as vs"
  using assms
proof (induction cost arbitrary: rc as)
  case Nil
  then show ?case by (simp add: column_def)
next
  case (Cons act cost)
  from Cons.prems(2) obtain a as' where
    as: "as = a # as'" and a: "getitem act ''Activity'' = Inr a" and
    as': "column cost ''Activity'' = Inr as'"
    by (auto simp: column_def split: sum.splits)
  from Cons.prems(1) a obtain v where
    v: "alloc_cell fr act = Inr v" and
    rest: "alloc_loop fr cost (AList.update a v rc) = Inr rc'"
    by (auto split: sum.splits)
  from Cons.prems(4) as have fresh: "a \<notin> fst ` set rc" by auto
  then have upd: "AList.update a v rc = rc @ [(a, v)]" by (rule update_fresh)
  from Cons.prems(3,4) as have d: "distinct as'" and
    disj: "set as' \<inter> fst ` set (AList.update a v rc) = {}"
    by (auto simp: upd)
  from Cons.IH[OF rest as' d disj] obtain vs where
    vs: "map_result (alloc_cell fr) cost = Inr vs" and rc': "rc' = AList.update a v rc @ zip as' vs"
    by blast
  show ?case
    by (rule exI[of _ "v # vs"]) (simp add: v vs rc' upd as)
qed

lemma nansum_cell_value: "nansum cs = Inr s \<Longrightarrow> s = sum_list (map cell_value cs)"
  by (induction cs arbitrary: s rule: nansum.induct) (auto split: sum.splits)

lemma nansum_notna:
  "nansum cs = Inr s \<Longrightarrow> s = sum_list (map cell_value (filter notna cs))"
  by (induction cs arbitrary: s rule: nansum.induct) (auto simp: notna_def split: sum.splits)

lemma matrix_labels_distinct:
  assumes "distinct (matrix_labels as)"
  shows "distinct as" and "Str ''Flight'' \<notin> set as" and "Str ''Total_Cost_Per_Flight'' \<notin> set as"
  using assms by (auto simp: matrix_labels_def)

lemma flight_costs_row:
  assumes "flight_costs lib cost fr = Inr row_cost"
    and "column cost ''Activity'' = Inr as" and "distinct (matrix_labels as)"
  shows "\<exists>c name rest vs. fr = (c, name) # rest \<and>
           map_result (alloc_cell fr) cost = Inr vs \<and>
           row_cost = (Str ''Flight'', Str (py_str (fmt lib) name)) # zip as vs"
proof -
  from assms(1) obtain c name rest where
    fr: "fr = (c, name) # rest" and
    loop: "alloc_loop fr cost [(Str ''Flight'', Str (py_str (fmt lib) name))] = Inr row_cost"
    by (auto simp: flight_costs_def split: list.splits)
  have "set as \<inter> fst ` set [(Str ''Flight'', Str (py_str (fmt lib) name))] = {}"
    using matrix_labels_distinct(2)[OF assms(3)] by simp
  from alloc_loop_distinct[OF loop assms(2) matrix_labels_distinct(1)[OF assms(3)] this] fr
  show ?thesis by auto
qed

lemma row_total_row:
  assumes "row_total ((Str ''Flight'', nm) # zip as vs) = Inr tot"
    and "Str ''Flight'' \<notin> set as" and "length vs = length as"
  shows "\<exists>s. nansum vs = Inr s \<and> tot = Num s"
proof -
  have "Str ''Flight'' \<notin> fst ` set (zip as vs)"
    using assms(2) by (auto dest: set_zip_leftD)
  then have "AList.delete (Str ''Flight'') ((Str ''Flight'', nm) # zip as vs) = zip as vs"
    by (simp add: delete_fresh)
  with assms(1,3) show ?thesis
    by (auto simp: row_total_def split: sum.splits)
qed

lemma allocation_matrix_row:
  assumes "allocation_matrix lib cost event_df = Inr costs"
    and "column cost ''Activity'' = Inr as" and "distinct (matrix_labels as)"
  shows "length costs = length (events_clean event_df)"
    and "i < length costs \<Longrightarrow>
      \<exists>c name rest vs s. events_clean event_df ! i = (c, name) # rest \<and>
        map_result (alloc_cell (events_clean event_df ! i)) cost = Inr vs \<and>
        nansum vs = Inr s \<and>
        costs ! i = (Str ''Flight'', Str (py_str (fmt lib) name)) # zip as vs @
                    [(Str ''Total_Cost_Per_Flight'', Num s)]"
proof -
  from assms(1) obtain costs_data totals where
    cd: "map_result (flight_costs lib cost) (events_clean event_df) = Inr costs_data" and
    tot: "map_result row_total costs_data = Inr totals" and
    costs: "costs = set_column costs_data (Str ''Total_Cost_Per_Flight'') totals"
    by (auto simp: allocation_matrix_def allocate_def split: sum.splits if_splits)
  have l1: "length costs_data = length (events_clean event_df)"
    using cd by (rule map_result_length)
  have l2: "length totals = length costs_data"
    using tot by (rule map_result_length)
  show len: "length costs = length (events_clean event_df)"
    by (simp add: costs set_column_length l1 l2)
  assume i: "i < length costs"
  then have i1: "i < length (events_clean event_df)" by (simp add: len)
  have fc: "flight_costs lib cost (events_clean event_df ! i) = Inr (costs_data ! i)"
    using cd i1 by (rule map_result_nth)
  from flight_costs_row[OF fc assms(2,3)] obtain c name rest vs where
    fr: "events_clean event_df ! i = (c, name) # rest" and
    vs: "map_result (alloc_cell (events_clean event_df ! i)) cost = Inr vs" and
    row: "costs_data ! i = (Str ''Flight'', Str (py_str (fmt lib) name)) # zip as vs"
    by blast
  have lv: "length vs = length as"
    using map_result_length[OF vs] column_length[OF assms(2)] by simp
  have "row_total (costs_data ! i) = Inr (totals ! i)"
    using tot i1 l1 by (auto dest: map_result_nth)
  from row_total_row[OF this[unfolded row] matrix_labels_distinct(2)[OF assms(3)] lv]
  obtain s where s: "nansum vs = Inr s" and t: "totals ! i = Num s" by blast
  have "Str ''Total_Cost_Per_Flight'' \<notin> fst ` set (costs_data ! i)"
    using matrix_labels_distinct(3)[OF assms(3)] by (auto simp: row dest: set_zip_leftD)
  then have "AList.update (Str ''Total_Cost_Per_Flight'') (Num s) (costs_data ! i) =
             costs_data ! i @ [(Str ''Total_Cost_Per_Flight'', Num s)]"
    by (rule update_fresh)
  moreover have "costs ! i = AList.update (Str ''Total_Cost_Per_Flight'') (totals ! i) (costs_data ! i)"
    using i1 l1 l2 by (simp add: costs set_column_nth)
  ultimately have "costs ! i = (Str ''Flight'', Str (py_str (fmt lib) name)) # zip as vs @
                    [(Str ''Total_Cost_Per_Flight'', Num s)]"
    by (simp add: t row)
  with fr vs s show "\<exists>c name rest vs s. events_clean event_df ! i = (c, name) # rest \<and>
        map_result (alloc_cell (events_clean event_df ! i)) cost = Inr vs \<and>
        nansum vs = Inr s \<and>
        costs ! i = (Str ''Flight'', Str (py_str (fmt lib) name)) # zip as vs @
                    [(Str ''Total_Cost_Per_Flight'', Num s)]"
    by blast
qed

lemma matrix_row_activity:
  assumes "distinct (matrix_labels as)" and "length vs = length as" and "j < length as"
  shows "getitem ((Str ''Flight'', nm) # zip as vs @ [(Str ''Total_Cost_Per_Flight'', t)]) (as ! j)
           = Inr (vs ! j)"
proof -
  have ne: "as ! j \<noteq> Str ''Flight''"
    using matrix_labels_distinct(2)[OF assms(1)] assms(3) by (metis nth_mem)
  have "map_of (zip as vs) (as ! j) = Some (vs ! j)"
    using assms matrix_labels_distinct(1)[OF assms(1)] by (simp add: map_of_zip_nth)
  with ne show ?thesis
    by (simp add: getitem_def map_add_def)
qed

lemma matrix_row_total:
  assumes "distinct (matrix_labels as)" and "length vs = length as"
  shows "getitem ((Str ''Flight'', nm) # zip as vs @ [(Str ''Total_Cost_Per_Flight'', t)])
           (Str ''Total_Cost_Per_Flight'') = Inr t"
proof -
  have "Str ''Total_Cost_Per_Flight'' \<notin> fst ` set (zip as vs)"
    using matrix_labels_distinct(3)[OF assms(1)] by (auto dest: set_zip_leftD)
  then have "map_of (zip as vs) (Str ''Total_Cost_Per_Flight'') = None"
    by (simp add: map_of_eq_None_iff)
  then show ?thesis
    by (simp add: getitem_def map_add_def)
qed

section \<open>Cells of the allocation matrix\<close>

lemma pipeline_Inr:
  assumes "pipeline lib cost_df event_df = Inr out"
  shows "rated_cost_pool lib cost_df event_df = Inr (RatedCostPool out)"
    and "allocation_matrix lib (RatedCostPool out) event_df = Inr (AllocationMatrix out)"
    and "summary_table lib (RatedCostPool out) (AllocationMatrix out) = Inr (Summary out)"
    and "time_periods lib event_df = Inr (TimePeriod out)"
  using assms unfolding pipeline_def
  by (auto split: sum.splits)

lemma py_truediv_number: "py_truediv c u = Inr rate \<Longrightarrow> is_number rate"
  by (cases "(c, u)" rule: py_truediv.cases) (auto split: if_splits)

lemma rated_row_facts:
  assumes "rated_cost_pool lib cost_df event_df = Inr rated" and "j < length rated"
  shows "\<exists>tr d u rate. total_row event_df = Inr tr \<and>
           getitem (rated ! j) ''Driver'' = Inr d \<and>
           get_driver_units lib (driver_units (total_items event_df tr)) d = Num u \<and>
           getitem (rated ! j) ''Driver_Units'' = Inr (Num u) \<and>
           getitem (rated ! j) ''RatePerDriverUnit'' = Inr rate \<and>
           is_number rate \<and>
           (u = 0 \<longrightarrow> rate = Num 0) \<and>
           (u \<noteq> 0 \<longrightarrow> (\<exists>c. getitem (rated ! j) ''Total_Cost'' = Inr c \<and>
                               py_truediv c (Num u) = Inr rate))"
proof -
  from rated_cost_pool_row(2)[OF assms] obtain tr d rate where
    tr: "total_row event_df = Inr tr" and
    d: "getitem (iterrows cost_df ! j) ''Driver'' = Inr d" and
    rl: "rate_lambda (AList.update ''Driver_Units''
            (get_driver_units lib (driver_units (total_items event_df tr)) d)
            (iterrows cost_df ! j)) = Inr rate" and
    rj: "rated ! j = AList.update ''RatePerDriverUnit'' rate
          (AList.update ''Driver_Units''
            (get_driver_units lib (driver_units (total_items event_df tr)) d)
            (iterrows cost_df ! j))"
    by blast
  from get_driver_units_Num[OF tr] obtain u where
    u: "get_driver_units lib (driver_units (total_items event_df tr)) d = Num u" by blast
  from rate_lambda_update[OF rl[unfolded u]]
  have z: "u = 0 \<longrightarrow> rate = Num 0"
    and nz: "u \<noteq> 0 \<longrightarrow> (\<exists>c. getitem (iterrows cost_df ! j) ''Total_Cost'' = Inr c \<and> py_truediv c (Num u) = Inr rate)"
    by blast+
  have g0: "getitem (rated ! j) ''Driver'' = Inr d"
    by (simp add: rj d getitem_update)
  have g1: "getitem (rated ! j) ''Driver_Units'' = Inr (Num u)"
    by (simp add: rj u getitem_update)
  have g2: "getitem (rated ! j) ''RatePerDriverUnit'' = Inr rate"
    by (simp add: rj getitem_update)
  have g3: "getitem (rated ! j) ''Total_Cost'' = getitem (iterrows cost_df ! j) ''Total_Cost''"
    by (simp add: rj getitem_update)
  have num: "is_number rate"
  proof (cases "u = 0")
    case True
    with z show ?thesis by simp
  next
    case False
    with nz show ?thesis by (auto dest: py_truediv_number)
  qed
  from nz g3 have nz': "u \<noteq> 0 \<longrightarrow> (\<exists>c. getitem (rated ! j) ''Total_Cost'' = Inr c \<and>
                               py_truediv c (Num u) = Inr rate)"
    by simp
  from tr g0 u g1 g2 num z nz' show ?thesis by blast
qed

lemma rated_row_rate_Num:
  assumes "rated_cost_pool lib cost_df event_df = Inr rated" and "j < length rated"
    and "getitem (rated ! j) ''Total_Cost'' = Inr (Num t)"
    and "getitem (rated ! j) ''Driver_Units'' = Inr (Num u)"
  shows "getitem (rated ! j) ''RatePerDriverUnit'' = Inr (Num (if u = 0 then 0 else t / u))"
proof -
  from rated_row_facts[OF assms(1,2)] obtain u' rate where
    u': "getitem (rated ! j) ''Driver_Units'' = Inr (Num u')" and
    r: "getitem (rated ! j) ''RatePerDriverUnit'' = Inr rate" and
    z: "u' = 0 \<longrightarrow> rate = Num 0" and
    nz: "u' \<noteq> 0 \<longrightarrow> (\<exists>c. getitem (rated ! j) ''Total_Cost'' = Inr c \<and>
                               py_truediv c (Num u') = Inr rate)"
    by blast
  from u' assms(4) have uu: "u' = u" by simp
  show ?thesis
  proof (cases "u = 0")
    case True
    with z uu r show ?thesis by simp
  next
    case False
    with nz uu assms(3) have "py_truediv (Num t) (Num u) = Inr rate" by auto
    with False r show ?thesis by simp
  qed
qed

lemma alloc_cell_eq:
  "getitem act ''Driver'' = Inr d \<Longrightarrow> getitem act ''RatePerDriverUnit'' = Inr rate \<Longrightarrow>
     alloc_cell fr act = py_mul (series_get fr d (Num 0)) rate"
  by (simp add: alloc_cell_def)

lemma flight_row_no_column:
  assumes "i < length (events_clean event_df)" and "k \<notin> set (columns event_df)"
  shows "map_of (events_clean event_df ! i) k = None"
proof -
  from assms(1) have "events_clean event_df ! i \<in> set (iterrows event_df)"
    unfolding events_clean_def by (metis in_set_butlastD nth_mem)
  then obtain r where "events_clean event_df ! i = zip (columns event_df) r"
    by (auto simp: iterrows_def)
  with assms(2) show ?thesis
    by (auto simp: map_of_eq_None_iff dest: set_zip_leftD)
qed

text \<open>The cell of flight \<open>i\<close> and activity \<open>j\<close> in the matrix is what the loop computed.\<close>

lemma matrix_cell:
  assumes "allocation_matrix lib rated event_df = Inr costs"
    and "column rated ''Activity'' = Inr activities"
    and "distinct (matrix_labels activities)"
    and "i < length costs" and "j < length rated"
  shows "\<exists>cells. map_result (alloc_cell (events_clean event_df ! i)) rated = Inr cells \<and>
           length cells = length rated \<and>
           alloc_cell (events_clean event_df ! i) (rated ! j) = Inr (cells ! j) \<and>
           getitem (costs ! i) (activities ! j) = Inr (cells ! j) \<and>
           getitem (costs ! i) (Str ''Total_Cost_Per_Flight'') =
             Inr (Num (sum_list (map cell_value cells))) \<and>
           getitem (costs ! i) (Str ''Total_Cost_Per_Flight'') =
             Inr (Num (sum_list (map cell_value (filter notna cells))))"
proof -
  from allocation_matrix_row(2)[OF assms(1-4)] obtain nm vs s where
    vs: "map_result (alloc_cell (events_clean event_df ! i)) rated = Inr vs" and
    s: "nansum vs = Inr s" and
    row: "costs ! i = (Str ''Flight'', nm) # zip activities vs @
                    [(Str ''Total_Cost_Per_Flight'', Num s)]"
    by blast
  have la: "length activities = length rated"
    using assms(2) by (rule column_length)
  have lv: "length vs = length rated"
    using vs by (rule map_result_length)
  have c: "alloc_cell (events_clean event_df ! i) (rated ! j) = Inr (vs ! j)"
    using vs assms(5) by (rule map_result_nth)
  have g: "getitem (costs ! i) (activities ! j) = Inr (vs ! j)"
    unfolding row using assms(3,5) la lv by (simp add: matrix_row_activity)
  have t: "getitem (costs ! i) (Str ''Total_Cost_Per_Flight'') = Inr (Num s)"
    unfolding row using assms(3) la lv by (simp add: matrix_row_total)
  from vs lv c g t nansum_cell_value[OF s] nansum_notna[OF s] show ?thesis by auto
qed

lemma matrix_cell_absent:
  assumes "allocation_matrix lib rated event_df = Inr costs"
    and "column rated ''Activity'' = Inr activities"
    and "distinct (matrix_labels activities)"
    and "i < length costs" and "j < length rated"
    and "getitem (rated ! j) ''Driver'' = Inr d"
    and "getitem (rated ! j) ''RatePerDriverUnit'' = Inr (Num r)"
    and "\<forall>k. d = Str k \<longrightarrow> k \<notin> set (columns event_df)"
  shows "getitem (costs ! i) (activities ! j) = Inr (Num 0)"
proof -
  let ?F = "events_clean event_df ! i"
  from matrix_cell[OF assms(1-5)] obtain cells where
    ac: "alloc_cell ?F (rated ! j) = Inr (cells ! j)" and
    g: "getitem (costs ! i) (activities ! j) = Inr (cells ! j)"
    by blast
  have i': "i < length (events_clean event_df)"
    using assms(4) allocation_matrix_row(1)[OF assms(1-3)] by simp
  have "series_get ?F d (Num 0) = Num 0"
  proof (cases d)
    case (Str k)
    with assms(8) have "k \<notin> set (columns event_df)" by simp
    from flight_row_no_column[OF i' this] Str show ?thesis
      by (simp add: series_get_def)
  qed (simp_all add: series_get_def)
  with ac alloc_cell_eq[OF assms(6,7)] have "cells ! j = Num 0" by simp
  with g show ?thesis by simp
qed

text \<open>
  Claim C2. Let lines 45-71 produce the rated cost pool and let activity \<open>j\<close> have a
  number as Total_Cost, so that its rate is a number \<open>r\<close>. For every flight row \<open>i\<close>
  (the event rows before the last), the cell that
  \<^verbatim>\<open>flight_row.get(act["Driver"], 0) * act["RatePerDriverUnit"]\<close> computes is the product
  of the flight's value in the driver's column and \<open>r\<close> when the flight row has that
  column, and it is the number 0, not an error, when the event table has no column of
  that name. When the matrix is built (with activity names that are unique and different
  from Flight and Total_Cost_Per_Flight) this cell is its entry for the flight and the
  activity.
\<close>

theorem allocation_cell:
  assumes "rated_cost_pool lib cost_df event_df = Inr rated"
    and "j < length rated"
    and "getitem (rated ! j) ''Total_Cost'' = Inr (Num t)"
    and "i < length (events_clean event_df)"
  shows "\<exists>d r.
      getitem (rated ! j) ''Driver'' = Inr d \<and>
      getitem (rated ! j) ''RatePerDriverUnit'' = Inr (Num r) \<and>
      (\<forall>k v. d = Str k \<and> map_of (events_clean event_df ! i) k = Some v \<longrightarrow>
         alloc_cell (events_clean event_df ! i) (rated ! j) = py_mul v (Num r)) \<and>
      (\<forall>k x. d = Str k \<and> map_of (events_clean event_df ! i) k = Some (Num x) \<longrightarrow>
         alloc_cell (events_clean event_df ! i) (rated ! j) = Inr (Num (x * r))) \<and>
      ((\<forall>k. d = Str k \<longrightarrow> k \<notin> set (columns event_df)) \<longrightarrow>
         alloc_cell (events_clean event_df ! i) (rated ! j) = Inr (Num 0)) \<and>
      (\<forall>costs activities.
         allocation_matrix lib rated event_df = Inr costs \<and>
         column rated ''Activity'' = Inr activities \<and>
         distinct (matrix_labels activities) \<longrightarrow>
         getitem (costs ! i) (activities ! j) =
           alloc_cell (events_clean event_df ! i) (rated ! j))"
proof -
  let ?F = "events_clean event_df ! i"
  let ?A = "rated ! j"
  from rated_row_facts[OF assms(1,2)] obtain d u where
    d: "getitem ?A ''Driver'' = Inr d" and
    u: "getitem ?A ''Driver_Units'' = Inr (Num u)"
    by blast
  from rated_row_rate_Num[OF assms(1,2,3) u] obtain r where
    r: "getitem ?A ''RatePerDriverUnit'' = Inr (Num r)" by blast
  note m = alloc_cell_eq[OF d r, of ?F]
  have c1: "\<forall>k v. d = Str k \<and> map_of ?F k = Some v \<longrightarrow> alloc_cell ?F ?A = py_mul v (Num r)"
    using m by (auto simp: series_get_def)
  have c2: "\<forall>k x. d = Str k \<and> map_of ?F k = Some (Num x) \<longrightarrow>
              alloc_cell ?F ?A = Inr (Num (x * r))"
    using m by (auto simp: series_get_def)
  have c3: "(\<forall>k. d = Str k \<longrightarrow> k \<notin> set (columns event_df)) \<longrightarrow>
              alloc_cell ?F ?A = Inr (Num 0)"
  proof
    assume a: "\<forall>k. d = Str k \<longrightarrow> k \<notin> set (columns event_df)"
    have "series_get ?F d (Num 0) = Num 0"
    proof (cases d)
      case (Str k)
      with a have "k \<notin> set (columns event_df)" by simp
      from flight_row_no_column[OF assms(4) this] Str show ?thesis
        by (simp add: series_get_def)
    qed (simp_all add: series_get_def)
    with m show "alloc_cell ?F ?A = Inr (Num 0)" by simp
  qed
  have c4: "\<forall>costs activities.
         allocation_matrix lib rated event_df = Inr costs \<and>
         column rated ''Activity'' = Inr activities \<and>
         distinct (matrix_labels activities) \<longrightarrow>
         getitem (costs ! i) (activities ! j) = alloc_cell ?F ?A"
  proof (intro allI impI)
    fix costs activities
    assume h: "allocation_matrix lib rated event_df = Inr costs \<and>
         column rated ''Activity'' = Inr activities \<and>
         distinct (matrix_labels activities)"
    then have h1: "allocation_matrix lib rated event_df = Inr costs"
      and h2: "column rated ''Activity'' = Inr activities"
      and h3: "distinct (matrix_labels activities)"
      by simp_all
    have i': "i < length costs"
      using assms(4) allocation_matrix_row(1)[OF h1 h2 h3] by simp
    from matrix_cell[OF h1 h2 h3 i' assms(2)] show
      "getitem (costs ! i) (activities ! j) = alloc_cell ?F ?A"
      by auto
  qed
  from d r c1 c2 c3 c4 show ?thesis by blast
qed

lemma example_activity_column:
  "column (RatedCostPool example_outputs) ''Activity'' = Inr example_activities"
  by (simp add: example_outputs_def example_rated_def example_activities_def column_def getitem_def)

lemma example_labels: "distinct (matrix_labels example_activities)"
  by (simp add: matrix_labels_def example_activities_def)

theorem allocation_cell_witness:
  "rated_cost_pool example_lib example_cost example_events = Inr example_rated \<and>
   0 < length example_rated \<and>
   getitem (example_rated ! 0) ''Total_Cost'' = Inr (Num 1000) \<and>
   0 < length (events_clean example_events) \<and>
   getitem (example_rated ! 0) ''Driver'' = Inr (Str ''Distance'') \<and>
   map_of (events_clean example_events ! 0) ''Distance'' = Some (Num 100) \<and>
   getitem (example_rated ! 0) ''RatePerDriverUnit'' = Inr (Num 2) \<and>
   alloc_cell (events_clean example_events ! 0) (example_rated ! 0) = Inr (Num (100 * 2)) \<and>
   allocation_matrix example_lib example_rated example_events = Inr example_matrix \<and>
   column example_rated ''Activity'' = Inr example_activities \<and>
   distinct (matrix_labels example_activities) \<and>
   getitem (example_matrix ! 0) (example_activities ! 0) = Inr (Num (100 * 2)) \<and>
   2 < length example_rated \<and>
   getitem (example_rated ! 2) ''Total_Cost'' = Inr (Num 50) \<and>
   getitem (example_rated ! 2) ''Driver'' = Inr (Str ''Seats'') \<and>
   ''Seats'' \<notin> set (columns example_events) \<and>
   alloc_cell (events_clean example_events ! 0) (example_rated ! 2) = Inr (Num 0) \<and>
   getitem (example_matrix ! 0) (example_activities ! 2) = Inr (Num 0)"
proof -
  note rates = example_rated_cost_pool
  note matrix = example_allocation_matrix
  have acts: "column example_rated ''Activity'' = Inr example_activities"
    by (simp add: example_rated_def example_activities_def column_def getitem_def)
  have i: "0 < length (events_clean example_events)"
    by (simp add: events_clean_def iterrows_def example_events_def)
  have j: "0 < length example_rated"
    by (simp add: example_rated_def)
  have t: "getitem (example_rated ! 0) ''Total_Cost'' = Inr (Num 1000)"
    by (simp add: example_rated_def getitem_def)
  have d: "getitem (example_rated ! 0) ''Driver'' = Inr (Str ''Distance'')"
    by (simp add: example_rated_def getitem_def)
  have v: "map_of (events_clean example_events ! 0) ''Distance'' = Some (Num 100)"
    by (simp add: events_clean_def iterrows_def example_events_def)
  have rt: "getitem (example_rated ! 0) ''RatePerDriverUnit'' = Inr (Num 2)"
    by (simp add: example_rated_def getitem_def)
  from allocation_cell[OF rates j t i]
  obtain d' r where
    d': "getitem (example_rated ! 0) ''Driver'' = Inr d'" and
    r: "getitem (example_rated ! 0) ''RatePerDriverUnit'' = Inr (Num r)" and
    c: "\<forall>k x. d' = Str k \<and> map_of (events_clean example_events ! 0) k = Some (Num x) \<longrightarrow>
         alloc_cell (events_clean example_events ! 0) (example_rated ! 0) = Inr (Num (x * r))" and
    m: "\<forall>costs activities.
         allocation_matrix example_lib example_rated example_events = Inr costs \<and>
         column example_rated ''Activity'' = Inr activities \<and>
         distinct (matrix_labels activities) \<longrightarrow>
         getitem (costs ! 0) (activities ! 0) =
           alloc_cell (events_clean example_events ! 0) (example_rated ! 0)"
    by blast
  from d d' have "d' = Str ''Distance''" by simp
  moreover from r rt have "r = 2" by simp
  ultimately have present:
    "alloc_cell (events_clean example_events ! 0) (example_rated ! 0) = Inr (Num (100 * 2))"
    using c v by blast
  from m matrix acts example_labels have
    "getitem (example_matrix ! 0) (example_activities ! 0) =
       alloc_cell (events_clean example_events ! 0) (example_rated ! 0)"
    by blast
  then have present_cell:
    "getitem (example_matrix ! 0) (example_activities ! 0) = Inr (Num (100 * 2))"
    by (simp only: present)
  have j2: "2 < length example_rated"
    by (simp add: example_rated_def)
  have t2: "getitem (example_rated ! 2) ''Total_Cost'' = Inr (Num 50)"
    and d2: "getitem (example_rated ! 2) ''Driver'' = Inr (Str ''Seats'')"
    by (simp_all add: example_rated_def getitem_def)
  have no: "''Seats'' \<notin> set (columns example_events)"
    by (simp add: example_events_def)
  from allocation_cell[OF rates j2 t2 i]
  obtain d'' where
    d'': "getitem (example_rated ! 2) ''Driver'' = Inr d''" and
    z: "(\<forall>k. d'' = Str k \<longrightarrow> k \<notin> set (columns example_events)) \<longrightarrow>
         alloc_cell (events_clean example_events ! 0) (example_rated ! 2) = Inr (Num 0)" and
    m2: "\<forall>costs activities.
         allocation_matrix example_lib example_rated example_events = Inr costs \<and>
         column example_rated ''Activity'' = Inr activities \<and>
         distinct (matrix_labels activities) \<longrightarrow>
         getitem (costs ! 0) (activities ! 2) =
           alloc_cell (events_clean example_events ! 0) (example_rated ! 2)"
    by blast
  from d2 d'' have "d'' = Str ''Seats''" by simp
  with z no have absent:
    "alloc_cell (events_clean example_events ! 0) (example_rated ! 2) = Inr (Num 0)"
    by simp
  from m2 matrix acts example_labels have
    "getitem (example_matrix ! 0) (example_activities ! 2) =
       alloc_cell (events_clean example_events ! 0) (example_rated ! 2)"
    by blast
  then have absent_cell:
    "getitem (example_matrix ! 0) (example_activities ! 2) = Inr (Num 0)"
    by (simp only: absent)
  from rates j t i d v rt present matrix acts example_labels present_cell j2 t2 d2 no absent
    absent_cell
  show ?thesis by (intro conjI)
qed

section \<open>Trimmed and untrimmed driver names\<close>

text \<open>
  Claim C9. Let the run succeed with well-formed matrix labels, and let activity \<open>j\<close>
  have a numeric Total_Cost \<open>t\<close> and a driver name \<open>d\<close> that is not a column of the event
  table, while its trimmed form is the trimmed name of a numeric column \<open>c\<close> whose total
  is the number \<open>v\<close> (trimmed names of numeric columns being unique). Then Driver_Units
  of the activity is \<open>v\<close>, its rate is \<open>t / v\<close> (0 when \<open>v\<close> is 0), and its cell in the
  matrix is 0 for every flight \<open>i\<close>.
\<close>

theorem driver_whitespace_asymmetry:
  assumes "pipeline lib cost_df event_df = Inr out"
    and "column (RatedCostPool out) ''Activity'' = Inr activities"
    and "distinct (matrix_labels activities)"
    and "i < length (AllocationMatrix out)"
    and "j < length (RatedCostPool out)"
    and "getitem (RatedCostPool out ! j) ''Total_Cost'' = Inr (Num t)"
    and "getitem (RatedCostPool out ! j) ''Driver'' = Inr (Str d)"
    and "d \<notin> set (columns event_df)"
    and "c \<in> set (numeric_cols event_df)"
    and "strip d = strip c"
    and "distinct (map strip (numeric_cols event_df))"
    and "total_row event_df = Inr tr"
    and "map_of tr c = Some (Num v)"
  shows "getitem (RatedCostPool out ! j) ''Driver_Units'' = Inr (Num v) \<and>
         getitem (RatedCostPool out ! j) ''RatePerDriverUnit'' =
           Inr (Num (if v = 0 then 0 else t / v)) \<and>
         getitem (AllocationMatrix out ! i) (activities ! j) = Inr (Num 0)"
proof -
  note st = pipeline_Inr[OF assms(1)]
  let ?du = "driver_units (total_items event_df tr)"
  from rated_row_facts[OF st(1) assms(5)] assms(12) obtain d' u where
    d': "getitem (RatedCostPool out ! j) ''Driver'' = Inr d'" and
    gu: "get_driver_units lib ?du d' = Num u" and
    u: "getitem (RatedCostPool out ! j) ''Driver_Units'' = Inr (Num u)"
    by auto
  from d' assms(7) have dd: "d' = Str d" by simp
  from driver_units_of_column[OF assms(12,11,9)] assms(13)
  have "map_of ?du (strip c) = Some (Num v)" by auto
  then have "get_driver_units lib ?du (Str d) = Num v"
    by (simp add: get_driver_units_def assms(10))
  with gu dd have uv: "u = v" by simp
  have du: "getitem (RatedCostPool out ! j) ''Driver_Units'' = Inr (Num v)"
    using u uv by simp
  have rate: "getitem (RatedCostPool out ! j) ''RatePerDriverUnit'' =
           Inr (Num (if v = 0 then 0 else t / v))"
    using rated_row_rate_Num[OF st(1) assms(5,6) du] .
  from rate have r: "\<exists>r. getitem (RatedCostPool out ! j) ''RatePerDriverUnit'' = Inr (Num r)"
    by blast
  then obtain r where r: "getitem (RatedCostPool out ! j) ''RatePerDriverUnit'' = Inr (Num r)"
    by blast
  have "\<forall>k. Str d = Str k \<longrightarrow> k \<notin> set (columns event_df)"
    using assms(8) by simp
  from matrix_cell_absent[OF st(2) assms(2,3,4,5,7) r this]
  have "getitem (AllocationMatrix out ! i) (activities ! j) = Inr (Num 0)" .
  with du rate show ?thesis by simp
qed

theorem driver_whitespace_asymmetry_witness:
  "pipeline example_lib example_cost example_events = Inr example_outputs \<and>
   column (RatedCostPool example_outputs) ''Activity'' = Inr example_activities \<and>
   distinct (matrix_labels example_activities) \<and>
   1 < length (AllocationMatrix example_outputs) \<and>
   1 < length (RatedCostPool example_outputs) \<and>
   getitem (RatedCostPool example_outputs ! 1) ''Total_Cost'' = Inr (Num 300) \<and>
   getitem (RatedCostPool example_outputs ! 1) ''Driver'' = Inr (Str '' Meals'') \<and>
   '' Meals'' \<notin> set (columns example_events) \<and>
   ''Meals'' \<in> set (numeric_cols example_events) \<and>
   strip '' Meals'' = strip ''Meals'' \<and>
   distinct (map strip (numeric_cols example_events)) \<and>
   total_row example_events = Inr example_total_row \<and>
   map_of example_total_row ''Meals'' = Some (Num 40) \<and>
   getitem (RatedCostPool example_outputs ! 1) ''Driver_Units'' = Inr (Num 40) \<and>
   getitem (RatedCostPool example_outputs ! 1) ''RatePerDriverUnit'' =
     Inr (Num (if (40::real) = 0 then 0 else 300 / 40)) \<and>
   getitem (AllocationMatrix example_outputs ! 1) (example_activities ! 1) = Inr (Num 0)"
proof -
  have run: "pipeline example_lib example_cost example_events = Inr example_outputs"
    by (rule example_pipeline)
  have i: "1 < length (AllocationMatrix example_outputs)"
    by (simp add: example_outputs_def example_matrix_def)
  have j: "1 < length (RatedCostPool example_outputs)"
    by (simp add: example_outputs_def example_rated_def)
  have t: "getitem (RatedCostPool example_outputs ! 1) ''Total_Cost'' = Inr (Num 300)"
    by (simp add: example_outputs_def example_rated_def getitem_def)
  have d: "getitem (RatedCostPool example_outputs ! 1) ''Driver'' = Inr (Str '' Meals'')"
    by (simp add: example_outputs_def example_rated_def getitem_def)
  have un: "'' Meals'' \<notin> set (columns example_events)"
    by (simp add: example_events_def)
  have c: "''Meals'' \<in> set (numeric_cols example_events)"
    by (simp add: example_numeric_cols)
  have s: "strip '' Meals'' = strip ''Meals''"
    by (simp add: example_strip)
  have dist: "distinct (map strip (numeric_cols example_events))"
    by (simp add: example_numeric_cols example_strip)
  have v: "map_of example_total_row ''Meals'' = Some (Num 40)"
    by (simp add: example_total_row_def)
  note w = driver_whitespace_asymmetry[OF run example_activity_column example_labels i j t d un c s
      dist example_total_row_eval v]
  note w1 = w[THEN conjunct1] and w2 = w[THEN conjunct2, THEN conjunct1]
    and w3 = w[THEN conjunct2, THEN conjunct2]
  from run example_activity_column example_labels i j t d un c s dist example_total_row_eval v w1 w2 w3
  show ?thesis by (intro conjI)
qed

section \<open>Missing driver values\<close>

lemma py_mul_NaN: "is_number rate \<Longrightarrow> py_mul NaN rate = Inr NaN"
  by (cases rate) simp_all

text \<open>
  Claim C10. Let lines 45-71 produce the rated cost pool, and let flight row \<open>i\<close> hold a
  blank in the column that activity \<open>j\<close> names as its driver. Then the product computed
  for that flight and activity is NaN and not an error. When the matrix is built (with
  well-formed labels) its cell for the flight and the activity is NaN, and
  Total_Cost_Per_Flight of the flight is the sum of the numbers among the activity cells
  of the flight, the blank ones left out.
\<close>

theorem missing_driver_value:
  assumes "rated_cost_pool lib cost_df event_df = Inr rated"
    and "j < length rated"
    and "getitem (rated ! j) ''Driver'' = Inr (Str k)"
    and "map_of (events_clean event_df ! i) k = Some NaN"
  shows "alloc_cell (events_clean event_df ! i) (rated ! j) = Inr NaN \<and>
     (\<forall>costs activities.
        allocation_matrix lib rated event_df = Inr costs \<and>
        column rated ''Activity'' = Inr activities \<and>
        distinct (matrix_labels activities) \<and> i < length costs \<longrightarrow>
        getitem (costs ! i) (activities ! j) = Inr NaN \<and>
        (\<exists>cells. map_result (alloc_cell (events_clean event_df ! i)) rated = Inr cells \<and>
           cells ! j = NaN \<and>
           getitem (costs ! i) (Str ''Total_Cost_Per_Flight'') =
             Inr (Num (sum_list (map cell_value (filter notna cells))))))"
proof (intro conjI allI impI)
  let ?F = "events_clean event_df ! i"
  from rated_row_facts[OF assms(1,2)] obtain d rate where
    d: "getitem (rated ! j) ''Driver'' = Inr d" and
    rate: "getitem (rated ! j) ''RatePerDriverUnit'' = Inr rate" and
    num: "is_number rate"
    by blast
  from d assms(3) have dk: "d = Str k" by simp
  have "series_get ?F d (Num 0) = NaN"
    by (simp add: series_get_def dk assms(4))
  with alloc_cell_eq[OF d rate] py_mul_NaN[OF num]
  show cellNaN: "alloc_cell ?F (rated ! j) = Inr NaN" by simp
  fix costs activities
  assume a: "allocation_matrix lib rated event_df = Inr costs \<and>
        column rated ''Activity'' = Inr activities \<and>
        distinct (matrix_labels activities) \<and> i < length costs"
  then have a1: "allocation_matrix lib rated event_df = Inr costs"
    and a2: "column rated ''Activity'' = Inr activities"
    and a3: "distinct (matrix_labels activities)" and a4: "i < length costs"
    by simp_all
  from matrix_cell[OF a1 a2 a3 a4 assms(2)] obtain cells where
    cells: "map_result (alloc_cell ?F) rated = Inr cells" and
    ac: "alloc_cell ?F (rated ! j) = Inr (cells ! j)" and
    g: "getitem (costs ! i) (activities ! j) = Inr (cells ! j)" and
    tot: "getitem (costs ! i) (Str ''Total_Cost_Per_Flight'') =
             Inr (Num (sum_list (map cell_value (filter notna cells))))"
    by blast
  from ac cellNaN have cj: "cells ! j = NaN" by simp
  with g show "getitem (costs ! i) (activities ! j) = Inr NaN" by simp
  from cells cj tot show "\<exists>cells. map_result (alloc_cell ?F) rated = Inr cells \<and>
           cells ! j = NaN \<and>
           getitem (costs ! i) (Str ''Total_Cost_Per_Flight'') =
             Inr (Num (sum_list (map cell_value (filter notna cells))))"
    by blast
qed

lemma example_cells:
  "map_result (alloc_cell (events_clean example_events ! 1)) example_rated =
     Inr [NaN, Num 0, Num 0, Num 400]"
  by (simp add: events_clean_def iterrows_def example_events_def example_rated_def
      alloc_cell_def getitem_def series_get_def)

theorem missing_driver_value_witness:
  "rated_cost_pool example_lib example_cost example_events = Inr example_rated \<and>
   0 < length example_rated \<and>
   getitem (example_rated ! 0) ''Driver'' = Inr (Str ''Distance'') \<and>
   map_of (events_clean example_events ! 1) ''Distance'' = Some NaN \<and>
   allocation_matrix example_lib example_rated example_events = Inr example_matrix \<and>
   column example_rated ''Activity'' = Inr example_activities \<and>
   distinct (matrix_labels example_activities) \<and> 1 < length example_matrix \<and>
   alloc_cell (events_clean example_events ! 1) (example_rated ! 0) = Inr NaN \<and>
   getitem (example_matrix ! 1) (example_activities ! 0) = Inr NaN \<and>
   getitem (example_matrix ! 1) (Str ''Total_Cost_Per_Flight'') =
     Inr (Num (sum_list (map cell_value (filter notna [NaN, Num 0, Num 0, Num 400]))))"
proof -
  have j: "0 < length example_rated" by (simp add: example_rated_def)
  have d: "getitem (example_rated ! 0) ''Driver'' = Inr (Str ''Distance'')"
    by (simp add: example_rated_def getitem_def)
  have n: "map_of (events_clean example_events ! 1) ''Distance'' = Some NaN"
    by (simp add: events_clean_def iterrows_def example_events_def)
  have col: "column example_rated ''Activity'' = Inr example_activities"
    using example_activity_column by (simp add: example_outputs_def)
  have i: "1 < length example_matrix" by (simp add: example_matrix_def)
  note w = missing_driver_value[OF example_rated_cost_pool j d n]
  from w have c: "alloc_cell (events_clean example_events ! 1) (example_rated ! 0) = Inr NaN"
    by (rule conjunct1)
  from w example_allocation_matrix col example_labels i
  have m: "getitem (example_matrix ! 1) (example_activities ! 0) = Inr NaN \<and>
        (\<exists>cells. map_result (alloc_cell (events_clean example_events ! 1)) example_rated = Inr cells \<and>
           cells ! 0 = NaN \<and>
           getitem (example_matrix ! 1) (Str ''Total_Cost_Per_Flight'') =
             Inr (Num (sum_list (map cell_value (filter notna cells)))))"
    by blast
  then have m1: "getitem (example_matrix ! 1) (example_activities ! 0) = Inr NaN"
    by (rule conjunct1)
  from m obtain cells where
    cs: "map_result (alloc_cell (events_clean example_events ! 1)) example_rated = Inr cells" and
    tot: "getitem (example_matrix ! 1) (Str ''Total_Cost_Per_Flight'') =
             Inr (Num (sum_list (map cell_value (filter notna cells))))"
    by blast
  from cs have "cells = [NaN, Num 0, Num 0, Num 400]"
    by (simp only: example_cells sum.inject)
  with tot have m2: "getitem (example_matrix ! 1) (Str ''Total_Cost_Per_Flight'') =
     Inr (Num (sum_list (map cell_value (filter notna [NaN, Num 0, Num 0, Num 400]))))"
    by (simp only:)
  from example_rated_cost_pool j d n example_allocation_matrix col example_labels i c m1 m2
  show ?thesis by (intro conjI)
qed

section \<open>Structure of the summary table\<close>

lemma foldl_update_fresh:
  assumes "distinct (map f ts)" and "f ` set ts \<inter> fst ` set rc = {}" and "length vs = length ts"
  shows "foldl (\<lambda>r (t, v). AList.update (f t) v r) rc (zip ts vs) = rc @ zip (map f ts) vs"
  using assms
proof (induction ts arbitrary: vs rc)
  case Nil
  then show ?case by simp
next
  case (Cons t ts)
  from Cons.prems(3) obtain v vs' where vs: "vs = v # vs'" and l: "length vs' = length ts"
    by (cases vs) auto
  from Cons.prems(2) have "f t \<notin> fst ` set rc" by auto
  then have upd: "AList.update (f t) v rc = rc @ [(f t, v)]" by (rule update_fresh)
  from Cons.prems(1,2) have d: "distinct (map f ts)"
    and disj: "f ` set ts \<inter> fst ` set (AList.update (f t) v rc) = {}"
    by (auto simp: upd)
  from Cons.IH[OF d disj l] show ?case
    by (simp add: vs upd)
qed

lemma summary_loop_rows:
  assumes "summary_loop lib tys as costs ts summ = Inr summ'" and "length summ = length costs"
  shows "length summ' = length costs \<and>
         (\<forall>i < length costs. \<exists>cols.
            map_result (\<lambda>t. sum_of_columns (acts_of_type tys as t) (costs ! i)) ts = Inr cols \<and>
            summ' ! i = foldl (\<lambda>r (t, v). AList.update (type_label lib t) v r) (summ ! i) (zip ts cols))"
  using assms
proof (induction ts arbitrary: summ)
  case Nil
  then show ?case by simp
next
  case (Cons t ts)
  from Cons.prems(1) obtain col where
    col: "map_result (sum_of_columns (acts_of_type tys as t)) costs = Inr col" and
    rest: "summary_loop lib tys as costs ts (set_column summ (type_label lib t) col) = Inr summ'"
    by (auto split: sum.splits)
  have lc: "length col = length costs" using col by (rule map_result_length)
  have l1: "length (set_column summ (type_label lib t) col) = length costs"
    using lc Cons.prems(2) by (simp add: set_column_length)
  from Cons.IH[OF rest l1] have len: "length summ' = length costs" and
    ih: "\<forall>i < length costs. \<exists>cols.
            map_result (\<lambda>t. sum_of_columns (acts_of_type tys as t) (costs ! i)) ts = Inr cols \<and>
            summ' ! i = foldl (\<lambda>r (t, v). AList.update (type_label lib t) v r)
                          (set_column summ (type_label lib t) col ! i) (zip ts cols)"
    by blast+
  have "\<exists>cols. map_result (\<lambda>t. sum_of_columns (acts_of_type tys as t) (costs ! i)) (t # ts) = Inr cols \<and>
            summ' ! i = foldl (\<lambda>r (t, v). AList.update (type_label lib t) v r) (summ ! i) (zip (t # ts) cols)"
    if i: "i < length costs" for i
  proof -
    from ih i obtain cols where
      c: "map_result (\<lambda>t. sum_of_columns (acts_of_type tys as t) (costs ! i)) ts = Inr cols" and
      s: "summ' ! i = foldl (\<lambda>r (t, v). AList.update (type_label lib t) v r)
                          (set_column summ (type_label lib t) col ! i) (zip ts cols)"
      by blast
    have h: "sum_of_columns (acts_of_type tys as t) (costs ! i) = Inr (col ! i)"
      using col i by (rule map_result_nth)
    have u: "set_column summ (type_label lib t) col ! i = AList.update (type_label lib t) (col ! i) (summ ! i)"
      using i lc Cons.prems(2) by (simp add: set_column_nth)
    show ?thesis
      by (rule exI[of _ "col ! i # cols"]) (simp add: h c s u)
  qed
  with len show ?case by blast
qed

lemma summary_table_row:
  assumes "summary_table lib rated costs = Inr summ"
  shows "length summ = length costs"
    and "i < length costs \<Longrightarrow>
      \<exists>flight types activities cols tot.
        getitem (costs ! i) (Str ''Flight'') = Inr flight \<and>
        column rated ''Type'' = Inr types \<and>
        column rated ''Activity'' = Inr activities \<and>
        map_result (\<lambda>t. sum_of_columns (acts_of_type types activities t) (costs ! i)) (unique types)
          = Inr cols \<and>
        getitem (costs ! i) (Str ''Total_Cost_Per_Flight'') = Inr tot \<and>
        summ ! i = AList.update ''Total_Cost_Per_Flight'' tot
          (foldl (\<lambda>r (t, v). AList.update (type_label lib t) v r) [(''Flight'', flight)]
             (zip (unique types) cols))"
proof -
  from assms obtain flights types activities summ0 totals where
    fl: "column costs (Str ''Flight'') = Inr flights" and
    ty: "column rated ''Type'' = Inr types" and
    ac: "column rated ''Activity'' = Inr activities" and
    loop: "summary_loop lib types activities costs (unique types)
             (map (\<lambda>f. [(''Flight'', f)]) flights) = Inr summ0" and
    tot: "column costs (Str ''Total_Cost_Per_Flight'') = Inr totals" and
    summ: "summ = set_column summ0 ''Total_Cost_Per_Flight'' totals"
    by (auto simp: summary_table_def split: sum.splits)
  have lf: "length flights = length costs" using fl by (rule column_length)
  have lt: "length totals = length costs" using tot by (rule column_length)
  from summary_loop_rows[OF loop] lf have l0: "length summ0 = length costs" and
    rows: "\<forall>i < length costs. \<exists>cols.
            map_result (\<lambda>t. sum_of_columns (acts_of_type types activities t) (costs ! i)) (unique types) = Inr cols \<and>
            summ0 ! i = foldl (\<lambda>r (t, v). AList.update (type_label lib t) v r)
                          (map (\<lambda>f. [(''Flight'', f)]) flights ! i) (zip (unique types) cols)"
    by simp_all
  show len: "length summ = length costs"
    by (simp add: summ set_column_length l0 lt)
  assume i: "i < length costs"
  from rows i obtain cols where
    c: "map_result (\<lambda>t. sum_of_columns (acts_of_type types activities t) (costs ! i)) (unique types) = Inr cols" and
    s0: "summ0 ! i = foldl (\<lambda>r (t, v). AList.update (type_label lib t) v r)
                          (map (\<lambda>f. [(''Flight'', f)]) flights ! i) (zip (unique types) cols)"
    by blast
  have f: "getitem (costs ! i) (Str ''Flight'') = Inr (flights ! i)"
    using fl i by (rule column_nth)
  have t: "getitem (costs ! i) (Str ''Total_Cost_Per_Flight'') = Inr (totals ! i)"
    using tot i by (rule column_nth)
  have "summ ! i = AList.update ''Total_Cost_Per_Flight'' (totals ! i) (summ0 ! i)"
    using i l0 lt by (simp add: summ set_column_nth)
  with s0 i lf have "summ ! i = AList.update ''Total_Cost_Per_Flight'' (totals ! i)
          (foldl (\<lambda>r (t, v). AList.update (type_label lib t) v r) [(''Flight'', flights ! i)]
             (zip (unique types) cols))"
    by simp
  with f ty ac c t show "\<exists>flight types activities cols tot.
        getitem (costs ! i) (Str ''Flight'') = Inr flight \<and>
        column rated ''Type'' = Inr types \<and>
        column rated ''Activity'' = Inr activities \<and>
        map_result (\<lambda>t. sum_of_columns (acts_of_type types activities t) (costs ! i)) (unique types)
          = Inr cols \<and>
        getitem (costs ! i) (Str ''Total_Cost_Per_Flight'') = Inr tot \<and>
        summ ! i = AList.update ''Total_Cost_Per_Flight'' tot
          (foldl (\<lambda>r (t, v). AList.update (type_label lib t) v r) [(''Flight'', flight)]
             (zip (unique types) cols))"
    by blast
qed

lemma summary_total:
  assumes "summary_table lib rated costs = Inr summ" and "i < length costs"
  shows "getitem (summ ! i) ''Total_Cost_Per_Flight'' = getitem (costs ! i) (Str ''Total_Cost_Per_Flight'')"
proof -
  from summary_table_row(2)[OF assms] obtain tot r where
    "getitem (costs ! i) (Str ''Total_Cost_Per_Flight'') = Inr tot"
    "summ ! i = AList.update ''Total_Cost_Per_Flight'' tot r"
    by blast
  then show ?thesis by (simp add: getitem_update)
qed

section \<open>Total cost per flight\<close>

text \<open>
  Claim C3. Let the run succeed with activity names that are unique and different from
  Flight and Total_Cost_Per_Flight. For every flight \<open>i\<close> let \<open>cells\<close> be the products
  that the loop computes for the activities, in their order. They are the flight's
  activity cells in the matrix, Total_Cost_Per_Flight in the matrix is their sum (a blank
  cell counting 0, as pandas sums), and the summary has the same rows and the same
  Total_Cost_Per_Flight.
\<close>

theorem total_cost_per_flight:
  assumes "pipeline lib cost_df event_df = Inr out"
    and "column (RatedCostPool out) ''Activity'' = Inr activities"
    and "distinct (matrix_labels activities)"
    and "i < length (AllocationMatrix out)"
  shows "\<exists>cells.
      map_result (alloc_cell (events_clean event_df ! i)) (RatedCostPool out) = Inr cells \<and>
      length cells = length activities \<and>
      (\<forall>j < length activities. getitem (AllocationMatrix out ! i) (activities ! j) = Inr (cells ! j)) \<and>
      getitem (AllocationMatrix out ! i) (Str ''Total_Cost_Per_Flight'') =
        Inr (Num (sum_list (map cell_value cells))) \<and>
      length (Summary out) = length (AllocationMatrix out) \<and>
      getitem (Summary out ! i) ''Total_Cost_Per_Flight'' =
        getitem (AllocationMatrix out ! i) (Str ''Total_Cost_Per_Flight'')"
proof -
  note st = pipeline_Inr[OF assms(1)]
  from allocation_matrix_row(2)[OF st(2) assms(2,3,4)] obtain nm vs s where
    vs: "map_result (alloc_cell (events_clean event_df ! i)) (RatedCostPool out) = Inr vs" and
    s: "nansum vs = Inr s" and
    row: "AllocationMatrix out ! i = (Str ''Flight'', nm) # zip activities vs @
                    [(Str ''Total_Cost_Per_Flight'', Num s)]"
    by blast
  have lv: "length vs = length activities"
    using map_result_length[OF vs] column_length[OF assms(2)] by simp
  have cellsj: "\<forall>j < length activities. getitem (AllocationMatrix out ! i) (activities ! j) = Inr (vs ! j)"
    unfolding row using assms(3) lv by (simp add: matrix_row_activity)
  have t: "getitem (AllocationMatrix out ! i) (Str ''Total_Cost_Per_Flight'') =
        Inr (Num (sum_list (map cell_value vs)))"
    unfolding row using assms(3) lv nansum_cell_value[OF s] by (simp add: matrix_row_total)
  from vs lv cellsj t summary_table_row(1)[OF st(3)] summary_total[OF st(3) assms(4)]
  show ?thesis by blast
qed

lemma example_cells0:
  "map_result (alloc_cell (events_clean example_events ! 0)) example_rated =
     Inr [Num 200, Num 0, Num 0, Num 200]"
  by (simp add: events_clean_def iterrows_def example_events_def example_rated_def
      alloc_cell_def getitem_def series_get_def)

theorem total_cost_per_flight_witness:
  "pipeline example_lib example_cost example_events = Inr example_outputs \<and>
   column (RatedCostPool example_outputs) ''Activity'' = Inr example_activities \<and>
   distinct (matrix_labels example_activities) \<and>
   0 < length (AllocationMatrix example_outputs) \<and>
   map_result (alloc_cell (events_clean example_events ! 0)) (RatedCostPool example_outputs) =
     Inr [Num 200, Num 0, Num 0, Num 200] \<and>
   getitem (AllocationMatrix example_outputs ! 0) (Str ''Total_Cost_Per_Flight'') =
     Inr (Num (sum_list (map cell_value [Num 200, Num 0, Num 0, Num 200]))) \<and>
   getitem (Summary example_outputs ! 0) ''Total_Cost_Per_Flight'' =
     getitem (AllocationMatrix example_outputs ! 0) (Str ''Total_Cost_Per_Flight'')"
proof -
  have i: "0 < length (AllocationMatrix example_outputs)"
    by (simp add: example_outputs_def example_matrix_def)
  have r: "RatedCostPool example_outputs = example_rated"
    by (simp add: example_outputs_def)
  from total_cost_per_flight[OF example_pipeline example_activity_column example_labels i]
  obtain cells where
    c: "map_result (alloc_cell (events_clean example_events ! 0)) (RatedCostPool example_outputs) = Inr cells" and
    t: "getitem (AllocationMatrix example_outputs ! 0) (Str ''Total_Cost_Per_Flight'') =
        Inr (Num (sum_list (map cell_value cells)))" and
    e: "getitem (Summary example_outputs ! 0) ''Total_Cost_Per_Flight'' =
        getitem (AllocationMatrix example_outputs ! 0) (Str ''Total_Cost_Per_Flight'')"
    by blast
  have c0: "map_result (alloc_cell (events_clean example_events ! 0)) (RatedCostPool example_outputs) =
     Inr [Num 200, Num 0, Num 0, Num 200]"
    by (simp only: r example_cells0)
  from c c0 have "cells = [Num 200, Num 0, Num 0, Num 200]"
    by (simp only: sum.inject)
  with t have t0: "getitem (AllocationMatrix example_outputs ! 0) (Str ''Total_Cost_Per_Flight'') =
     Inr (Num (sum_list (map cell_value [Num 200, Num 0, Num 0, Num 200])))"
    by (simp only:)
  from example_pipeline example_activity_column example_labels i c0 t0 e
  show ?thesis by (intro conjI)
qed

section \<open>Summary by type\<close>

lemma unique_set: "set (unique xs) = set xs"
  by (simp add: unique_def)

lemma unique_distinct: "distinct (unique xs)"
  by (simp add: unique_def)

lemma type_label_not_Flight: "s @ ''_Cost'' \<noteq> ''Flight''"
proof
  assume "s @ ''_Cost'' = ''Flight''"
  then have "rev (s @ ''_Cost'') = rev ''Flight''" by (rule arg_cong)
  then show False by simp
qed

lemma type_label_not_Total: "s @ ''_Cost'' \<noteq> ''Total_Cost_Per_Flight''"
proof
  assume "s @ ''_Cost'' = ''Total_Cost_Per_Flight''"
  then have "rev (s @ ''_Cost'') = rev ''Total_Cost_Per_Flight''" by (rule arg_cong)
  then show False by simp
qed

lemma is_text_Str: "is_text t \<Longrightarrow> \<exists>s. t = Str s"
  by (cases t) simp_all

lemma type_label_fixed:
  "type_label lib t \<noteq> ''Flight''" "type_label lib t \<noteq> ''Total_Cost_Per_Flight''"
  "''Flight'' \<noteq> type_label lib t" "''Total_Cost_Per_Flight'' \<noteq> type_label lib t"
  using type_label_not_Flight[of "py_str (fmt lib) t"] type_label_not_Total[of "py_str (fmt lib) t"]
  by (simp_all add: type_label_def del: append_eq_Cons_conv)

lemma type_labels_text:
  assumes "list_all is_text ts"
  shows "inj_on (type_label lib) (set ts)" and "NaN \<notin> set ts"
proof -
  have str: "\<exists>s. t = Str s" if "t \<in> set ts" for t
    using assms that by (auto simp: list_all_iff dest: is_text_Str)
  show "inj_on (type_label lib) (set ts)"
  proof (rule inj_onI)
    fix a b assume "a \<in> set ts" "b \<in> set ts" "type_label lib a = type_label lib b"
    then show "a = b" by (auto simp: type_label_def dest!: str)
  qed
  show "NaN \<notin> set ts" using str by auto
qed

lemma summary_row_text:
  assumes "inj_on (type_label lib) (set ts)" and "distinct ts" and "length cols = length ts"
  shows "AList.update ''Total_Cost_Per_Flight'' tot
          (foldl (\<lambda>r (t, v). AList.update (type_label lib t) v r) [(''Flight'', flight)] (zip ts cols))
         = (''Flight'', flight) # zip (map (type_label lib) ts) cols @ [(''Total_Cost_Per_Flight'', tot)]"
proof -
  have d: "distinct (map (type_label lib) ts)"
    using assms(1,2) by (simp add: distinct_map)
  have "type_label lib ` set ts \<inter> fst ` set [(''Flight'', flight)] = {}"
    by (auto simp: type_label_fixed)
  from foldl_update_fresh[OF d this assms(3)]
  have f: "foldl (\<lambda>r (t, v). AList.update (type_label lib t) v r) [(''Flight'', flight)] (zip ts cols)
        = [(''Flight'', flight)] @ zip (map (type_label lib) ts) cols" .
  have "''Total_Cost_Per_Flight'' \<notin> fst ` set ([(''Flight'', flight)] @ zip (map (type_label lib) ts) cols)"
    by (auto simp: type_label_fixed dest!: set_zip_leftD)
  from update_fresh[OF this] show ?thesis by (simp add: f)
qed

lemma summary_row_label:
  assumes "inj_on (type_label lib) (set ts)" and "distinct ts" and "length cols = length ts" and "m < length ts"
  shows "getitem ((''Flight'', flight) # zip (map (type_label lib) ts) cols @
                  [(''Total_Cost_Per_Flight'', tot)]) (type_label lib (ts ! m)) = Inr (cols ! m)"
proof -
  have d: "distinct (map (type_label lib) ts)"
    using assms(1,2) by (simp add: distinct_map)
  have ne: "type_label lib (ts ! m) \<noteq> ''Flight''"
    by (rule type_label_fixed(1))
  have "map_of (zip (map (type_label lib) ts) cols) (map (type_label lib) ts ! m) = Some (cols ! m)"
    by (rule map_of_zip_nth) (use d assms(3,4) in simp_all)
  then have "map_of (zip (map (type_label lib) ts) cols) (type_label lib (ts ! m)) = Some (cols ! m)"
    using assms(4) by simp
  with ne show ?thesis
    by (simp add: getitem_def map_add_def)
qed

text \<open>The columns of one type, read from a row of the matrix.\<close>

lemma columns_of_type:
  assumes "length types = length as" and "length as = length cells"
    and "\<forall>(a, c) \<in> set (zip as cells). getitem row a = Inr c"
  shows "map_result (getitem row) (map snd (filter (\<lambda>(ty, a). P ty) (zip types as))) =
         Inr (map snd (filter (\<lambda>(ty, c). P ty) (zip types cells)))"
  using assms
  by (induction types as cells rule: list_induct3) auto

lemma nansum_numbers:
  "list_all is_number cs \<Longrightarrow> nansum cs = Inr (sum_list (map cell_value cs))"
  by (induction cs rule: nansum.induct) auto

lemma nansum_all_numbers: "nansum cs = Inr s \<Longrightarrow> list_all is_number cs"
  by (induction cs arbitrary: s rule: nansum.induct) (auto split: sum.splits)

lemma sum_of_columns_type:
  assumes "distinct (matrix_labels as)" and "length types = length as" and "length cells = length as"
    and "list_all is_number cells"
  shows "sum_of_columns (acts_of_type types as t)
           ((Str ''Flight'', nm) # zip as cells @ [(Str ''Total_Cost_Per_Flight'', T)]) =
         Inr (Num (sum_list (map (cell_value \<circ> snd) (filter (\<lambda>(ty, c). py_eq ty t) (zip types cells)))))"
proof -
  let ?row = "(Str ''Flight'', nm) # zip as cells @ [(Str ''Total_Cost_Per_Flight'', T)]"
  let ?vs = "map snd (filter (\<lambda>(ty, c). py_eq ty t) (zip types cells))"
  have "\<forall>(a, c) \<in> set (zip as cells). getitem ?row a = Inr c"
  proof (clarify)
    fix a c assume "(a, c) \<in> set (zip as cells)"
    then obtain j where "j < length as" "a = as ! j" "c = cells ! j"
      by (auto simp: in_set_zip)
    with matrix_row_activity[OF assms(1,3)] show "getitem ?row a = Inr c" by simp
  qed
  from columns_of_type[OF assms(2) assms(3)[symmetric] this, of "\<lambda>ty. py_eq ty t"]
  have g: "map_result (getitem ?row) (acts_of_type types as t) = Inr ?vs"
    by (simp add: acts_of_type_def)
  have "set ?vs \<subseteq> set cells"
    by (auto dest: set_zip_rightD)
  with assms(4) have "list_all is_number ?vs"
    by (auto simp: list_all_iff)
  from nansum_numbers[OF this] g show ?thesis
    by (simp add: sum_of_columns_def comp_def)
qed

text \<open>Summing group by group gives the sum of the whole list.\<close>

lemma sum_list_delta:
  fixes c :: real
  shows "distinct ks \<Longrightarrow> k0 \<in> set ks \<Longrightarrow> sum_list (map (\<lambda>k. if k0 = k then c else 0) ks) = c"
proof (induction ks)
  case Nil
  then show ?case by simp
next
  case (Cons k ks)
  show ?case
  proof (cases "k0 = k")
    case True
    with Cons.prems have "k0 \<notin> set ks" by simp
    then have "sum_list (map (\<lambda>k. if k0 = k then c else 0) ks) = 0"
      by (induction ks) auto
    with True show ?thesis by simp
  next
    case False
    with Cons show ?thesis by simp
  qed
qed

lemma sum_by_group:
  fixes f :: "'b \<Rightarrow> real"
  assumes "distinct ks" and "fst ` set xs \<subseteq> set ks"
  shows "sum_list (map (\<lambda>k. sum_list (map (f \<circ> snd) (filter (\<lambda>(k', v). k' = k) xs))) ks) =
         sum_list (map (f \<circ> snd) xs)"
  using assms(2)
proof (induction xs)
  case Nil
  then show ?case by simp
next
  case (Cons p xs)
  obtain k0 v where p: "p = (k0, v)" by (cases p)
  from Cons.prems p have k0: "k0 \<in> set ks" and sub: "fst ` set xs \<subseteq> set ks" by auto
  have "sum_list (map (\<lambda>k. sum_list (map (f \<circ> snd) (filter (\<lambda>(k', v). k' = k) (p # xs)))) ks) =
        sum_list (map (\<lambda>k. (if k0 = k then f v else 0) +
                         sum_list (map (f \<circ> snd) (filter (\<lambda>(k', v). k' = k) xs))) ks)"
    by (rule arg_cong[where f = sum_list], rule map_cong) (auto simp: p)
  also have "\<dots> = sum_list (map (\<lambda>k. if k0 = k then f v else 0) ks) +
        sum_list (map (\<lambda>k. sum_list (map (f \<circ> snd) (filter (\<lambda>(k', v). k' = k) xs))) ks)"
    by (rule sum_list_addf)
  also have "\<dots> = f v + sum_list (map (f \<circ> snd) xs)"
    by (simp only: sum_list_delta[OF assms(1) k0] Cons.IH[OF sub])
  also have "\<dots> = sum_list (map (f \<circ> snd) (p # xs))"
    by (simp add: p)
  finally show ?case .
qed

section \<open>The rounded addition\<close>

lemma pow2_powr: "pow2 e = 2 powr (of_int e)"
proof (cases "0 \<le> e")
  case True
  then have "2 powr (of_int e) = (2::real) powr (real (nat e))" by simp
  also have "\<dots> = 2 ^ nat e" by (simp add: powr_realpow)
  finally show ?thesis using True by (simp add: pow2_def)
next
  case False
  then have "2 powr (of_int e) = (2::real) powr (- real (nat (- e)))" by simp
  also have "\<dots> = 1 / 2 ^ nat (- e)" by (simp add: powr_minus powr_realpow divide_inverse)
  finally show ?thesis using False by (simp add: pow2_def)
qed

lemma pow2_pos: "0 < pow2 e"
  by (simp add: pow2_powr)

lemma pow2_add: "pow2 (a + b) = pow2 a * pow2 b"
  by (simp add: pow2_powr powr_add)

lemma pow2_less_iff: "pow2 a < pow2 b \<longleftrightarrow> a < b"
  by (simp add: pow2_powr)

lemma pow2_nat: "0 \<le> e \<Longrightarrow> pow2 e = 2 ^ nat e"
  by (simp add: pow2_def)

lemma exponent_bounds:
  assumes "x \<noteq> 0"
  shows "pow2 (exponent x) \<le> \<bar>x\<bar>" and "\<bar>x\<bar> < pow2 (exponent x + 1)"
proof -
  have "pow2 (exponent x) \<le> \<bar>x\<bar> \<and> \<bar>x\<bar> < pow2 (exponent x + 1)"
  proof (cases "1 \<le> \<bar>x\<bar>")
    case True
    define n where "n = \<lfloor>\<bar>x\<bar>\<rfloor>"
    have n: "0 < n" using True by (simp add: n_def)
    have e: "exponent x = bitlen n - 1" using True by (simp add: exponent_def n_def)
    from bitlen_bounds[OF n] have lo: "2 ^ nat (bitlen n - 1) \<le> n" and hi: "n < 2 ^ nat (bitlen n)"
      by simp_all
    have b: "0 < bitlen n" using n by (simp add: bitlen_alt_def)
    have "real_of_int (2 ^ nat (bitlen n - 1)) \<le> of_int n" using lo by (simp only: of_int_le_iff)
    also have "\<dots> \<le> \<bar>x\<bar>" by (simp add: n_def)
    finally have 1: "pow2 (exponent x) \<le> \<bar>x\<bar>" using b by (simp add: e pow2_def)
    have "n + 1 \<le> 2 ^ nat (bitlen n)" using hi by simp
    then have "real_of_int (n + 1) \<le> of_int (2 ^ nat (bitlen n))" by (simp only: of_int_le_iff)
    moreover have "\<bar>x\<bar> < of_int (n + 1)" by (simp add: n_def)
    ultimately have "\<bar>x\<bar> < 2 ^ nat (bitlen n)" by simp
    then have 2: "\<bar>x\<bar> < pow2 (exponent x + 1)" using b by (simp add: e pow2_def)
    from 1 2 show ?thesis ..
  next
    case False
    define z where "z = 1 / \<bar>x\<bar>"
    define k where "k = \<lceil>z\<rceil> - 1"
    from False assms have x: "0 < \<bar>x\<bar>" "\<bar>x\<bar> < 1" by simp_all
    then have z: "1 < z" by (simp add: z_def)
    have k: "0 < k" using z by (simp add: k_def)
    have e: "exponent x = - bitlen k" using False by (simp add: exponent_def k_def z_def)
    from bitlen_bounds[OF k] have lo: "2 ^ nat (bitlen k - 1) \<le> k" and hi: "k < 2 ^ nat (bitlen k)"
      by simp_all
    have b: "0 < bitlen k"
      using hi k by (cases "bitlen k \<le> 0") auto
    have "z \<le> of_int (k + 1)" by (simp add: k_def)
    also have "\<dots> \<le> of_int (2 ^ nat (bitlen k))" using hi by (simp only: of_int_le_iff)
    finally have "z \<le> 2 ^ nat (bitlen k)" by simp
    then have "1 / 2 ^ nat (bitlen k) \<le> \<bar>x\<bar>"
      using x by (simp add: z_def field_simps)
    then have 1: "pow2 (exponent x) \<le> \<bar>x\<bar>" using b by (simp add: e pow2_def)
    have "real_of_int (2 ^ nat (bitlen k - 1)) \<le> of_int k" using lo by (simp only: of_int_le_iff)
    also have "of_int k < z" by (simp add: k_def) linarith
    finally have "2 ^ nat (bitlen k - 1) < z" by simp
    then have lt: "\<bar>x\<bar> < 1 / 2 ^ nat (bitlen k - 1)"
      using x by (simp add: z_def field_simps)
    have "pow2 (exponent x + 1) = 1 / 2 ^ nat (bitlen k - 1)"
    proof (cases "bitlen k = 1")
      case True
      then show ?thesis by (simp add: e pow2_def)
    next
      case False
      with b have "1 < bitlen k" by simp
      then show ?thesis by (simp add: e pow2_def)
    qed
    with lt have 2: "\<bar>x\<bar> < pow2 (exponent x + 1)" by simp
    from 1 2 show ?thesis ..
  qed
  then show "pow2 (exponent x) \<le> \<bar>x\<bar>" and "\<bar>x\<bar> < pow2 (exponent x + 1)" by simp_all
qed

lemma exponent_eq:
  assumes "pow2 k \<le> \<bar>x\<bar>" and "\<bar>x\<bar> < pow2 (k + 1)"
  shows "exponent x = k"
proof -
  have x: "x \<noteq> 0" using assms(1) pow2_pos[of k] by auto
  from exponent_bounds[OF x] assms have "pow2 (exponent x) < pow2 (k + 1)" "pow2 k < pow2 (exponent x + 1)"
    by linarith+
  then show ?thesis by (simp add: pow2_less_iff)
qed

lemma rne_error: "\<bar>of_int (rne x) - x\<bar> \<le> 1 / 2"
  unfolding rne_def Let_def by (auto simp: abs_if) linarith+

lemma round64_error: "\<bar>round64 x - x\<bar> \<le> \<bar>x\<bar> / 2 ^ 53"
proof (cases "x = 0")
  case True
  then show ?thesis by (simp add: round64_def)
next
  case False
  define p where "p = pow2 (exponent x - 52)"
  have p: "0 < p" by (simp add: p_def pow2_pos)
  have "pow2 (exponent x) = pow2 (exponent x - 52) * pow2 52"
    using pow2_add[of "exponent x - 52" 52] by simp
  then have pe: "pow2 (exponent x) = p * 2 ^ 52" by (simp add: p_def pow2_def)
  have "round64 x - x = (of_int (rne (x / p)) - x / p) * p"
    using False p by (simp add: round64_def p_def[symmetric] algebra_simps)
  then have "\<bar>round64 x - x\<bar> = \<bar>of_int (rne (x / p)) - x / p\<bar> * p"
    using p by (simp add: abs_mult)
  also have "\<dots> \<le> 1 / 2 * p"
    using rne_error[of "x / p"] p by (intro mult_right_mono) simp_all
  also have "\<dots> = pow2 (exponent x) / 2 ^ 53" by (simp add: pe)
  also have "\<dots> \<le> \<bar>x\<bar> / 2 ^ 53"
    using exponent_bounds(1)[OF False] by (simp add: divide_right_mono)
  finally show ?thesis .
qed

lemma fadd64_error: "\<bar>fadd64 a b - (a + b)\<bar> \<le> 1 / 2 ^ 53 * \<bar>a + b\<bar>"
  using round64_error[of "a + b"] by (simp add: fadd64_def)

lemma round64_eval:
  assumes "pow2 k \<le> \<bar>x\<bar>" and "\<bar>x\<bar> < pow2 (k + 1)" and "rne (x / pow2 (k - 52)) = m"
  shows "round64 x = of_int m * pow2 (k - 52)"
proof -
  have "x \<noteq> 0" using assms(1) pow2_pos[of k] by auto
  then show ?thesis
    by (simp add: round64_def exponent_eq[OF assms(1,2)] assms(3))
qed

lemma rne_int: "rne (of_int n) = n"
  by (simp add: rne_def)

lemma rne_near: "\<bar>x - of_int n\<bar> < 1 / 2 \<Longrightarrow> rne x = n"
  unfolding rne_def Let_def by (auto simp: abs_if split: if_splits) linarith+

lemma rne_tie_odd: "x = of_int n + 1 / 2 \<Longrightarrow> odd n \<Longrightarrow> rne x = n + 1"
proof -
  assume x: "x = of_int n + 1 / 2" and "odd n"
  have "\<lfloor>x\<rfloor> = n" unfolding x by linarith
  with x \<open>odd n\<close> show ?thesis by (simp add: rne_def Let_def)
qed

section \<open>The additions of the rounding example\<close>

lemma fadd64_0_1: "fadd64 0 float_0_1 = float_0_1"
proof -
  have "rne (float_0_1 / pow2 (- 4 - 52)) = 7205759403792794"
    using rne_int[of 7205759403792794] by (simp add: float_0_1_def pow2_def)
  from round64_eval[OF _ _ this] show ?thesis
    by (simp add: fadd64_def float_0_1_def pow2_def)
qed

lemma fadd64_0_2: "fadd64 0 float_0_2 = float_0_2"
proof -
  have "rne (float_0_2 / pow2 (- 3 - 52)) = 7205759403792794"
    using rne_int[of 7205759403792794] by (simp add: float_0_2_def pow2_def)
  from round64_eval[OF _ _ this] show ?thesis
    by (simp add: fadd64_def float_0_2_def pow2_def)
qed

lemma fadd64_1_2: "fadd64 float_0_1 float_0_2 = float_0_3_up"
proof -
  have "rne ((float_0_1 + float_0_2) / pow2 (- 2 - 52)) = 5404319552844596"
    using rne_tie_odd[of "(float_0_1 + float_0_2) / pow2 (- 2 - 52)" 5404319552844595]
    by (simp add: float_0_1_def float_0_2_def pow2_def)
  from round64_eval[OF _ _ this] show ?thesis
    by (simp add: fadd64_def float_0_1_def float_0_2_def float_0_3_up_def pow2_def)
qed

lemma fadd64_3_3: "fadd64 float_0_3_up float_0_3 = float_0_6_up"
proof -
  have "rne ((float_0_3_up + float_0_3) / pow2 (- 1 - 52)) = 5404319552844596"
    using rne_tie_odd[of "(float_0_3_up + float_0_3) / pow2 (- 1 - 52)" 5404319552844595]
    by (simp add: float_0_3_up_def float_0_3_def pow2_def)
  from round64_eval[OF _ _ this] show ?thesis
    by (simp add: fadd64_def float_0_3_up_def float_0_3_def float_0_6_up_def pow2_def)
qed

lemma fadd64_2_3: "fadd64 float_0_2 float_0_3 = 1 / 2"
proof -
  have "rne ((float_0_2 + float_0_3) / pow2 (- 1 - 52)) = 4503599627370496"
    using rne_int[of 4503599627370496] by (simp add: float_0_2_def float_0_3_def pow2_def)
  from round64_eval[OF _ _ this] show ?thesis
    by (simp add: fadd64_def float_0_2_def float_0_3_def pow2_def)
qed

lemma fadd64_1_5: "fadd64 float_0_1 (1 / 2) = float_0_6"
proof -
  have "rne ((float_0_1 + 1 / 2) / pow2 (- 1 - 52)) = 5404319552844595"
    by (rule rne_near) (simp add: float_0_1_def pow2_def)
  from round64_eval[OF _ _ this] show ?thesis
    by (simp add: fadd64_def float_0_1_def float_0_6_def pow2_def)
qed

section \<open>Sums with a given addition\<close>

text \<open>With the exact addition the sums and the tables are those of the pipeline.\<close>

lemma nansum_from_plus:
  "nansum_from (+) s cs = (case nansum cs of Inl e \<Rightarrow> Inl e | Inr t \<Rightarrow> Inr (s + t))"
  by (induction cs arbitrary: s rule: nansum.induct) (auto split: sum.splits)

lemma nansum_with_plus: "nansum_with (+) cs = nansum cs"
  by (simp add: nansum_with_def nansum_from_plus split: sum.splits)

lemma row_total_with_plus: "row_total_with (+) = row_total"
  by (rule ext) (simp add: row_total_with_def row_total_def nansum_with_plus)

lemma allocation_matrix_with_plus: "allocation_matrix_with (+) = allocation_matrix"
  by (intro ext)
    (simp add: allocation_matrix_with_def allocation_matrix_def allocate_with_def allocate_def
      row_total_with_plus split: sum.splits)

lemma sum_of_columns_with_plus: "sum_of_columns_with (+) = sum_of_columns"
  by (intro ext)
    (simp add: sum_of_columns_with_def sum_of_columns_def nansum_with_plus split: sum.splits)

lemma summary_loop_with_plus:
  "summary_loop_with (+) lib tys as costs ts summ = summary_loop lib tys as costs ts summ"
  by (induction ts arbitrary: summ) (simp_all add: sum_of_columns_with_plus split: sum.splits)

lemma summary_table_with_plus: "summary_table_with (+) = summary_table"
  by (intro ext)
    (simp add: summary_table_with_def summary_table_def summary_loop_with_plus split: sum.splits)

lemma pipeline_with_plus: "pipeline_with (+) = pipeline"
  by (intro ext)
    (simp add: pipeline_with_def pipeline_def allocation_matrix_with_plus summary_table_with_plus
      split: sum.splits)

text \<open>A sum that succeeds is the sum of the values of its cells, all of them numbers.\<close>

lemma nansum_from_value:
  "nansum_from add s cs = Inr t \<Longrightarrow> t = foldl add s (map cell_value cs) \<and> list_all is_number cs"
  by (induction add s cs arbitrary: t rule: nansum_from.induct) auto

lemma nansum_from_numbers:
  "list_all is_number cs \<Longrightarrow> nansum_from add s cs = Inr (foldl add s (map cell_value cs))"
  by (induction add s cs rule: nansum_from.induct) auto

lemma nansum_with_value:
  "nansum_with add cs = Inr t \<Longrightarrow> t = sum_with add (map cell_value cs)"
  by (auto simp: nansum_with_def sum_with_def dest: nansum_from_value)

lemma nansum_with_all_numbers: "nansum_with add cs = Inr t \<Longrightarrow> list_all is_number cs"
  by (auto simp: nansum_with_def dest: nansum_from_value)

lemma nansum_with_numbers:
  "list_all is_number cs \<Longrightarrow> nansum_with add cs = Inr (sum_with add (map cell_value cs))"
  by (simp add: nansum_with_def sum_with_def nansum_from_numbers)

section \<open>Structure of the tables made with a given addition\<close>

lemma row_total_with_row:
  assumes "row_total_with add ((Str ''Flight'', nm) # zip as vs) = Inr tot"
    and "Str ''Flight'' \<notin> set as" and "length vs = length as"
  shows "\<exists>s. nansum_with add vs = Inr s \<and> tot = Num s"
proof -
  have "Str ''Flight'' \<notin> fst ` set (zip as vs)"
    using assms(2) by (auto dest: set_zip_leftD)
  then have "AList.delete (Str ''Flight'') ((Str ''Flight'', nm) # zip as vs) = zip as vs"
    by (simp add: delete_fresh)
  with assms(1,3) show ?thesis
    by (auto simp: row_total_with_def split: sum.splits)
qed

lemma allocation_matrix_with_row:
  assumes "allocation_matrix_with add lib cost event_df = Inr costs"
    and "column cost ''Activity'' = Inr as" and "distinct (matrix_labels as)"
  shows "length costs = length (events_clean event_df)"
    and "i < length costs \<Longrightarrow>
      \<exists>c name rest vs s. events_clean event_df ! i = (c, name) # rest \<and>
        map_result (alloc_cell (events_clean event_df ! i)) cost = Inr vs \<and>
        nansum_with add vs = Inr s \<and>
        costs ! i = (Str ''Flight'', Str (py_str (fmt lib) name)) # zip as vs @
                    [(Str ''Total_Cost_Per_Flight'', Num s)]"
proof -
  from assms(1) obtain costs_data totals where
    cd: "map_result (flight_costs lib cost) (events_clean event_df) = Inr costs_data" and
    tot: "map_result (row_total_with add) costs_data = Inr totals" and
    costs: "costs = set_column costs_data (Str ''Total_Cost_Per_Flight'') totals"
    by (auto simp: allocation_matrix_with_def allocate_with_def split: sum.splits if_splits)
  have l1: "length costs_data = length (events_clean event_df)"
    using cd by (rule map_result_length)
  have l2: "length totals = length costs_data"
    using tot by (rule map_result_length)
  show len: "length costs = length (events_clean event_df)"
    by (simp add: costs set_column_length l1 l2)
  assume i: "i < length costs"
  then have i1: "i < length (events_clean event_df)" by (simp add: len)
  have fc: "flight_costs lib cost (events_clean event_df ! i) = Inr (costs_data ! i)"
    using cd i1 by (rule map_result_nth)
  from flight_costs_row[OF fc assms(2,3)] obtain c name rest vs where
    fr: "events_clean event_df ! i = (c, name) # rest" and
    vs: "map_result (alloc_cell (events_clean event_df ! i)) cost = Inr vs" and
    row: "costs_data ! i = (Str ''Flight'', Str (py_str (fmt lib) name)) # zip as vs"
    by blast
  have lv: "length vs = length as"
    using map_result_length[OF vs] column_length[OF assms(2)] by simp
  have "row_total_with add (costs_data ! i) = Inr (totals ! i)"
    using tot i1 l1 by (auto dest: map_result_nth)
  from row_total_with_row[OF this[unfolded row] matrix_labels_distinct(2)[OF assms(3)] lv]
  obtain s where s: "nansum_with add vs = Inr s" and t: "totals ! i = Num s" by blast
  have "Str ''Total_Cost_Per_Flight'' \<notin> fst ` set (costs_data ! i)"
    using matrix_labels_distinct(3)[OF assms(3)] by (auto simp: row dest: set_zip_leftD)
  then have "AList.update (Str ''Total_Cost_Per_Flight'') (Num s) (costs_data ! i) =
             costs_data ! i @ [(Str ''Total_Cost_Per_Flight'', Num s)]"
    by (rule update_fresh)
  moreover have "costs ! i = AList.update (Str ''Total_Cost_Per_Flight'') (totals ! i) (costs_data ! i)"
    using i1 l1 l2 by (simp add: costs set_column_nth)
  ultimately have "costs ! i = (Str ''Flight'', Str (py_str (fmt lib) name)) # zip as vs @
                    [(Str ''Total_Cost_Per_Flight'', Num s)]"
    by (simp add: t row)
  with fr vs s show "\<exists>c name rest vs s. events_clean event_df ! i = (c, name) # rest \<and>
        map_result (alloc_cell (events_clean event_df ! i)) cost = Inr vs \<and>
        nansum_with add vs = Inr s \<and>
        costs ! i = (Str ''Flight'', Str (py_str (fmt lib) name)) # zip as vs @
                    [(Str ''Total_Cost_Per_Flight'', Num s)]"
    by blast
qed

lemma summary_loop_with_rows:
  assumes "summary_loop_with add lib tys as costs ts summ = Inr summ'"
    and "length summ = length costs"
  shows "length summ' = length costs \<and>
         (\<forall>i < length costs. \<exists>cols.
            map_result (\<lambda>t. sum_of_columns_with add (acts_of_type tys as t) (costs ! i)) ts = Inr cols \<and>
            summ' ! i = foldl (\<lambda>r (t, v). AList.update (type_label lib t) v r) (summ ! i) (zip ts cols))"
  using assms
proof (induction ts arbitrary: summ)
  case Nil
  then show ?case by simp
next
  case (Cons t ts)
  from Cons.prems(1) obtain col where
    col: "map_result (sum_of_columns_with add (acts_of_type tys as t)) costs = Inr col" and
    rest: "summary_loop_with add lib tys as costs ts (set_column summ (type_label lib t) col) = Inr summ'"
    by (auto split: sum.splits)
  have lc: "length col = length costs" using col by (rule map_result_length)
  have l1: "length (set_column summ (type_label lib t) col) = length costs"
    using lc Cons.prems(2) by (simp add: set_column_length)
  from Cons.IH[OF rest l1] have len: "length summ' = length costs" and
    ih: "\<forall>i < length costs. \<exists>cols.
            map_result (\<lambda>t. sum_of_columns_with add (acts_of_type tys as t) (costs ! i)) ts = Inr cols \<and>
            summ' ! i = foldl (\<lambda>r (t, v). AList.update (type_label lib t) v r)
                          (set_column summ (type_label lib t) col ! i) (zip ts cols)"
    by blast+
  have "\<exists>cols. map_result (\<lambda>t. sum_of_columns_with add (acts_of_type tys as t) (costs ! i)) (t # ts) = Inr cols \<and>
            summ' ! i = foldl (\<lambda>r (t, v). AList.update (type_label lib t) v r) (summ ! i) (zip (t # ts) cols)"
    if i: "i < length costs" for i
  proof -
    from ih i obtain cols where
      c: "map_result (\<lambda>t. sum_of_columns_with add (acts_of_type tys as t) (costs ! i)) ts = Inr cols" and
      s: "summ' ! i = foldl (\<lambda>r (t, v). AList.update (type_label lib t) v r)
                          (set_column summ (type_label lib t) col ! i) (zip ts cols)"
      by blast
    have h: "sum_of_columns_with add (acts_of_type tys as t) (costs ! i) = Inr (col ! i)"
      using col i by (rule map_result_nth)
    have u: "set_column summ (type_label lib t) col ! i = AList.update (type_label lib t) (col ! i) (summ ! i)"
      using i lc Cons.prems(2) by (simp add: set_column_nth)
    show ?thesis
      by (rule exI[of _ "col ! i # cols"]) (simp add: h c s u)
  qed
  with len show ?case by blast
qed

lemma summary_table_with_row:
  assumes "summary_table_with add lib rated costs = Inr summ"
  shows "length summ = length costs"
    and "i < length costs \<Longrightarrow>
      \<exists>flight types activities cols tot.
        getitem (costs ! i) (Str ''Flight'') = Inr flight \<and>
        column rated ''Type'' = Inr types \<and>
        column rated ''Activity'' = Inr activities \<and>
        map_result (\<lambda>t. sum_of_columns_with add (acts_of_type types activities t) (costs ! i))
          (unique types) = Inr cols \<and>
        getitem (costs ! i) (Str ''Total_Cost_Per_Flight'') = Inr tot \<and>
        summ ! i = AList.update ''Total_Cost_Per_Flight'' tot
          (foldl (\<lambda>r (t, v). AList.update (type_label lib t) v r) [(''Flight'', flight)]
             (zip (unique types) cols))"
proof -
  from assms obtain flights types activities summ0 totals where
    fl: "column costs (Str ''Flight'') = Inr flights" and
    ty: "column rated ''Type'' = Inr types" and
    ac: "column rated ''Activity'' = Inr activities" and
    loop: "summary_loop_with add lib types activities costs (unique types)
             (map (\<lambda>f. [(''Flight'', f)]) flights) = Inr summ0" and
    tot: "column costs (Str ''Total_Cost_Per_Flight'') = Inr totals" and
    summ: "summ = set_column summ0 ''Total_Cost_Per_Flight'' totals"
    by (auto simp: summary_table_with_def split: sum.splits)
  have lf: "length flights = length costs" using fl by (rule column_length)
  have lt: "length totals = length costs" using tot by (rule column_length)
  from summary_loop_with_rows[OF loop] lf have l0: "length summ0 = length costs" and
    rows: "\<forall>i < length costs. \<exists>cols.
            map_result (\<lambda>t. sum_of_columns_with add (acts_of_type types activities t) (costs ! i))
              (unique types) = Inr cols \<and>
            summ0 ! i = foldl (\<lambda>r (t, v). AList.update (type_label lib t) v r)
                          (map (\<lambda>f. [(''Flight'', f)]) flights ! i) (zip (unique types) cols)"
    by simp_all
  show len: "length summ = length costs"
    by (simp add: summ set_column_length l0 lt)
  assume i: "i < length costs"
  from rows i obtain cols where
    c: "map_result (\<lambda>t. sum_of_columns_with add (acts_of_type types activities t) (costs ! i))
          (unique types) = Inr cols" and
    s0: "summ0 ! i = foldl (\<lambda>r (t, v). AList.update (type_label lib t) v r)
                          (map (\<lambda>f. [(''Flight'', f)]) flights ! i) (zip (unique types) cols)"
    by blast
  have f: "getitem (costs ! i) (Str ''Flight'') = Inr (flights ! i)"
    using fl i by (rule column_nth)
  have t: "getitem (costs ! i) (Str ''Total_Cost_Per_Flight'') = Inr (totals ! i)"
    using tot i by (rule column_nth)
  have "summ ! i = AList.update ''Total_Cost_Per_Flight'' (totals ! i) (summ0 ! i)"
    using i l0 lt by (simp add: summ set_column_nth)
  with s0 i lf have "summ ! i = AList.update ''Total_Cost_Per_Flight'' (totals ! i)
          (foldl (\<lambda>r (t, v). AList.update (type_label lib t) v r) [(''Flight'', flights ! i)]
             (zip (unique types) cols))"
    by simp
  with f ty ac c t show "\<exists>flight types activities cols tot.
        getitem (costs ! i) (Str ''Flight'') = Inr flight \<and>
        column rated ''Type'' = Inr types \<and>
        column rated ''Activity'' = Inr activities \<and>
        map_result (\<lambda>t. sum_of_columns_with add (acts_of_type types activities t) (costs ! i))
          (unique types) = Inr cols \<and>
        getitem (costs ! i) (Str ''Total_Cost_Per_Flight'') = Inr tot \<and>
        summ ! i = AList.update ''Total_Cost_Per_Flight'' tot
          (foldl (\<lambda>r (t, v). AList.update (type_label lib t) v r) [(''Flight'', flight)]
             (zip (unique types) cols))"
    by blast
qed

lemma sum_of_columns_with_type:
  assumes "distinct (matrix_labels as)" and "length types = length as" and "length cells = length as"
    and "list_all is_number cells"
  shows "sum_of_columns_with add (acts_of_type types as t)
           ((Str ''Flight'', nm) # zip as cells @ [(Str ''Total_Cost_Per_Flight'', T)]) =
         Inr (Num (sum_with add
           (map (cell_value \<circ> snd) (filter (\<lambda>(ty, c). py_eq ty t) (zip types cells)))))"
proof -
  let ?row = "(Str ''Flight'', nm) # zip as cells @ [(Str ''Total_Cost_Per_Flight'', T)]"
  let ?vs = "map snd (filter (\<lambda>(ty, c). py_eq ty t) (zip types cells))"
  have "\<forall>(a, c) \<in> set (zip as cells). getitem ?row a = Inr c"
  proof (clarify)
    fix a c assume "(a, c) \<in> set (zip as cells)"
    then obtain j where "j < length as" "a = as ! j" "c = cells ! j"
      by (auto simp: in_set_zip)
    with matrix_row_activity[OF assms(1,3)] show "getitem ?row a = Inr c" by simp
  qed
  from columns_of_type[OF assms(2) assms(3)[symmetric] this, of "\<lambda>ty. py_eq ty t"]
  have g: "map_result (getitem ?row) (acts_of_type types as t) = Inr ?vs"
    by (simp add: acts_of_type_def)
  have "set ?vs \<subseteq> set cells"
    by (auto dest: set_zip_rightD)
  with assms(4) have "list_all is_number ?vs"
    by (auto simp: list_all_iff)
  from nansum_with_numbers[OF this] g show ?thesis
    by (simp add: sum_of_columns_with_def comp_def)
qed

section \<open>The rounding error of a sum\<close>

text \<open>
  An addition whose result is off by at most the fraction \<open>u\<close> of the exact sum: after
  \<open>n\<close> additions the error is at most \<open>(1 + u) ^ n - 1\<close> times the sum of the absolute
  values.
\<close>

lemma sum_list_map_abs_nonneg: "0 \<le> sum_list (map (\<lambda>x. \<bar>h x :: real\<bar>) xs)"
  by (rule sum_list_nonneg) auto

lemma foldl_add_error:
  fixes add :: "real \<Rightarrow> real \<Rightarrow> real"
  assumes u: "0 \<le> u" and add: "\<forall>a b. \<bar>add a b - (a + b)\<bar> \<le> u * \<bar>a + b\<bar>"
  shows "\<bar>foldl add s xs - (s + sum_list xs)\<bar> \<le>
         ((1 + u) ^ length xs - 1) * (\<bar>s\<bar> + sum_list (map abs xs))"
proof (induction xs arbitrary: s)
  case Nil
  then show ?case by simp
next
  case (Cons x xs)
  define s' where "s' = add s x"
  define g where "g = (1 + u) ^ length xs"
  define A where "A = \<bar>s\<bar> + \<bar>x\<bar>"
  define B where "B = sum_list (map abs xs)"
  have g: "1 \<le> g" using u by (simp add: g_def)
  have B: "0 \<le> B" using sum_list_map_abs_nonneg[of "\<lambda>x. x" xs] by (simp add: B_def)
  have A: "0 \<le> A" by (simp add: A_def)
  have e1: "\<bar>s' - (s + x)\<bar> \<le> u * A"
  proof -
    have "\<bar>s' - (s + x)\<bar> \<le> u * \<bar>s + x\<bar>" using add by (simp add: s'_def)
    also have "\<dots> \<le> u * A" using u by (intro mult_left_mono) (simp_all add: A_def)
    finally show ?thesis .
  qed
  have s'_le: "\<bar>s'\<bar> \<le> (1 + u) * A"
  proof -
    have "\<bar>s'\<bar> \<le> \<bar>s + x\<bar> + \<bar>s' - (s + x)\<bar>" by simp
    also have "\<dots> \<le> A + u * A" using e1 by (simp add: A_def)
    finally show ?thesis by (simp add: algebra_simps)
  qed
  have ih: "\<bar>foldl add s' xs - (s' + sum_list xs)\<bar> \<le> (g - 1) * (\<bar>s'\<bar> + B)"
    using Cons.IH[of s'] by (simp add: g_def B_def)
  have "(g - 1) * (\<bar>s'\<bar> + B) \<le> (g - 1) * ((1 + u) * A + B)"
    using g s'_le by (intro mult_left_mono) simp_all
  with ih have ih': "\<bar>foldl add s' xs - (s' + sum_list xs)\<bar> \<le> (g - 1) * ((1 + u) * A + B)"
    by linarith
  have "\<bar>foldl add s' xs - (s + x + sum_list xs)\<bar> \<le>
        \<bar>foldl add s' xs - (s' + sum_list xs)\<bar> + \<bar>s' - (s + x)\<bar>"
    by simp
  also have "\<dots> \<le> (g - 1) * ((1 + u) * A + B) + u * A"
    using ih' e1 by linarith
  also have "\<dots> = (g * (1 + u) - 1) * (A + B) - B * g * u"
    by (simp add: algebra_simps)
  also have "\<dots> \<le> (g * (1 + u) - 1) * (A + B)"
  proof -
    have "0 \<le> B * g * u" using B g u by simp
    then show ?thesis by linarith
  qed
  finally have "\<bar>foldl add s' xs - (s + x + sum_list xs)\<bar> \<le> (g * (1 + u) - 1) * (A + B)" .
  then show ?case
    by (simp add: s'_def g_def A_def B_def algebra_simps)
qed

lemma sum_with_error:
  fixes add :: "real \<Rightarrow> real \<Rightarrow> real"
  assumes "0 \<le> u" and "\<forall>a b. \<bar>add a b - (a + b)\<bar> \<le> u * \<bar>a + b\<bar>"
  shows "\<bar>sum_with add xs - sum_list xs\<bar> \<le> ((1 + u) ^ length xs - 1) * sum_list (map abs xs)"
  using foldl_add_error[OF assms, of 0 xs] by (simp add: sum_with_def)

lemma sum_list_abs_diff:
  fixes f g h :: "'a \<Rightarrow> real"
  assumes "\<And>k. k \<in> set ks \<Longrightarrow> \<bar>f k - g k\<bar> \<le> h k"
  shows "\<bar>sum_list (map f ks) - sum_list (map g ks)\<bar> \<le> sum_list (map h ks)"
  using assms
proof (induction ks)
  case Nil
  then show ?case by simp
next
  case (Cons k ks)
  have 1: "\<bar>f k - g k\<bar> \<le> h k" using Cons.prems by simp
  have 2: "\<bar>sum_list (map f ks) - sum_list (map g ks)\<bar> \<le> sum_list (map h ks)"
    using Cons.IH Cons.prems by simp
  from 1 2 show ?case by simp
qed

lemma sum_list_abs_le:
  fixes f h :: "'a \<Rightarrow> real"
  assumes "\<And>k. k \<in> set ks \<Longrightarrow> \<bar>f k\<bar> \<le> h k"
  shows "sum_list (map (abs \<circ> f) ks) \<le> sum_list (map h ks)"
  using assms by (induction ks) (simp_all add: add_mono)

text \<open>
  Sums by group against the sum of the whole list: the exact sum of the group sums, and
  the sum of the group sums made with the same addition.
\<close>

lemma grouped_sums_error:
  fixes add :: "real \<Rightarrow> real \<Rightarrow> real" and f :: "'b \<Rightarrow> real"
  assumes u: "0 \<le> u" and add: "\<forall>a b. \<bar>add a b - (a + b)\<bar> \<le> u * \<bar>a + b\<bar>"
    and ks: "distinct ks" and sub: "fst ` set xs \<subseteq> set ks"
  shows "\<bar>sum_list (map (\<lambda>k. sum_with add (map (f \<circ> snd) (filter (\<lambda>(k', v). k' = k) xs))) ks) -
           sum_with add (map (f \<circ> snd) xs)\<bar> \<le>
         2 * ((1 + u) ^ length xs - 1) * sum_list (map (abs \<circ> f \<circ> snd) xs)"
    and "\<bar>sum_with add (map (\<lambda>k. sum_with add (map (f \<circ> snd) (filter (\<lambda>(k', v). k' = k) xs))) ks) -
           sum_with add (map (f \<circ> snd) xs)\<bar> \<le>
         (((1 + u) ^ length ks - 1) * (1 + u) ^ length xs + 2 * ((1 + u) ^ length xs - 1)) *
           sum_list (map (abs \<circ> f \<circ> snd) xs)"
proof -
  define G where "G k = map (f \<circ> snd) (filter (\<lambda>(k', v). k' = k) xs)" for k
  define col where "col k = sum_with add (G k)" for k
  define E where "E = (1 + u) ^ length xs"
  define A where "A = sum_list (map (abs \<circ> f \<circ> snd) xs)"
  have E: "1 \<le> E" using u by (simp add: E_def)
  have A: "0 \<le> A" using sum_list_map_abs_nonneg[of "f \<circ> snd" xs] by (simp add: A_def comp_def)
  have absG: "sum_list (map abs (G k)) = sum_list (map ((abs \<circ> f) \<circ> snd) (filter (\<lambda>(k', v). k' = k) xs))" for k
    by (simp add: G_def comp_def)
  have gA: "sum_list (map (\<lambda>k. sum_list (map abs (G k))) ks) = A"
    using sum_by_group[OF ks sub, of "abs \<circ> f"] by (simp add: absG A_def comp_def)
  have gS: "sum_list (map (\<lambda>k. sum_list (G k)) ks) = sum_list (map (f \<circ> snd) xs)"
    using sum_by_group[OF ks sub, of f] by (simp add: G_def)
  have lenG: "length (G k) \<le> length xs" for k
    by (simp add: G_def)
  have pw: "(1 + u) ^ length (G k) \<le> E" for k
    unfolding E_def using u lenG[of k] by (intro power_increasing) simp_all
  have colk: "\<bar>col k - sum_list (G k)\<bar> \<le> (E - 1) * sum_list (map abs (G k))" for k
  proof -
    have "\<bar>col k - sum_list (G k)\<bar> \<le> ((1 + u) ^ length (G k) - 1) * sum_list (map abs (G k))"
      unfolding col_def by (rule sum_with_error[OF u add])
    also have "\<dots> \<le> (E - 1) * sum_list (map abs (G k))"
      using pw[of k] sum_list_map_abs_nonneg[of "\<lambda>x. x" "G k"]
      by (intro mult_right_mono) simp_all
    finally show ?thesis .
  qed
  have "\<bar>sum_list (map col ks) - sum_list (map (\<lambda>k. sum_list (G k)) ks)\<bar> \<le>
        sum_list (map (\<lambda>k. (E - 1) * sum_list (map abs (G k))) ks)"
    by (rule sum_list_abs_diff) (rule colk)
  also have "\<dots> = (E - 1) * A"
    by (simp add: sum_list_const_mult gA)
  finally have d1: "\<bar>sum_list (map col ks) - sum_list (map (f \<circ> snd) xs)\<bar> \<le> (E - 1) * A"
    by (simp add: gS)
  have d2: "\<bar>sum_with add (map (f \<circ> snd) xs) - sum_list (map (f \<circ> snd) xs)\<bar> \<le> (E - 1) * A"
    using sum_with_error[OF u add, of "map (f \<circ> snd) xs"] by (simp add: E_def A_def comp_def)
  from d1 d2 have first: "\<bar>sum_list (map col ks) - sum_with add (map (f \<circ> snd) xs)\<bar> \<le> 2 * (E - 1) * A"
    by linarith
  have abscol: "\<bar>col k\<bar> \<le> E * sum_list (map abs (G k))" for k
  proof -
    have "\<bar>sum_list (G k)\<bar> \<le> sum_list (map abs (G k))" by (rule sum_list_abs)
    with colk[of k] have "\<bar>col k\<bar> \<le> sum_list (map abs (G k)) + (E - 1) * sum_list (map abs (G k))"
      by linarith
    then show ?thesis by (simp add: algebra_simps)
  qed
  have "sum_list (map (abs \<circ> col) ks) \<le> sum_list (map (\<lambda>k. E * sum_list (map abs (G k))) ks)"
    by (rule sum_list_abs_le) (rule abscol)
  also have "\<dots> = E * A" by (simp add: sum_list_const_mult gA)
  finally have sabs: "sum_list (map abs (map col ks)) \<le> E * A" by (simp add: comp_def)
  have "\<bar>sum_with add (map col ks) - sum_list (map col ks)\<bar> \<le>
        ((1 + u) ^ length ks - 1) * sum_list (map abs (map col ks))"
    using sum_with_error[OF u add, of "map col ks"] by simp
  also have "\<dots> \<le> ((1 + u) ^ length ks - 1) * (E * A)"
    using sabs u by (intro mult_left_mono) simp_all
  finally have d3: "\<bar>sum_with add (map col ks) - sum_list (map col ks)\<bar> \<le>
        ((1 + u) ^ length ks - 1) * E * A"
    by (simp add: mult.assoc)
  from d3 first have second: "\<bar>sum_with add (map col ks) - sum_with add (map (f \<circ> snd) xs)\<bar> \<le>
        (((1 + u) ^ length ks - 1) * E + 2 * (E - 1)) * A"
    by (simp add: algebra_simps)
  from first show "\<bar>sum_list (map (\<lambda>k. sum_with add (map (f \<circ> snd) (filter (\<lambda>(k', v). k' = k) xs))) ks) -
           sum_with add (map (f \<circ> snd) xs)\<bar> \<le>
         2 * ((1 + u) ^ length xs - 1) * sum_list (map (abs \<circ> f \<circ> snd) xs)"
    by (simp add: col_def[abs_def] G_def E_def A_def)
  from second show "\<bar>sum_with add (map (\<lambda>k. sum_with add (map (f \<circ> snd) (filter (\<lambda>(k', v). k' = k) xs))) ks) -
           sum_with add (map (f \<circ> snd) xs)\<bar> \<le>
         (((1 + u) ^ length ks - 1) * (1 + u) ^ length xs + 2 * ((1 + u) ^ length xs - 1)) *
           sum_list (map (abs \<circ> f \<circ> snd) xs)"
    by (simp add: col_def[abs_def] G_def E_def A_def)
qed

section \<open>Summary by type and total cost per flight\<close>

lemma map_result_map:
  "(\<And>x. x \<in> set xs \<Longrightarrow> f x = Inr (h x)) \<Longrightarrow> map_result f xs = Inr (map h xs)"
  by (induction xs) auto

lemma py_eq_notna: "t \<noteq> NaN \<Longrightarrow> py_eq ty t = (ty = t)"
  by (auto simp: py_eq_def)

lemma pipeline_with_Inr:
  assumes "pipeline_with add lib cost_df event_df = Inr out"
  shows "rated_cost_pool lib cost_df event_df = Inr (RatedCostPool out)"
    and "allocation_matrix_with add lib (RatedCostPool out) event_df = Inr (AllocationMatrix out)"
    and "summary_table_with add lib (RatedCostPool out) (AllocationMatrix out) = Inr (Summary out)"
    and "time_periods lib event_df = Inr (TimePeriod out)"
  using assms unfolding pipeline_with_def
  by (auto split: sum.splits)

lemma summary_with_total:
  assumes "summary_table_with add lib rated costs = Inr summ" and "i < length costs"
  shows "getitem (summ ! i) ''Total_Cost_Per_Flight'' =
         getitem (costs ! i) (Str ''Total_Cost_Per_Flight'')"
proof -
  from summary_table_with_row(2)[OF assms] obtain tot r where
    "getitem (costs ! i) (Str ''Total_Cost_Per_Flight'') = Inr tot"
    "summ ! i = AList.update ''Total_Cost_Per_Flight'' tot r"
    by blast
  then show ?thesis by (simp add: getitem_update)
qed

subsection \<open>The rounding example\<close>

lemmas rounding_defs =
  example_lib_def rounding_cost_def rounding_events_def rounding_rated_def rounding_matrix_def
  rounding_summary_def rounding_outputs_def rounding_activities_def rounding_types_def

lemma rounding_rated_cost_pool:
  "rated_cost_pool example_lib rounding_cost rounding_events = Inr rounding_rated"
  by (simp add: rated_cost_pool_def rounding_defs stage_defs)

lemma rounding_allocation_matrix:
  "allocation_matrix_with fadd64 example_lib rounding_rated rounding_events = Inr rounding_matrix"
  by (simp add: allocation_matrix_with_def allocate_with_def row_total_with_def nansum_with_def
      rounding_defs stage_defs fadd64_0_1 fadd64_1_2 fadd64_3_3)

lemma rounding_summary_table:
  "summary_table_with fadd64 example_lib rounding_rated rounding_matrix = Inr rounding_summary"
  by (simp add: summary_table_with_def sum_of_columns_with_def nansum_with_def
      rounding_defs stage_defs fadd64_0_1 fadd64_0_2 fadd64_2_3)

lemma rounding_time_periods:
  "time_periods example_lib rounding_events = Inr [''Morning'']"
  by (simp add: time_periods_def rounding_defs stage_defs)

lemma rounding_pipeline:
  "pipeline_with fadd64 example_lib rounding_cost rounding_events = Inr rounding_outputs"
  by (simp add: pipeline_with_def rounding_rated_cost_pool rounding_allocation_matrix
      rounding_summary_table rounding_time_periods rounding_outputs_def)

lemma rounding_activity_column:
  "column (RatedCostPool rounding_outputs) ''Activity'' = Inr rounding_activities"
  by (simp add: rounding_outputs_def rounding_rated_def rounding_activities_def column_def
      getitem_def)

lemma rounding_type_column:
  "column (RatedCostPool rounding_outputs) ''Type'' = Inr rounding_types"
  by (simp add: rounding_outputs_def rounding_rated_def rounding_types_def column_def getitem_def)

lemma rounding_labels: "distinct (matrix_labels rounding_activities)"
  by (simp add: matrix_labels_def rounding_activities_def)

subsection \<open>Type columns that do not add up to the total\<close>

text \<open>
  In the rounding example the run with float sums gives the flight the cells 0.1, 0.2 and
  0.3. Its total is \<open>(0.1 + 0.2) + 0.3\<close>, the float 0.6000000000000001; its Type
  columns are 0.1 and \<open>0.2 + 0.3\<close>, which is 0.5. Their sum is not the total, neither as
  the float sum, which is 0.6, nor as the exact sum, which is smaller than the total by
  \<open>3 / 2 ^ 55\<close>.
\<close>

theorem summary_by_type_counterexample:
  "pipeline_with fadd64 example_lib rounding_cost rounding_events = Inr rounding_outputs \<and>
   column (RatedCostPool rounding_outputs) ''Activity'' =
     Inr [Str ''Fuel'', Str ''Lounge'', Str ''Crew''] \<and>
   column (RatedCostPool rounding_outputs) ''Type'' =
     Inr [Str ''Direct'', Str ''Indirect'', Str ''Indirect''] \<and>
   getitem (AllocationMatrix rounding_outputs ! 0) (Str ''Fuel'') = Inr (Num float_0_1) \<and>
   getitem (AllocationMatrix rounding_outputs ! 0) (Str ''Lounge'') = Inr (Num float_0_2) \<and>
   getitem (AllocationMatrix rounding_outputs ! 0) (Str ''Crew'') = Inr (Num float_0_3) \<and>
   map fst (Summary rounding_outputs ! 0) =
     [''Flight'', ''Direct_Cost'', ''Indirect_Cost'', ''Total_Cost_Per_Flight''] \<and>
   getitem (Summary rounding_outputs ! 0) ''Direct_Cost'' = Inr (Num float_0_1) \<and>
   getitem (Summary rounding_outputs ! 0) ''Indirect_Cost'' = Inr (Num (1 / 2)) \<and>
   getitem (Summary rounding_outputs ! 0) ''Total_Cost_Per_Flight'' = Inr (Num float_0_6_up) \<and>
   getitem (AllocationMatrix rounding_outputs ! 0) (Str ''Total_Cost_Per_Flight'') =
     Inr (Num float_0_6_up) \<and>
   fadd64 float_0_1 (1 / 2) = float_0_6 \<and>
   float_0_6 \<noteq> float_0_6_up \<and>
   float_0_1 + 1 / 2 \<noteq> float_0_6_up \<and>
   float_0_6_up - (float_0_1 + 1 / 2) = 3 / 2 ^ 55"
proof -
  have a: "column (RatedCostPool rounding_outputs) ''Activity'' =
      Inr [Str ''Fuel'', Str ''Lounge'', Str ''Crew'']"
    using rounding_activity_column by (simp add: rounding_activities_def)
  have t: "column (RatedCostPool rounding_outputs) ''Type'' =
      Inr [Str ''Direct'', Str ''Indirect'', Str ''Indirect'']"
    using rounding_type_column by (simp add: rounding_types_def)
  have m1: "getitem (AllocationMatrix rounding_outputs ! 0) (Str ''Fuel'') = Inr (Num float_0_1)"
    and m2: "getitem (AllocationMatrix rounding_outputs ! 0) (Str ''Lounge'') = Inr (Num float_0_2)"
    and m3: "getitem (AllocationMatrix rounding_outputs ! 0) (Str ''Crew'') = Inr (Num float_0_3)"
    and m4: "getitem (AllocationMatrix rounding_outputs ! 0) (Str ''Total_Cost_Per_Flight'') =
      Inr (Num float_0_6_up)"
    by (simp_all add: rounding_outputs_def rounding_matrix_def getitem_def)
  have k: "map fst (Summary rounding_outputs ! 0) =
      [''Flight'', ''Direct_Cost'', ''Indirect_Cost'', ''Total_Cost_Per_Flight'']"
    by (simp add: rounding_outputs_def rounding_summary_def)
  have s1: "getitem (Summary rounding_outputs ! 0) ''Direct_Cost'' = Inr (Num float_0_1)"
    and s2: "getitem (Summary rounding_outputs ! 0) ''Indirect_Cost'' = Inr (Num (1 / 2))"
    and s3: "getitem (Summary rounding_outputs ! 0) ''Total_Cost_Per_Flight'' =
      Inr (Num float_0_6_up)"
    by (simp_all add: rounding_outputs_def rounding_summary_def getitem_def)
  have n1: "float_0_6 \<noteq> float_0_6_up"
    by (simp add: float_0_6_def float_0_6_up_def)
  have n2: "float_0_1 + 1 / 2 \<noteq> float_0_6_up"
    by (simp add: float_0_1_def float_0_6_up_def)
  have n3: "float_0_6_up - (float_0_1 + 1 / 2) = 3 / 2 ^ 55"
    by (simp add: float_0_1_def float_0_6_up_def)
  from rounding_pipeline a t m1 m2 m3 k s1 s2 s3 m4 fadd64_1_5 n1 n2 n3
  show ?thesis by (intro conjI)
qed

subsection \<open>Type columns and total up to rounding\<close>

text \<open>
  Claim C4. Let the run, made with an addition \<open>add\<close> in the sums of lines 95-97 and
  107, succeed with activity names that are unique and different from Flight and
  Total_Cost_Per_Flight, let no activity have a blank Type, and let different Types have
  different column labels (texts always have). Let an addition be off by at most the
  fraction \<open>u\<close> of the exact sum; for 64-bit floats \<open>u\<close> is \<open>1 / 2 ^ 53\<close>, and for the exact
  addition it is 0. For every flight \<open>i\<close> the summary row has the columns Flight, one per
  distinct Type in order of first appearance, and Total_Cost_Per_Flight. The column of a
  Type is the sum, made with \<open>add\<close> in the order of the cost pool, of the flight's matrix
  cells of exactly the activities with that Type (a blank cell counting 0), and
  Total_Cost_Per_Flight, in the summary and in the matrix, is the sum of all cells of the
  flight made the same way. The Type columns add up to Total_Cost_Per_Flight up to
  rounding: with \<open>n\<close> cells the exact sum of the columns differs from it by at most
  \<open>2 * ((1 + u) ^ n - 1)\<close> times the sum of the absolute values of the cells, and so not
  at all when \<open>u\<close> is 0; the sum of the columns made with \<open>add\<close> has the bound stated last.
\<close>

theorem summary_by_type:
  assumes "pipeline_with add lib cost_df event_df = Inr out"
    and "column (RatedCostPool out) ''Activity'' = Inr activities"
    and "column (RatedCostPool out) ''Type'' = Inr types"
    and "distinct (matrix_labels activities)"
    and "NaN \<notin> set types"
    and "inj_on (type_label lib) (set types)"
    and "i < length (Summary out)"
    and "0 \<le> u"
    and "\<forall>a b. \<bar>add a b - (a + b)\<bar> \<le> u * \<bar>a + b\<bar>"
  shows "\<exists>cells cols.
      length cells = length activities \<and>
      (\<forall>j < length activities.
         getitem (AllocationMatrix out ! i) (activities ! j) = Inr (cells ! j)) \<and>
      map fst (Summary out ! i) =
        ''Flight'' # map (type_label lib) (unique types) @ [''Total_Cost_Per_Flight''] \<and>
      length cols = length (unique types) \<and>
      (\<forall>m < length (unique types).
         getitem (Summary out ! i) (type_label lib (unique types ! m)) = Inr (Num (cols ! m)) \<and>
         cols ! m = sum_with add (map (cell_value \<circ> snd)
                       (filter (\<lambda>(ty, c). ty = unique types ! m) (zip types cells)))) \<and>
      getitem (Summary out ! i) ''Total_Cost_Per_Flight'' =
        Inr (Num (sum_with add (map cell_value cells))) \<and>
      getitem (AllocationMatrix out ! i) (Str ''Total_Cost_Per_Flight'') =
        Inr (Num (sum_with add (map cell_value cells))) \<and>
      \<bar>sum_list cols - sum_with add (map cell_value cells)\<bar> \<le>
        2 * ((1 + u) ^ length cells - 1) * sum_list (map (abs \<circ> cell_value) cells) \<and>
      \<bar>sum_with add cols - sum_with add (map cell_value cells)\<bar> \<le>
        (((1 + u) ^ length cols - 1) * (1 + u) ^ length cells +
           2 * ((1 + u) ^ length cells - 1)) * sum_list (map (abs \<circ> cell_value) cells)"
proof -
  note st = pipeline_with_Inr[OF assms(1)]
  let ?M = "AllocationMatrix out ! i"
  let ?S = "Summary out ! i"
  let ?ts = "unique types"
  have i': "i < length (AllocationMatrix out)"
    using assms(7) summary_table_with_row(1)[OF st(3)] by simp
  from allocation_matrix_with_row(2)[OF st(2) assms(2,4) i'] obtain nm vs s where
    vs: "map_result (alloc_cell (events_clean event_df ! i)) (RatedCostPool out) = Inr vs" and
    s: "nansum_with add vs = Inr s" and
    row: "?M = (Str ''Flight'', nm) # zip activities vs @ [(Str ''Total_Cost_Per_Flight'', Num s)]"
    by blast
  have la: "length activities = length (RatedCostPool out)"
    using assms(2) by (rule column_length)
  have lt: "length types = length activities"
    using column_length[OF assms(3)] la by simp
  have lv: "length vs = length activities"
    using map_result_length[OF vs] la by simp
  have cellsj: "\<forall>j < length activities. getitem ?M (activities ! j) = Inr (vs ! j)"
    unfolding row using assms(4) lv by (simp add: matrix_row_activity)
  have mt: "getitem ?M (Str ''Total_Cost_Per_Flight'') = Inr (Num s)"
    unfolding row using assms(4) lv by (simp add: matrix_row_total)
  have nums: "list_all is_number vs"
    using s by (rule nansum_with_all_numbers)
  have s_eq: "s = sum_with add (map cell_value vs)"
    using s by (rule nansum_with_value)
  define g where
    "g t = sum_with add (map (cell_value \<circ> snd) (filter (\<lambda>(ty, c). ty = t) (zip types vs)))" for t
  have tys_notna: "t \<noteq> NaN" if "t \<in> set ?ts" for t
    using that assms(5) by (auto simp: unique_set)
  have col_t: "sum_of_columns_with add (acts_of_type types activities t) ?M = Inr (Num (g t))"
    if "t \<in> set ?ts" for t
  proof -
    have "(\<lambda>(ty, c). py_eq ty t) = (\<lambda>(ty, c :: cell). ty = t)"
      by (simp add: py_eq_notna[OF tys_notna[OF that]])
    with sum_of_columns_with_type[OF assms(4) lt lv nums, of add t nm "Num s"] show ?thesis
      by (simp add: row g_def)
  qed
  from summary_table_with_row(2)[OF st(3) i'] obtain flight types' activities' cols' tot where
    ty': "column (RatedCostPool out) ''Type'' = Inr types'" and
    ac': "column (RatedCostPool out) ''Activity'' = Inr activities'" and
    cols': "map_result (\<lambda>t. sum_of_columns_with add (acts_of_type types' activities' t) ?M)
              (unique types') = Inr cols'" and
    tot: "getitem ?M (Str ''Total_Cost_Per_Flight'') = Inr tot" and
    srow: "?S = AList.update ''Total_Cost_Per_Flight'' tot
          (foldl (\<lambda>r (t, v). AList.update (type_label lib t) v r) [(''Flight'', flight)]
             (zip (unique types') cols'))"
    by blast
  from ty' ac' assms(2,3) have eq: "types' = types" "activities' = activities" by simp_all
  from tot mt have tots: "tot = Num s" by simp
  have "map_result (\<lambda>t. sum_of_columns_with add (acts_of_type types activities t) ?M) ?ts =
          Inr (map (\<lambda>t. Num (g t)) ?ts)"
    by (rule map_result_map) (rule col_t)
  with cols' eq have cols'_eq: "cols' = map (\<lambda>t. Num (g t)) ?ts" by simp
  have ttext: "inj_on (type_label lib) (set ?ts)"
    using assms(6) by (simp add: unique_set)
  have lc: "length cols' = length ?ts" by (simp add: cols'_eq)
  have srow': "?S = (''Flight'', flight) # zip (map (type_label lib) ?ts) cols' @
                  [(''Total_Cost_Per_Flight'', Num s)]"
    unfolding srow eq tots by (rule summary_row_text[OF ttext unique_distinct lc])
  have keys: "map fst ?S = ''Flight'' # map (type_label lib) ?ts @ [''Total_Cost_Per_Flight'']"
    by (simp add: srow' lc)
  have lab: "getitem ?S (type_label lib (?ts ! m)) = Inr (Num (map g ?ts ! m))"
    if m: "m < length ?ts" for m
  proof -
    have "getitem ?S (type_label lib (?ts ! m)) = Inr (cols' ! m)"
      unfolding srow' by (rule summary_row_label[OF ttext unique_distinct lc m])
    with m show ?thesis by (simp add: cols'_eq)
  qed
  have stot: "getitem ?S ''Total_Cost_Per_Flight'' = Inr (Num s)"
    using summary_with_total[OF st(3) i'] mt by simp
  have sub: "fst ` set (zip types vs) \<subseteq> set ?ts"
    by (auto simp: unique_set dest: set_zip_leftD)
  have vals: "map (cell_value \<circ> snd) (zip types vs) = map cell_value vs"
    using lt lv by (simp add: map_map[symmetric] del: map_map)
  have absvals: "map (abs \<circ> cell_value \<circ> snd) (zip types vs) = map (abs \<circ> cell_value) vs"
    using lt lv by (simp add: map_map[symmetric] del: map_map)
  have lz: "length (zip types vs) = length vs"
    using lt lv by simp
  note err = grouped_sums_error[OF assms(8,9) unique_distinct sub, of cell_value]
  have b1: "\<bar>sum_list (map g ?ts) - sum_with add (map cell_value vs)\<bar> \<le>
        2 * ((1 + u) ^ length vs - 1) * sum_list (map (abs \<circ> cell_value) vs)"
    using err(1) by (simp only: g_def[abs_def] vals absvals lz)
  have b2: "\<bar>sum_with add (map g ?ts) - sum_with add (map cell_value vs)\<bar> \<le>
        (((1 + u) ^ length (map g ?ts) - 1) * (1 + u) ^ length vs +
           2 * ((1 + u) ^ length vs - 1)) * sum_list (map (abs \<circ> cell_value) vs)"
    using err(2) by (simp only: g_def[abs_def] vals absvals lz length_map)
  show ?thesis
  proof (intro exI[of _ vs] exI[of _ "map g ?ts"] conjI allI impI)
    show "length vs = length activities" by (rule lv)
    show "getitem ?M (activities ! j) = Inr (vs ! j)" if "j < length activities" for j
      using cellsj that by simp
    show "map fst ?S = ''Flight'' # map (type_label lib) ?ts @ [''Total_Cost_Per_Flight'']"
      by (rule keys)
    show "length (map g ?ts) = length ?ts" by simp
    show "getitem ?S (type_label lib (?ts ! m)) = Inr (Num (map g ?ts ! m))"
      if "m < length ?ts" for m using that by (rule lab)
    show "map g ?ts ! m = sum_with add (map (cell_value \<circ> snd)
                       (filter (\<lambda>(ty, c). ty = ?ts ! m) (zip types vs)))"
      if "m < length ?ts" for m using that by (simp add: g_def)
    show "getitem ?S ''Total_Cost_Per_Flight'' = Inr (Num (sum_with add (map cell_value vs)))"
      using stot by (simp only: s_eq)
    show "getitem ?M (Str ''Total_Cost_Per_Flight'') = Inr (Num (sum_with add (map cell_value vs)))"
      using mt by (simp only: s_eq)
    show "\<bar>sum_list (map g ?ts) - sum_with add (map cell_value vs)\<bar> \<le>
        2 * ((1 + u) ^ length vs - 1) * sum_list (map (abs \<circ> cell_value) vs)"
      by (rule b1)
    show "\<bar>sum_with add (map g ?ts) - sum_with add (map cell_value vs)\<bar> \<le>
        (((1 + u) ^ length (map g ?ts) - 1) * (1 + u) ^ length vs +
           2 * ((1 + u) ^ length vs - 1)) * sum_list (map (abs \<circ> cell_value) vs)"
      by (rule b2)
  qed
qed

theorem summary_by_type_witness:
  "pipeline_with fadd64 example_lib rounding_cost rounding_events = Inr rounding_outputs \<and>
   column (RatedCostPool rounding_outputs) ''Activity'' = Inr rounding_activities \<and>
   column (RatedCostPool rounding_outputs) ''Type'' = Inr rounding_types \<and>
   distinct (matrix_labels rounding_activities) \<and>
   NaN \<notin> set rounding_types \<and>
   inj_on (type_label example_lib) (set rounding_types) \<and>
   0 < length (Summary rounding_outputs) \<and>
   (0 :: real) \<le> 1 / 2 ^ 53 \<and>
   (\<forall>a b. \<bar>fadd64 a b - (a + b)\<bar> \<le> 1 / 2 ^ 53 * \<bar>a + b\<bar>) \<and>
   unique rounding_types = [Str ''Direct'', Str ''Indirect''] \<and>
   getitem (Summary rounding_outputs ! 0) ''Direct_Cost'' = Inr (Num float_0_1) \<and>
   getitem (Summary rounding_outputs ! 0) ''Indirect_Cost'' = Inr (Num (1 / 2)) \<and>
   getitem (Summary rounding_outputs ! 0) ''Total_Cost_Per_Flight'' = Inr (Num float_0_6_up) \<and>
   (\<exists>cells cols.
      length cells = length rounding_activities \<and>
      (\<forall>j < length rounding_activities.
         getitem (AllocationMatrix rounding_outputs ! 0) (rounding_activities ! j) =
           Inr (cells ! j)) \<and>
      map fst (Summary rounding_outputs ! 0) =
        ''Flight'' # map (type_label example_lib) (unique rounding_types) @
          [''Total_Cost_Per_Flight''] \<and>
      length cols = length (unique rounding_types) \<and>
      (\<forall>m < length (unique rounding_types).
         getitem (Summary rounding_outputs ! 0) (type_label example_lib (unique rounding_types ! m)) =
           Inr (Num (cols ! m)) \<and>
         cols ! m = sum_with fadd64 (map (cell_value \<circ> snd)
                       (filter (\<lambda>(ty, c). ty = unique rounding_types ! m)
                          (zip rounding_types cells)))) \<and>
      getitem (Summary rounding_outputs ! 0) ''Total_Cost_Per_Flight'' =
        Inr (Num (sum_with fadd64 (map cell_value cells))) \<and>
      getitem (AllocationMatrix rounding_outputs ! 0) (Str ''Total_Cost_Per_Flight'') =
        Inr (Num (sum_with fadd64 (map cell_value cells))) \<and>
      \<bar>sum_list cols - sum_with fadd64 (map cell_value cells)\<bar> \<le>
        2 * ((1 + 1 / 2 ^ 53) ^ length cells - 1) * sum_list (map (abs \<circ> cell_value) cells) \<and>
      \<bar>sum_with fadd64 cols - sum_with fadd64 (map cell_value cells)\<bar> \<le>
        (((1 + 1 / 2 ^ 53) ^ length cols - 1) * (1 + 1 / 2 ^ 53) ^ length cells +
           2 * ((1 + 1 / 2 ^ 53) ^ length cells - 1)) *
          sum_list (map (abs \<circ> cell_value) cells))"
proof -
  have "list_all is_text rounding_types"
    by (simp add: rounding_types_def)
  note tx = type_labels_text(2)[OF this] type_labels_text(1)[OF this, of example_lib]
  have i: "0 < length (Summary rounding_outputs)"
    by (simp add: rounding_outputs_def rounding_summary_def)
  have u: "(0 :: real) \<le> 1 / 2 ^ 53" by simp
  have e: "\<forall>a b. \<bar>fadd64 a b - (a + b)\<bar> \<le> 1 / 2 ^ 53 * \<bar>a + b\<bar>"
    by (intro allI) (rule fadd64_error)
  have q: "unique rounding_types = [Str ''Direct'', Str ''Indirect'']"
    by (simp add: unique_def rounding_types_def)
  have d: "getitem (Summary rounding_outputs ! 0) ''Direct_Cost'' = Inr (Num float_0_1)"
    and n: "getitem (Summary rounding_outputs ! 0) ''Indirect_Cost'' = Inr (Num (1 / 2))"
    and t: "getitem (Summary rounding_outputs ! 0) ''Total_Cost_Per_Flight'' =
      Inr (Num float_0_6_up)"
    by (simp_all add: rounding_outputs_def rounding_summary_def getitem_def)
  note w = summary_by_type[OF rounding_pipeline rounding_activity_column rounding_type_column
      rounding_labels tx i u e]
  from rounding_pipeline rounding_activity_column rounding_type_column rounding_labels tx i u e
    q d n t w
  show ?thesis by (intro conjI)
qed

section \<open>The script on objects and the pipeline on values\<close>

lemma zip_update_keys:
  assumes "length r = length cols"
  shows "map fst (AList.update k v (zip cols r)) = (if k \<in> set cols then cols else cols @ [k])"
  using assms by (simp add: update_keys)

lemma iterrows_table_set_column:
  assumes "rectangular df"
  shows "iterrows (table_set_column df k vs) = set_column (iterrows df) k vs"
proof -
  let ?cols' = "if k \<in> set (columns df) then columns df else columns df @ [k]"
  have "zip ?cols' (map snd s) = s" if "s \<in> set (set_column (iterrows df) k vs)" for s
  proof -
    from that obtain r v where r: "r \<in> set (rows df)" and s: "s = AList.update k v (zip (columns df) r)"
      by (auto simp: set_column_def iterrows_def dest!: set_zip_leftD)
    from assms r have "length r = length (columns df)" by (simp add: rectangular_def)
    from zip_update_keys[OF this] s have "map fst s = ?cols'" by simp
    then have "zip ?cols' (map snd s) = zip (map fst s) (map snd s)" by simp
    then show ?thesis by (simp add: zip_map_fst_snd)
  qed
  then have "map (\<lambda>s. zip ?cols' (map snd s)) (set_column (iterrows df) k vs) =
             set_column (iterrows df) k vs"
    by (simp add: map_idI)
  then show ?thesis
    by (simp add: table_set_column_def iterrows_def comp_def)
qed

lemma rectangular_table_set_column:
  assumes "rectangular df"
  shows "rectangular (table_set_column df k vs)"
proof -
  have "length (map snd s) = length (if k \<in> set (columns df) then columns df else columns df @ [k])"
    if "s \<in> set (set_column (iterrows df) k vs)" for s
  proof -
    from that obtain r v where r: "r \<in> set (rows df)" and s: "s = AList.update k v (zip (columns df) r)"
      by (auto simp: set_column_def iterrows_def dest!: set_zip_leftD)
    from assms r have "length r = length (columns df)" by (simp add: rectangular_def)
    from zip_update_keys[OF this] s
    have "map fst s = (if k \<in> set (columns df) then columns df else columns df @ [k])" by simp
    then have "length (map fst s) = length (if k \<in> set (columns df) then columns df else columns df @ [k])"
      by simp
    then show ?thesis by simp
  qed
  then show ?thesis
    by (auto simp: rectangular_def table_set_column_def)
qed

lemma iterrows_iloc_butlast: "iterrows (iloc_butlast df) = events_clean df"
  by (simp add: iterrows_def iloc_butlast_def events_clean_def map_butlast)

lemma rectangular_iloc_butlast: "rectangular df \<Longrightarrow> rectangular (iloc_butlast df)"
  by (auto simp: rectangular_def iloc_butlast_def dest: in_set_butlastD)

lemma script_rates_spec:
  assumes "c < length h" and "e < length h" and "rectangular (h ! c)"
    and "script_rates lib h c e = (r, h')"
  shows "length h' = length h + 2 \<and> (\<forall>a < length h. h' ! a = h ! a) \<and>
         h' ! Suc (length h) = h ! e \<and>
         (case r of
            Inl err \<Rightarrow> rated_cost_pool lib (h ! c) (h ! e) = Inl err
          | Inr (cd, ed) \<Rightarrow> cd = length h \<and> ed = Suc (length h) \<and>
              rated_cost_pool lib (h ! c) (h ! e) = Inr (iterrows (h' ! cd)))"
  using assms(4) assms(1,2)
  unfolding script_rates_def rated_cost_pool_def new_object_def setitem_def Let_def
  by (auto simp: nth_append iterrows_table_set_column[OF assms(3)]
        iterrows_table_set_column[OF rectangular_table_set_column[OF assms(3)]]
      split: if_splits sum.splits)

lemma script_allocate_spec:
  assumes "cd < length h" and "ed < length h"
    and "script_allocate lib h cd ed = (r, h')"
  shows "length h' = length h + 1 \<and> (\<forall>a < length h. h' ! a = h ! a) \<and>
         h' ! length h = iloc_butlast (h ! ed) \<and>
         (case r of
            Inl err \<Rightarrow>
              (case allocation_matrix lib (iterrows (h ! cd)) (h ! ed) of
                 Inl x \<Rightarrow> x = err
               | Inr costs \<Rightarrow> summary_table lib (iterrows (h ! cd)) costs = Inl err)
          | Inr (ec, costs, summ) \<Rightarrow> ec = length h \<and>
              allocation_matrix lib (iterrows (h ! cd)) (h ! ed) = Inr costs \<and>
              summary_table lib (iterrows (h ! cd)) costs = Inr summ)"
  using assms
  unfolding script_allocate_def allocation_matrix_def new_object_def Let_def
  by (auto simp: nth_append iterrows_iloc_butlast split: sum.splits)

lemma script_periods_spec:
  assumes "ec < length h" and "h ! ec = iloc_butlast ev" and "rectangular ev"
    and "script_periods lib h ec = (r, h')"
  shows "length h' = length h + 1 \<and> (\<forall>a < length h. h' ! a = h ! a) \<and>
         r = time_periods lib ev"
  using assms(4) assms(1)
  unfolding script_periods_def time_periods_def classify_def new_object_def setitem_def Let_def
  by (auto simp: nth_append assms(2) iterrows_iloc_butlast
        iterrows_table_set_column[OF rectangular_iloc_butlast[OF assms(3)]]
      split: sum.splits)

lemma script_spec:
  assumes "c < length h" and "e < length h"
    and "rectangular (h ! c)" and "rectangular (h ! e)"
  shows "fst (script lib h c e) = pipeline lib (h ! c) (h ! e)"
    and "a < length h \<Longrightarrow> snd (script lib h c e) ! a = h ! a"
    and "length h \<le> length (snd (script lib h c e))"
proof -
  obtain r1 h1 where s1: "script_rates lib h c e = (r1, h1)" by (cases "script_rates lib h c e")
  note p1 = script_rates_spec[OF assms(1,2,3) s1]
  have "fst (script lib h c e) = pipeline lib (h ! c) (h ! e) \<and>
        (\<forall>a < length h. snd (script lib h c e) ! a = h ! a) \<and>
        length h \<le> length (snd (script lib h c e))"
  proof (cases r1)
    case (Inl err)
    with p1 s1 show ?thesis
      by (simp add: script_def pipeline_def)
  next
    case (Inr ab)
    obtain cd ed where ab: "ab = (cd, ed)" by (cases ab)
    from p1 Inr ab have cd: "cd = length h" and ed: "ed = Suc (length h)"
      and rated: "rated_cost_pool lib (h ! c) (h ! e) = Inr (iterrows (h1 ! cd))"
      and l1: "length h1 = length h + 2" and keep1: "\<forall>a < length h. h1 ! a = h ! a"
      and ev1: "h1 ! Suc (length h) = h ! e"
      by simp_all
    obtain r2 h2 where s2: "script_allocate lib h1 cd ed = (r2, h2)"
      by (cases "script_allocate lib h1 cd ed")
    have cdl: "cd < length h1" and edl: "ed < length h1" using cd ed l1 by simp_all
    note p2 = script_allocate_spec[OF cdl edl s2]
    from p2 have l2: "length h2 = length h1 + 1" and keep2: "\<forall>a < length h1. h2 ! a = h1 ! a"
      and clean: "h2 ! length h1 = iloc_butlast (h1 ! ed)"
      by simp_all
    show ?thesis
    proof (cases r2)
      case (Inl err)
      with p2 s1 s2 Inr ab rated keep1 keep2 l1 l2 ed ev1 show ?thesis
        by (auto simp: script_def pipeline_def split: sum.splits)
    next
      case r2: (Inr t)
      obtain ec costs summ where t: "t = (ec, costs, summ)" by (cases t)
      from p2 r2 t have ec: "ec = length h1"
        and am: "allocation_matrix lib (iterrows (h1 ! cd)) (h1 ! ed) = Inr costs"
        and st: "summary_table lib (iterrows (h1 ! cd)) costs = Inr summ"
        by simp_all
      obtain r3 h3 where s3: "script_periods lib h2 ec = (r3, h3)"
        by (cases "script_periods lib h2 ec")
      have ecl: "ec < length h2" using ec l2 by simp
      have hec: "h2 ! ec = iloc_butlast (h ! e)" using clean ec ed ev1 by simp
      note p3 = script_periods_spec[OF ecl hec assms(4) s3]
      from p3 have l3: "length h3 = length h2 + 1" and keep3: "\<forall>a < length h2. h3 ! a = h2 ! a"
        and r3: "r3 = time_periods lib (h ! e)"
        by simp_all
      have cd3: "h3 ! cd = h1 ! cd"
        using keep3 keep2 cdl l2 by simp
      have keep: "\<forall>a < length h. h3 ! a = h ! a"
        using keep1 keep2 keep3 l1 l2 by simp
      have len: "length h \<le> length h3" using l1 l2 l3 by simp
      from s1 s2 s3 Inr ab r2 t rated am st r3 cd3 ed ev1 keep len show ?thesis
        by (auto simp: script_def pipeline_def split: sum.splits)
    qed
  qed
  then show "fst (script lib h c e) = pipeline lib (h ! c) (h ! e)"
    and "a < length h \<Longrightarrow> snd (script lib h c e) ! a = h ! a"
    and "length h \<le> length (snd (script lib h c e))"
    by simp_all
qed

text \<open>
  Claim C8. Start the script in any heap that holds the two sheets as rectangular
  tables. The result of the run, outputs or error, is the value \<open>pipeline\<close> computes from
  the contents of the two sheets, so it is a function of the two input tables alone.
  The run leaves the two sheets as they were (it writes only to objects it has made
  itself). Hence running again in the heap that the first run left gives the same result,
  and so does a run in any other heap that holds the same two tables.
\<close>

theorem rerun_identical:
  assumes "cost_sheet < length h" and "event_sheet < length h"
    and "rectangular (h ! cost_sheet)" and "rectangular (h ! event_sheet)"
  shows "fst (script lib h cost_sheet event_sheet) =
           pipeline lib (h ! cost_sheet) (h ! event_sheet) \<and>
         snd (script lib h cost_sheet event_sheet) ! cost_sheet = h ! cost_sheet \<and>
         snd (script lib h cost_sheet event_sheet) ! event_sheet = h ! event_sheet \<and>
         fst (script lib (snd (script lib h cost_sheet event_sheet)) cost_sheet event_sheet) =
           fst (script lib h cost_sheet event_sheet) \<and>
         (\<forall>h' c' e'. c' < length h' \<and> e' < length h' \<and>
             h' ! c' = h ! cost_sheet \<and> h' ! e' = h ! event_sheet \<longrightarrow>
             fst (script lib h' c' e') = fst (script lib h cost_sheet event_sheet))"
proof (intro conjI allI impI)
  let ?h1 = "snd (script lib h cost_sheet event_sheet)"
  note sp = script_spec[OF assms]
  show out: "fst (script lib h cost_sheet event_sheet) =
           pipeline lib (h ! cost_sheet) (h ! event_sheet)"
    by (rule sp(1))
  show keep_c: "?h1 ! cost_sheet = h ! cost_sheet"
    using assms(1) by (rule sp(2))
  show keep_e: "?h1 ! event_sheet = h ! event_sheet"
    using assms(2) by (rule sp(2))
  have c1: "cost_sheet < length ?h1" and e1: "event_sheet < length ?h1"
    using sp(3)[of lib] assms(1,2) by simp_all
  have "fst (script lib ?h1 cost_sheet event_sheet) =
          pipeline lib (?h1 ! cost_sheet) (?h1 ! event_sheet)"
    using c1 e1 assms(3,4) by (intro script_spec(1)) (simp_all only: keep_c keep_e)
  then show "fst (script lib ?h1 cost_sheet event_sheet) = fst (script lib h cost_sheet event_sheet)"
    by (simp only: keep_c keep_e out)
  fix h' c' e'
  assume a: "c' < length h' \<and> e' < length h' \<and>
             h' ! c' = h ! cost_sheet \<and> h' ! e' = h ! event_sheet"
  then have "fst (script lib h' c' e') = pipeline lib (h' ! c') (h' ! e')"
    using assms(3,4) by (intro script_spec(1)) simp_all
  with a show "fst (script lib h' c' e') = fst (script lib h cost_sheet event_sheet)"
    by (simp only: out)
qed

lemma example_rectangular: "rectangular example_cost" "rectangular example_events"
  by (simp_all add: rectangular_def example_cost_def example_events_def)

theorem rerun_identical_witness:
  "(0::nat) < length [example_cost, example_events] \<and>
   (1::nat) < length [example_cost, example_events] \<and>
   rectangular ([example_cost, example_events] ! 0) \<and>
   rectangular ([example_cost, example_events] ! 1) \<and>
   fst (script example_lib [example_cost, example_events] 0 1) = Inr example_outputs \<and>
   snd (script example_lib [example_cost, example_events] 0 1) ! 0 = example_cost \<and>
   snd (script example_lib [example_cost, example_events] 0 1) ! 1 = example_events \<and>
   fst (script example_lib (snd (script example_lib [example_cost, example_events] 0 1)) 0 1) =
     Inr example_outputs"
proof -
  let ?h = "[example_cost, example_events]"
  have c: "(0::nat) < length ?h" and e: "(1::nat) < length ?h" by simp_all
  have rc: "rectangular (?h ! 0)" and re: "rectangular (?h ! 1)"
    by (simp_all add: example_rectangular)
  note w = rerun_identical[OF c e rc re, of example_lib]
  have p: "pipeline example_lib (?h ! 0) (?h ! 1) = Inr example_outputs"
    by (simp add: example_pipeline)
  from w p have o: "fst (script example_lib ?h 0 1) = Inr example_outputs"
    by (simp only:)
  from w have k0: "snd (script example_lib ?h 0 1) ! 0 = example_cost"
    and k1: "snd (script example_lib ?h 0 1) ! 1 = example_events"
    by simp_all
  from w o have again: "fst (script example_lib (snd (script example_lib ?h 0 1)) 0 1) =
     Inr example_outputs"
    by (simp only:)
  from c e rc re o k0 k1 again show ?thesis by (intro conjI)
qed

section \<open>Validation of the cost-pool columns\<close>

lemma agree_getitem: "agree_on K r r' \<Longrightarrow> k \<in> K \<Longrightarrow> getitem r k = getitem r' k"
  by (simp add: agree_on_def getitem_def)

lemma map_result_cong2:
  "list_all2 (\<lambda>x y. f x = g y) xs ys \<Longrightarrow> map_result f xs = map_result g ys"
  by (induction rule: list_all2_induct) (auto split: sum.splits)

lemma agree_column:
  assumes "list_all2 (agree_on K) df df'" and "k \<in> K"
  shows "column df k = column df' k"
  unfolding column_def
  by (rule map_result_cong2, rule list_all2_mono[OF assms(1)]) (simp add: agree_getitem assms(2))

lemma agree_update: "agree_on K r r' \<Longrightarrow> agree_on (insert k K) (AList.update k v r) (AList.update k v r')"
  by (simp add: agree_on_def update_conv')

lemma agree_set_column:
  assumes "list_all2 (agree_on K) df df'"
  shows "list_all2 (agree_on (insert k K)) (set_column df k vs) (set_column df' k vs)"
  using assms
proof (induction arbitrary: vs rule: list_all2_induct)
  case Nil
  then show ?case by (simp add: set_column_def)
next
  case (Cons r df r' df')
  show ?case
    by (cases vs) (use Cons in \<open>auto simp: set_column_def agree_update\<close>)
qed

lemma agree_rate_lambda:
  assumes "agree_on K r r'" and "''Driver_Units'' \<in> K" and "''Total_Cost'' \<in> K"
  shows "rate_lambda r = rate_lambda r'"
  unfolding rate_lambda_def
  by (simp add: agree_getitem[OF assms(1,2)] agree_getitem[OF assms(1,3)] cong: sum.case_cong if_cong)

lemma agree_rated_cost_pool:
  assumes "required_cols \<subseteq> set (columns cost_df)" and "required_cols \<subseteq> set (columns cost_df')"
    and "same_on_required cost_df cost_df'"
  shows "(\<exists>e. rated_cost_pool lib cost_df event_df = Inl e \<and>
              rated_cost_pool lib cost_df' event_df = Inl e) \<or>
         (\<exists>rated rated'. rated_cost_pool lib cost_df event_df = Inr rated \<and>
              rated_cost_pool lib cost_df' event_df = Inr rated' \<and>
              list_all2 (agree_on rated_cols) rated rated')"
proof (cases "total_row event_df")
  case (Inl e)
  with assms(1,2) show ?thesis by (simp add: rated_cost_pool_def)
next
  case (Inr tr)
  let ?du = "driver_units (total_items event_df tr)"
  from assms(3) have ag: "list_all2 (agree_on required_cols) (iterrows cost_df) (iterrows cost_df')"
    by (simp add: same_on_required_def)
  have dr: "column (iterrows cost_df) ''Driver'' = column (iterrows cost_df') ''Driver''"
    by (rule agree_column[OF ag]) (simp add: required_cols_def)
  show ?thesis
  proof (cases "column (iterrows cost_df) ''Driver''")
    case (Inl e)
    with dr have "column (iterrows cost_df') ''Driver'' = Inl e" by simp
    with Inl Inr assms(1,2) show ?thesis by (simp add: rated_cost_pool_def)
  next
    case drivers: (Inr drivers)
    with dr have drivers': "column (iterrows cost_df') ''Driver'' = Inr drivers" by simp
    let ?c1 = "set_column (iterrows cost_df) ''Driver_Units'' (map (get_driver_units lib ?du) drivers)"
    let ?c1' = "set_column (iterrows cost_df') ''Driver_Units'' (map (get_driver_units lib ?du) drivers)"
    have ag1: "list_all2 (agree_on (insert ''Driver_Units'' required_cols)) ?c1 ?c1'"
      using ag by (rule agree_set_column)
    have "rate_lambda r = rate_lambda r'"
      if "agree_on (insert ''Driver_Units'' required_cols) r r'" for r r'
      using that by (rule agree_rate_lambda) (simp_all add: required_cols_def)
    with ag1 have "list_all2 (\<lambda>r r'. rate_lambda r = rate_lambda r') ?c1 ?c1'"
      by (rule list_all2_mono)
    then have rl: "map_result rate_lambda ?c1 = map_result rate_lambda ?c1'"
      by (rule map_result_cong2)
    show ?thesis
    proof (cases "map_result rate_lambda ?c1")
      case (Inl e)
      with rl have "map_result rate_lambda ?c1' = Inl e" by simp
      with Inl Inr drivers drivers' assms(1,2) show ?thesis
        by (simp add: rated_cost_pool_def)
    next
      case rates: (Inr rates)
      with rl have rates': "map_result rate_lambda ?c1' = Inr rates" by simp
      have "list_all2 (agree_on rated_cols)
              (set_column ?c1 ''RatePerDriverUnit'' rates) (set_column ?c1' ''RatePerDriverUnit'' rates)"
        unfolding rated_cols_def using ag1 by (rule agree_set_column)
      with Inr drivers drivers' rates rates' assms(1,2) show ?thesis
        by (simp add: rated_cost_pool_def)
    qed
  qed
qed

lemma agree_alloc_loop:
  assumes "list_all2 (agree_on rated_cols) cost cost'"
  shows "alloc_loop fr cost rc = alloc_loop fr cost' rc"
  using assms
proof (induction arbitrary: rc rule: list_all2_induct)
  case Nil
  show ?case by simp
next
  case (Cons act cost act' cost')
  have "getitem act ''Driver'' = getitem act' ''Driver''"
    "getitem act ''RatePerDriverUnit'' = getitem act' ''RatePerDriverUnit''"
    "getitem act ''Activity'' = getitem act' ''Activity''"
    by (rule agree_getitem[OF Cons.hyps(1)], simp add: rated_cols_def required_cols_def)+
  then have "alloc_cell fr act = alloc_cell fr act'" "getitem act ''Activity'' = getitem act' ''Activity''"
    by (simp_all add: alloc_cell_def cong: sum.case_cong)
  with Cons.IH show ?case by (simp cong: sum.case_cong)
qed

lemma agree_allocation_matrix:
  assumes "list_all2 (agree_on rated_cols) cost cost'"
  shows "allocation_matrix lib cost event_df = allocation_matrix lib cost' event_df"
proof -
  have "flight_costs lib cost = flight_costs lib cost'"
    by (rule ext) (simp add: flight_costs_def agree_alloc_loop[OF assms] split: list.splits)
  then show ?thesis by (simp add: allocation_matrix_def allocate_def)
qed

lemma agree_summary_table:
  assumes "list_all2 (agree_on rated_cols) cost cost'"
  shows "summary_table lib cost costs = summary_table lib cost' costs"
proof -
  have "column cost ''Type'' = column cost' ''Type''"
    "column cost ''Activity'' = column cost' ''Activity''"
    by (rule agree_column[OF assms], simp add: rated_cols_def required_cols_def)+
  then show ?thesis by (simp add: summary_table_def cong: sum.case_cong)
qed

lemma extra_columns_ignored:
  assumes "required_cols \<subseteq> set (columns cost_df)" and "required_cols \<subseteq> set (columns cost_df')"
    and "same_on_required cost_df cost_df'"
  shows "map_sum id derived_tables (pipeline lib cost_df event_df) =
         map_sum id derived_tables (pipeline lib cost_df' event_df)"
proof -
  from agree_rated_cost_pool[OF assms, of lib event_df] show ?thesis
  proof (elim disjE exE conjE)
    fix e
    assume "rated_cost_pool lib cost_df event_df = Inl e" "rated_cost_pool lib cost_df' event_df = Inl e"
    then show ?thesis by (simp add: pipeline_def)
  next
    fix rated rated'
    assume r: "rated_cost_pool lib cost_df event_df = Inr rated"
      and r': "rated_cost_pool lib cost_df' event_df = Inr rated'"
      and ag: "list_all2 (agree_on rated_cols) rated rated'"
    note am = agree_allocation_matrix[OF ag, of lib event_df]
    note st = agree_summary_table[OF ag, of lib]
    show ?thesis
      by (simp add: pipeline_def r r' am st derived_tables_def split: sum.splits)
  qed
qed

text \<open>
  Claim C7. The run stops with \<open>MissingColumnsError\<close> exactly when one of Activity, Type,
  Total_Cost, Driver is not a column of the cost-pool table. The check comes first, so
  nothing is allocated then, whatever the event table holds; a table that has the four
  columns never stops with this error. Other columns are ignored: two cost-pool tables
  that have the four columns and agree on them give the same allocation matrix, summary
  and time periods, or the same error.
\<close>

theorem missing_columns_halt:
  "(pipeline lib cost_df event_df = Inl MissingColumnsError
      \<longleftrightarrow> \<not> required_cols \<subseteq> set (columns cost_df)) \<and>
   (\<forall>cost_df'. required_cols \<subseteq> set (columns cost_df) \<and>
       required_cols \<subseteq> set (columns cost_df') \<and> same_on_required cost_df cost_df' \<longrightarrow>
       map_sum id derived_tables (pipeline lib cost_df event_df) =
       map_sum id derived_tables (pipeline lib cost_df' event_df))"
proof (intro conjI allI impI iffI)
  assume "pipeline lib cost_df event_df = Inl MissingColumnsError"
  from pipeline_Inl[OF this] show "\<not> required_cols \<subseteq> set (columns cost_df)" by auto
next
  assume "\<not> required_cols \<subseteq> set (columns cost_df)"
  then show "pipeline lib cost_df event_df = Inl MissingColumnsError"
    by (simp add: pipeline_def rated_cost_pool_def)
next
  fix cost_df'
  assume "required_cols \<subseteq> set (columns cost_df) \<and>
       required_cols \<subseteq> set (columns cost_df') \<and> same_on_required cost_df cost_df'"
  then show "map_sum id derived_tables (pipeline lib cost_df event_df) =
       map_sum id derived_tables (pipeline lib cost_df' event_df)"
    by (intro extra_columns_ignored) simp_all
qed

theorem missing_columns_halt_witness:
  "\<not> required_cols \<subseteq> set (columns \<lparr>columns = [''Activity'', ''Type'', ''Total_Cost''], rows = []\<rparr>) \<and>
   pipeline example_lib \<lparr>columns = [''Activity'', ''Type'', ''Total_Cost''], rows = []\<rparr>
     example_events = Inl MissingColumnsError \<and>
   required_cols \<subseteq> set (columns example_cost) \<and>
   required_cols \<subseteq> set (columns example_cost_noted) \<and>
   same_on_required example_cost example_cost_noted \<and>
   pipeline example_lib example_cost_noted example_events \<noteq> Inl MissingColumnsError \<and>
   map_sum id derived_tables (pipeline example_lib example_cost_noted example_events) =
     Inr (example_matrix, example_summary, [''Morning'', ''Unknown''])"
proof -
  let ?bad = "\<lparr>columns = [''Activity'', ''Type'', ''Total_Cost''], rows = []\<rparr>"
  have bad: "\<not> required_cols \<subseteq> set (columns ?bad)"
    by (simp add: required_cols_def)
  have good: "required_cols \<subseteq> set (columns example_cost)"
    by (simp add: required_cols_def example_cost_def)
  have noted: "required_cols \<subseteq> set (columns example_cost_noted)"
    by (simp add: required_cols_def example_cost_noted_def)
  have same: "same_on_required example_cost example_cost_noted"
    by (simp add: same_on_required_def agree_on_def required_cols_def iterrows_def
        example_cost_def example_cost_noted_def)
  have b: "pipeline example_lib ?bad example_events = Inl MissingColumnsError"
    using bad by (rule missing_columns_halt[THEN conjunct1, THEN iffD2])
  have n: "pipeline example_lib example_cost_noted example_events \<noteq> Inl MissingColumnsError"
    using noted missing_columns_halt[THEN conjunct1, THEN iffD1] by blast
  have "map_sum id derived_tables (pipeline example_lib example_cost example_events) =
        map_sum id derived_tables (pipeline example_lib example_cost_noted example_events)"
    using missing_columns_halt[THEN conjunct2, rule_format, of example_cost example_cost_noted]
      good noted same by blast
  then have d: "map_sum id derived_tables (pipeline example_lib example_cost_noted example_events) =
     Inr (example_matrix, example_summary, [''Morning'', ''Unknown''])"
    by (simp add: example_pipeline derived_tables_def example_outputs_def)
  from bad b good noted same n d show ?thesis by (intro conjI)
qed

end
